theory Spec2Isabelle
  imports Main "HOL-Library.Sublist"
begin

section \<open>Data model\<close>

text \<open>
  Go errors are modelled by their message text. The two Go programs of the repository
  (package \<open>main\<close> at the top level, package \<open>internal\<close> under \<open>chart-releaser\<close>) share
  the chart and index data types.
\<close>

type_synonym error = string

text \<open>\<open>ChartMetadata\<close>: the fields read from a \<open>Chart.yaml\<close> (chart.go, release_manager.go).\<close>

record ChartMetadata =
  Name :: string
  Version :: string

text \<open>\<open>ChartInfo\<close> (chart.go, release_manager.go).\<close>

record ChartInfo =
  Path :: string
  Name :: string
  Version :: string

text \<open>
  \<open>ChartVersion\<close> and \<open>IndexFile\<close> (index.go). Helm's \<open>repo.ChartVersion\<close> and
  \<open>repo.IndexFile\<close>, used by package \<open>internal\<close>, carry further fields; the functions below
  are typed over the record schemes, so they cover both. The entry lists hold non-nil
  pointers; the entries are never mutated through them, so they are modelled as values.
\<close>

record ChartVersion =
  Name :: string
  Version :: string
  URLs :: "string list"

record 'v IndexFile =
  APIVersion :: string
  Entries :: "string \<rightharpoonup> 'v list"
  Generated :: string

text \<open>One line handed to a logger: \<open>log.Printf\<close> with the formatted text, or a call of the
  \<open>logr\<close> logger of package \<open>internal\<close> with its verbosity (\<open>0\<close> for \<open>Info\<close>, \<open>n\<close> for
  \<open>V(n).Info\<close>), its message and its further arguments.\<close>

datatype logged = VStr string | VStrs "string list" | VInt int | VNat nat | VBool bool

datatype log_line =
    Printf string
  | LogInfo nat string "logged list"
  | LogError error string "logged list"

text \<open>Reading \<open>m[k]\<close> of a Go map: the zero value (a nil slice) when the key is absent.\<close>

definition map_index :: "(string \<rightharpoonup> 'v list) \<Rightarrow> string \<Rightarrow> 'v list" where
  "map_index m k = (case m k of None \<Rightarrow> [] | Some vs \<Rightarrow> vs)"

section \<open>Library functions used by the programs\<close>

text \<open>
  The Go standard library is not part of the repository. The string and path functions
  the programs call are modelled after their documentation, on byte strings with the
  Unix separator \<open>/\<close>.
\<close>

definition backslash :: char where
  "backslash = CHR 0x5C"

definition quote :: char where
  "quote = CHR 0x27"

text \<open>\<open>strings.TrimSpace\<close>, for the ASCII white space characters.\<close>

definition isSpace :: "char \<Rightarrow> bool" where
  "isSpace c = (c \<in> set [CHR '' '', CHR 0x09, CHR 0x0A, CHR 0x0B, CHR 0x0C, CHR 0x0D])"

definition strings_TrimSpace :: "string \<Rightarrow> string" where
  "strings_TrimSpace s = rev (dropWhile isSpace (rev (dropWhile isSpace s)))"

text \<open>\<open>strings.Split(s, sep)\<close> for a separator of one character: the pieces between the
  separators, one more than there are separators.\<close>

fun Split_from :: "string \<Rightarrow> string \<Rightarrow> char \<Rightarrow> string list" where
  "Split_from cur [] sep = [cur]"
| "Split_from cur (c # cs) sep =
     (if c = sep then cur # Split_from [] cs sep else Split_from (cur @ [c]) cs sep)"

definition strings_Split :: "string \<Rightarrow> char \<Rightarrow> string list" where
  "strings_Split s sep = Split_from [] s sep"

text \<open>\<open>strings.Join(elems, sep)\<close>.\<close>

fun strings_Join :: "string list \<Rightarrow> string \<Rightarrow> string" where
  "strings_Join [] sep = []"
| "strings_Join [e] sep = e"
| "strings_Join (e # es) sep = e @ sep @ strings_Join es sep"

text \<open>\<open>strings.Contains(s, substr)\<close>.\<close>

fun strings_Contains :: "string \<Rightarrow> string \<Rightarrow> bool" where
  "strings_Contains [] substr = (substr = [])"
| "strings_Contains (c # cs) substr = (prefix substr (c # cs) \<or> strings_Contains cs substr)"

text \<open>The verb \<open>%v\<close> of \<open>fmt\<close> on a slice of strings: the elements between brackets,
  separated by spaces.\<close>

definition fmt_strings :: "string list \<Rightarrow> string" where
  "fmt_strings xs = ''['' @ strings_Join xs '' '' @ '']''"

text \<open>The verb \<open>%d\<close> of \<open>fmt\<close> on a length.\<close>

definition digit_char :: "nat \<Rightarrow> char" where
  "digit_char d = ''0123456789'' ! d"

function fmt_nat :: "nat \<Rightarrow> string" where
  "fmt_nat n = (if n < 10 then [digit_char n] else fmt_nat (n div 10) @ [digit_char (n mod 10)])"
  by pat_completeness auto
termination
  by (relation "measure (\<lambda>n. n)") auto

text \<open>
  \<open>filepath.Clean\<close>, by the rules of its documentation: multiple separators become
  one, every \<open>.\<close> element is dropped, an inner \<open>..\<close> element is dropped together with the
  element before it that is not \<open>..\<close>, a \<open>..\<close> element that begins a rooted path is
  dropped, and an empty result is \<open>.\<close>. The elements are processed from the left with the
  cleaned elements kept on a stack, most recent first.
\<close>

fun Clean_elems :: "bool \<Rightarrow> string list \<Rightarrow> string list \<Rightarrow> string list" where
  "Clean_elems rooted [] out = rev out"
| "Clean_elems rooted (e # es) out =
     (if e = [] \<or> e = ''.'' then Clean_elems rooted es out
      else if e = ''..'' then
        (case out of
           [] \<Rightarrow> if rooted then Clean_elems rooted es [] else Clean_elems rooted es [''..'']
         | p # ps \<Rightarrow>
             if p \<noteq> ''..'' then Clean_elems rooted es ps
             else if rooted then Clean_elems rooted es out
             else Clean_elems rooted es (''..'' # out))
      else Clean_elems rooted es (e # out))"

definition filepath_Clean :: "string \<Rightarrow> string" where
  "filepath_Clean path =
     (if path = [] then ''.''
      else
        let rooted = (hd path = CHR ''/'');
            out = Clean_elems rooted (strings_Split path (CHR ''/'')) [];
            cleaned = (if rooted then ''/'' else []) @ strings_Join out ''/''
        in if cleaned = [] then ''.'' else cleaned)"

text \<open>\<open>filepath.Join\<close>: leading empty elements are ignored, the rest is joined with the
  separator and cleaned; the result is empty when every element is.\<close>

definition filepath_Join :: "string list \<Rightarrow> string" where
  "filepath_Join elem =
     (case dropWhile (\<lambda>e. e = []) elem of
        [] \<Rightarrow> []
      | es \<Rightarrow> filepath_Clean (strings_Join es ''/''))"

text \<open>
  Package \<open>regexp\<close> is a parameter of the model: \<open>Compile\<close> yields a compiled expression or
  the error of the syntax, \<open>MatchString\<close> reports whether the string contains a match.
\<close>

record 'r regexp =
  Compile :: "string \<Rightarrow> error + 'r"
  MatchString :: "'r \<Rightarrow> string \<Rightarrow> bool"

section \<open>A regular expression engine for a fragment of the syntax\<close>

text \<open>
  Where a statement needs a concrete engine (the rows of the table of matches, and the
  instances of the theorems), this model of package \<open>regexp\<close> stands in for it. It covers
  ASCII text and the patterns built from literal characters, \<open>.\<close>, the anchors \<open>^\<close> and
  \<open>$\<close> (begin and end of the text, as without flags), an escaped punctuation character,
  \<open>\d\<close>, groups, alternation and the operators \<open>*\<close>, \<open>+\<close> and \<open>?\<close> applied once.
  \<open>re_Compile\<close> returns an error for a pattern that Go rejects within the fragment, and
  the error \<open>unsupported\<close> for a pattern outside the fragment. \<open>re_MatchString\<close> searches
  for a match that may begin anywhere in the text.
\<close>

datatype re =
    RLit char | RAny | RDigit | RBol | REol | REmpty
  | RGroup re | RSeq re re | RAlt re re | RStar re | RPlus re | ROpt re

text \<open>A position in the text: whether it is the beginning, and the text that is left.\<close>

type_synonym pos = "bool \<times> string"

text \<open>The positions after zero or more matches of an expression whose matches from a
  position are \<open>f\<close>; a round that consumes nothing adds nothing, so as many rounds as
  characters left are enough.\<close>

primrec star_iter :: "(pos \<Rightarrow> pos list) \<Rightarrow> nat \<Rightarrow> pos \<Rightarrow> pos list" where
  "star_iter f 0 p = [p]"
| "star_iter f (Suc n) p =
     p # concat (map (star_iter f n) (filter (\<lambda>q. length (snd q) < length (snd p)) (f p)))"

definition is_digit :: "char \<Rightarrow> bool" where
  "is_digit c = (c \<in> set ''0123456789'')"

text \<open>\<open>run r p\<close>: the positions where a match of \<open>r\<close> that begins at \<open>p\<close> can end.\<close>

primrec run :: "re \<Rightarrow> pos \<Rightarrow> pos list" where
  "run (RLit c) p = (case snd p of [] \<Rightarrow> [] | x # xs \<Rightarrow> if x = c then [(False, xs)] else [])"
| "run RAny p = (case snd p of [] \<Rightarrow> [] | x # xs \<Rightarrow> if x \<noteq> CHR 0x0A then [(False, xs)] else [])"
| "run RDigit p = (case snd p of [] \<Rightarrow> [] | x # xs \<Rightarrow> if is_digit x then [(False, xs)] else [])"
| "run RBol p = (if fst p then [p] else [])"
| "run REol p = (if snd p = [] then [p] else [])"
| "run REmpty p = [p]"
| "run (RGroup a) p = run a p"
| "run (RSeq a b) p = concat (map (run b) (run a p))"
| "run (RAlt a b) p = run a p @ run b p"
| "run (RStar a) p = star_iter (run a) (length (snd p)) p"
| "run (RPlus a) p = concat (map (\<lambda>q. star_iter (run a) (length (snd q)) q) (run a p))"
| "run (ROpt a) p = p # run a p"

fun starts_from :: "bool \<Rightarrow> string \<Rightarrow> pos list" where
  "starts_from b [] = [(b, [])]"
| "starts_from b (c # cs) = (b, c # cs) # starts_from False cs"

definition re_MatchString :: "re \<Rightarrow> string \<Rightarrow> bool" where
  "re_MatchString r s = list_ex (\<lambda>p. run r p \<noteq> []) (starts_from True s)"

fun seq_of :: "re list \<Rightarrow> re" where
  "seq_of [] = REmpty"
| "seq_of [r] = r"
| "seq_of (r # rs) = RSeq r (seq_of rs)"

fun alt_of :: "re list \<Rightarrow> re" where
  "alt_of [] = REmpty"
| "alt_of [r] = r"
| "alt_of (r # rs) = RAlt r (alt_of rs)"

text \<open>The parser keeps, for the group it is in, the alternatives that are complete and
  the concatenation it is reading, most recent first; the enclosing groups wait on a
  stack.\<close>

type_synonym frame = "re list \<times> re list"

definition close_frame :: "frame \<Rightarrow> re" where
  "close_frame fr = alt_of (fst fr @ [seq_of (rev (snd fr))])"

fun is_repetition :: "re \<Rightarrow> bool" where
  "is_repetition (RStar _) = True"
| "is_repetition (RPlus _) = True"
| "is_repetition (ROpt _) = True"
| "is_repetition _ = False"

definition repeat :: "char \<Rightarrow> re \<Rightarrow> re" where
  "repeat c r = (if c = CHR ''*'' then RStar r else if c = CHR ''+'' then RPlus r else ROpt r)"

definition unsupported :: error where
  "unsupported = ''outside the modelled fragment''"

definition is_punct :: "char \<Rightarrow> bool" where
  "is_punct c = (c \<in> set (''.+*?()|[]{}^$-/'' @ [backslash]))"

fun parse :: "string \<Rightarrow> frame \<Rightarrow> frame list \<Rightarrow> error + re" where
  "parse [] fr stack =
     (if stack = [] then Inr (close_frame fr) else Inl ''error parsing regexp: missing closing )'')"
| "parse (c # cs) fr stack =
     (if c = CHR ''('' then
        (if cs \<noteq> [] \<and> hd cs = CHR ''?'' then Inl unsupported
         else parse cs ([], []) (fr # stack))
      else if c = CHR '')'' then
        (case stack of
           [] \<Rightarrow> Inl ''error parsing regexp: unexpected )''
         | outer # stack' \<Rightarrow> parse cs (fst outer, RGroup (close_frame fr) # snd outer) stack')
      else if c = CHR ''|'' then parse cs (fst fr @ [seq_of (rev (snd fr))], []) stack
      else if c = CHR ''*'' \<or> c = CHR ''+'' \<or> c = CHR ''?'' then
        (case snd fr of
           [] \<Rightarrow> Inl ''error parsing regexp: missing argument to repetition operator''
         | r # rs \<Rightarrow>
             if is_repetition r then Inl unsupported
             else parse cs (fst fr, repeat c r # rs) stack)
      else if c = backslash then
        (case cs of
           [] \<Rightarrow> Inl ''error parsing regexp: trailing backslash at end of expression''
         | e # cs' \<Rightarrow>
             if e = CHR ''d'' then parse cs' (fst fr, RDigit # snd fr) stack
             else if is_punct e then parse cs' (fst fr, RLit e # snd fr) stack
             else Inl unsupported)
      else if c = CHR ''.'' then parse cs (fst fr, RAny # snd fr) stack
      else if c = CHR ''^'' then parse cs (fst fr, RBol # snd fr) stack
      else if c = CHR ''$'' then parse cs (fst fr, REol # snd fr) stack
      else if c = CHR ''['' \<or> c = CHR ''{'' \<or> (of_char c :: nat) \<ge> 128 then Inl unsupported
      else parse cs (fst fr, RLit c # snd fr) stack)"

definition re_Compile :: "string \<Rightarrow> error + re" where
  "re_Compile pattern = parse pattern ([], []) []"

definition regexp_fragment :: "re regexp" where
  "regexp_fragment = \<lparr>Compile = re_Compile, MatchString = re_MatchString\<rparr>"

text \<open>The default of the flag \<open>--version-pattern\<close>: \<open>^0\.0\.0-dev$\<close>.\<close>

definition default_version_pattern :: string where
  "default_version_pattern = ''^0'' @ [backslash] @ ''.0'' @ [backslash] @ ''.0-dev$''"

section \<open>The environment\<close>

text \<open>
  The programs drive external collaborators: the \<open>git\<close> executable, the file system, the
  terminal and the GitHub API. Their state is a world of an arbitrary type \<open>'w\<close>, and each
  collaborator is a parameter that maps the world before a call to the result and the
  world after it. Every call that can change the world is recorded, oldest first, with
  the error it returned, next to the lines given to the logger.
\<close>

datatype stat_result = StatOk | StatNotExist | StatError error

text \<open>The fields of a GitHub release that the programs read (\<open>GetID\<close>, \<open>GetName\<close>,
  \<open>GetTagName\<close>).\<close>

record Release =
  ID :: int
  Name :: string
  TagName :: string

datatype op =
    Git string "string list"
  | WriteFile string
  | Print string
  | Scanln
  | NewChartReleaseManager string
  | CheckAuthentication
  | GetAllReleases
  | DeleteRelease int string
  | DeleteReleaseByTag string
  | DeleteTag string
  | ListReleases nat
  | GetReleaseByTag string

datatype call = Call op "error option"

record 'w state =
  world :: 'w
  logs :: "log_line list"
  calls :: "call list"

definition logPrintf :: "string \<Rightarrow> 'w state \<Rightarrow> 'w state" where
  "logPrintf line s = s\<lparr>logs := logs s @ [Printf line]\<rparr>"

definition logInfo :: "nat \<Rightarrow> string \<Rightarrow> logged list \<Rightarrow> 'w state \<Rightarrow> 'w state" where
  "logInfo v msg args s = s\<lparr>logs := logs s @ [LogInfo v msg args]\<rparr>"

definition logError :: "error \<Rightarrow> string \<Rightarrow> logged list \<Rightarrow> 'w state \<Rightarrow> 'w state" where
  "logError err msg args s = s\<lparr>logs := logs s @ [LogError err msg args]\<rparr>"

text \<open>A call of a collaborator that returns an optional error.\<close>

definition invoke :: "op \<Rightarrow> ('w \<Rightarrow> error option \<times> 'w) \<Rightarrow> 'w state \<Rightarrow> error option \<times> 'w state" where
  "invoke opn f s =
     (case f (world s) of
        (err, w) \<Rightarrow> (err, s\<lparr>world := w, calls := calls s @ [Call opn err]\<rparr>))"

text \<open>A call of a collaborator that returns a value or an error.\<close>

definition invoke_value ::
  "op \<Rightarrow> ('w \<Rightarrow> (error + 'a) \<times> 'w) \<Rightarrow> 'w state \<Rightarrow> (error + 'a) \<times> 'w state" where
  "invoke_value opn f s =
     (case f (world s) of
        (Inl err, w) \<Rightarrow> (Inl err, s\<lparr>world := w, calls := calls s @ [Call opn (Some err)]\<rparr>)
      | (Inr v, w) \<Rightarrow> (Inr v, s\<lparr>world := w, calls := calls s @ [Call opn None]\<rparr>))"

text \<open>
  The operating system: \<open>exec_git dir args\<close> runs \<open>git\<close> with the arguments in the
  directory and yields its standard output, or the error of a run that could not start or
  ended with a non-zero status. \<open>os_Stat\<close> and \<open>os_ReadFile\<close> only read the world.
\<close>

record 'w os =
  exec_git :: "string \<Rightarrow> string list \<Rightarrow> 'w \<Rightarrow> (error + string) \<times> 'w"
  os_Stat :: "string \<Rightarrow> 'w \<Rightarrow> stat_result"
  os_ReadFile :: "string \<Rightarrow> 'w \<Rightarrow> error + string"
  os_WriteFile :: "string \<Rightarrow> string \<Rightarrow> 'w \<Rightarrow> error option \<times> 'w"

text \<open>
  What the chart scanner needs beyond the operating system: the regular expressions, the
  YAML decoder at type \<open>ChartMetadata\<close>, and the order in which a \<open>range\<close> statement
  visits the keys of a map, which Go leaves unspecified.
\<close>

record ('w, 'r) chart_env = "'w os" +
  regexp :: "'r regexp"
  yaml_Unmarshal_ChartMetadata :: "string \<Rightarrow> error + ChartMetadata"
  range_keys :: "(string \<rightharpoonup> bool) \<Rightarrow> string list"

definition range_ok :: "('w, 'r, 'x) chart_env_scheme \<Rightarrow> (string \<rightharpoonup> bool) \<Rightarrow> bool" where
  "range_ok env m = (set (range_keys env m) = dom m \<and> distinct (range_keys env m))"

section \<open>Package main: git.go\<close>

record Git =
  RepoPath :: string

definition NewGit :: "string \<Rightarrow> Git" where
  "NewGit repoPath = \<lparr>RepoPath = repoPath\<rparr>"

definition runGitCommand ::
  "('w, 'x) os_scheme \<Rightarrow> Git \<Rightarrow> string list \<Rightarrow> 'w state \<Rightarrow> (error + string) \<times> 'w state" where
  "runGitCommand env g args s =
     (case invoke_value (Git (RepoPath g) args) (exec_git env (RepoPath g) args) s of
        (Inl err, s1) \<Rightarrow> (Inl (''git command failed: '' @ err), s1)
      | (Inr output, s1) \<Rightarrow> (Inr (strings_TrimSpace output), s1))"

definition GetCurrentBranch ::
  "('w, 'x) os_scheme \<Rightarrow> Git \<Rightarrow> 'w state \<Rightarrow> (error + string) \<times> 'w state" where
  "GetCurrentBranch env g s = runGitCommand env g [''rev-parse'', ''--abbrev-ref'', ''HEAD''] s"

definition FetchTags ::
  "('w, 'x) os_scheme \<Rightarrow> Git \<Rightarrow> 'w state \<Rightarrow> error option \<times> 'w state" where
  "FetchTags env g s =
     (case runGitCommand env g [''fetch'', ''--tags''] s of
        (Inl err, s1) \<Rightarrow> (Some err, logPrintf (''Failed to fetch tags from remote: '' @ err) s1)
      | (Inr _, s1) \<Rightarrow> (None, s1))"

definition GetLatestTag ::
  "('w, 'x) os_scheme \<Rightarrow> Git \<Rightarrow> string \<Rightarrow> 'w state \<Rightarrow> (error + string) \<times> 'w state" where
  "GetLatestTag env g baseBranch s =
     (case FetchTags env g s of
        (_, s1) \<Rightarrow>
          (case GetCurrentBranch env g s1 of
             (Inl err, s2) \<Rightarrow> (Inl (''failed to get current branch: '' @ err), s2)
           | (Inr currentBranch, s2) \<Rightarrow>
               (case runGitCommand env g [''describe'', ''--tags'', ''--abbrev=0'', ''HEAD~''] s2 of
                  (Inr latestTag, s3) \<Rightarrow> (Inr latestTag, s3)
                | (Inl _, s3) \<Rightarrow>
                    if currentBranch = baseBranch then
                      runGitCommand env g [''rev-list'', ''--max-parents=0'', ''--first-parent'', ''HEAD''] s3
                    else
                      runGitCommand env g [''merge-base'', ''HEAD'', baseBranch] s3)))"

definition GetChangedFiles ::
  "('w, 'x) os_scheme \<Rightarrow> Git \<Rightarrow> string \<Rightarrow> string \<Rightarrow> 'w state
     \<Rightarrow> (error + string list) \<times> 'w state" where
  "GetChangedFiles env g sinceCommit pathFilter s =
     (let args = [''diff'', ''--find-renames'', ''--name-only'', sinceCommit]
                   @ (if pathFilter \<noteq> [] then [''--'', pathFilter] else [])
      in case runGitCommand env g args s of
           (Inl err, s1) \<Rightarrow> (Inl (''failed to get changed files: '' @ err), s1)
         | (Inr output, s1) \<Rightarrow>
             if output = [] then (Inr [], s1)
             else (Inr (strings_Split output (CHR 0x0A)), s1))"

definition CheckoutBranch ::
  "('w, 'x) os_scheme \<Rightarrow> Git \<Rightarrow> string \<Rightarrow> 'w state \<Rightarrow> error option \<times> 'w state" where
  "CheckoutBranch env g branch s =
     (case runGitCommand env g [''checkout'', branch] s of
        (Inl err, s1) \<Rightarrow> (Some err, s1)
      | (Inr _, s1) \<Rightarrow> (None, s1))"

definition BranchExists ::
  "('w, 'x) os_scheme \<Rightarrow> Git \<Rightarrow> string \<Rightarrow> 'w state \<Rightarrow> bool \<times> 'w state" where
  "BranchExists env g branch s =
     (case runGitCommand env g [''ls-remote'', ''--heads'', ''origin'', branch] s of
        (Inl _, s1) \<Rightarrow> (False, s1)
      | (Inr output, s1) \<Rightarrow> (strings_Contains output branch, s1))"

definition FetchBranch ::
  "('w, 'x) os_scheme \<Rightarrow> Git \<Rightarrow> string \<Rightarrow> 'w state \<Rightarrow> error option \<times> 'w state" where
  "FetchBranch env g branch s =
     (case runGitCommand env g [''fetch'', ''origin'', branch] s of
        (Inl err, s1) \<Rightarrow> (Some err, s1)
      | (Inr _, s1) \<Rightarrow> (None, s1))"

definition PullBranch ::
  "('w, 'x) os_scheme \<Rightarrow> Git \<Rightarrow> string \<Rightarrow> 'w state \<Rightarrow> error option \<times> 'w state" where
  "PullBranch env g branch s =
     (case runGitCommand env g [''pull'', ''origin'', branch] s of
        (Inl err, s1) \<Rightarrow> (Some err, s1)
      | (Inr _, s1) \<Rightarrow> (None, s1))"

text \<open>\<open>HasChanges\<close>: the file has changes exactly when \<open>git diff --quiet\<close> fails.\<close>

definition HasChanges ::
  "('w, 'x) os_scheme \<Rightarrow> Git \<Rightarrow> string \<Rightarrow> 'w state \<Rightarrow> bool \<times> 'w state" where
  "HasChanges env g filePath s =
     (case runGitCommand env g [''diff'', ''--quiet'', filePath] s of
        (Inl _, s1) \<Rightarrow> (True, s1)
      | (Inr _, s1) \<Rightarrow> (False, s1))"

definition CommitAndPush ::
  "('w, 'x) os_scheme \<Rightarrow> Git \<Rightarrow> string \<Rightarrow> string \<Rightarrow> string \<Rightarrow> 'w state
     \<Rightarrow> error option \<times> 'w state" where
  "CommitAndPush env g filePath message branch s =
     (case runGitCommand env g [''add'', filePath] s of
        (Inl err, s1) \<Rightarrow> (Some (''failed to add file: '' @ err), s1)
      | (Inr _, s1) \<Rightarrow>
          (case runGitCommand env g [''commit'', ''-m'', message] s1 of
             (Inl err, s2) \<Rightarrow> (Some (''failed to commit: '' @ err), s2)
           | (Inr _, s2) \<Rightarrow>
               (case runGitCommand env g [''push'', ''origin'', branch] s2 of
                  (Inl err, s3) \<Rightarrow> (Some (''failed to push: '' @ err), s3)
                | (Inr _, s3) \<Rightarrow> (None, s3))))"

section \<open>Package main: chart.go\<close>

record ChartManager =
  ChartsDir :: string

definition NewChartManager :: "string \<Rightarrow> ChartManager" where
  "NewChartManager chartsDir = \<lparr>ChartsDir = chartsDir\<rparr>"

definition IsHelmChart :: "('w, 'x) os_scheme \<Rightarrow> string \<Rightarrow> 'w state \<Rightarrow> bool" where
  "IsHelmChart env chartPath s =
     (let chartFile = filepath_Join [chartPath, ''Chart.yaml'']
      in os_Stat env chartFile (world s) = StatOk)"

definition GetChartInfo ::
  "('w, 'r, 'x) chart_env_scheme \<Rightarrow> string \<Rightarrow> 'w state \<Rightarrow> error + ChartInfo" where
  "GetChartInfo env chartPath s =
     (let chartFile = filepath_Join [chartPath, ''Chart.yaml'']
      in case os_ReadFile env chartFile (world s) of
           Inl err \<Rightarrow> Inl (''failed to read chart file '' @ chartFile @ '': '' @ err)
         | Inr data \<Rightarrow>
             (case yaml_Unmarshal_ChartMetadata env data of
                Inl err \<Rightarrow> Inl (''failed to parse chart file '' @ chartFile @ '': '' @ err)
              | Inr metadata \<Rightarrow>
                  Inr \<lparr>Path = chartPath,
                       Name = ChartMetadata.Name metadata,
                       Version = ChartMetadata.Version metadata\<rparr>))"

definition VersionMatchesPattern :: "'r regexp \<Rightarrow> string \<Rightarrow> string \<Rightarrow> error + bool" where
  "VersionMatchesPattern re version pattern =
     (case Compile re pattern of
        Inl err \<Rightarrow> Inl (''invalid regex pattern '' @ [quote] @ pattern @ [quote] @ '': '' @ err)
      | Inr regex \<Rightarrow> Inr (MatchString re regex version))"

text \<open>The first loop of \<open>GetChangedCharts\<close>: the set \<open>chartDirs\<close>, a map to \<open>true\<close>.\<close>

fun GetChangedCharts_chartDirs ::
  "ChartManager \<Rightarrow> string list \<Rightarrow> (string \<rightharpoonup> bool) \<Rightarrow> (string \<rightharpoonup> bool)" where
  "GetChangedCharts_chartDirs cm [] chartDirs = chartDirs"
| "GetChangedCharts_chartDirs cm (filePath # changedFiles) chartDirs =
     (let pathParts = strings_Split (filepath_Clean filePath) (CHR ''/'')
      in if length pathParts \<ge> 2 \<and> pathParts ! 0 = ChartsDir cm then
           let chartDir = filepath_Join [ChartsDir cm, pathParts ! 1]
           in GetChangedCharts_chartDirs cm changedFiles (chartDirs(chartDir \<mapsto> True))
         else GetChangedCharts_chartDirs cm changedFiles chartDirs)"

text \<open>The second loop, over the chart directories in the order of the \<open>range\<close>
  statement; \<open>changedCharts\<close> is the list built so far.\<close>

fun GetChangedCharts_range ::
  "('w, 'r, 'x) chart_env_scheme \<Rightarrow> string \<Rightarrow> string list \<Rightarrow> ChartInfo list \<Rightarrow> 'w state
     \<Rightarrow> (error + ChartInfo list) \<times> 'w state" where
  "GetChangedCharts_range env versionPattern [] changedCharts s = (Inr changedCharts, s)"
| "GetChangedCharts_range env versionPattern (chartDir # chartDirs) changedCharts s =
     (if \<not> IsHelmChart env chartDir s then
        GetChangedCharts_range env versionPattern chartDirs changedCharts
          (logPrintf (chartDir @ '' is not a Helm chart. Skipping.'') s)
      else
        case GetChartInfo env chartDir s of
          Inl err \<Rightarrow>
            GetChangedCharts_range env versionPattern chartDirs changedCharts
              (logPrintf (''Error getting chart info for '' @ chartDir @ '': '' @ err) s)
        | Inr chartInfo \<Rightarrow>
            (case VersionMatchesPattern (regexp env) (ChartInfo.Version chartInfo) versionPattern of
               Inl err \<Rightarrow> (Inl (''error checking version pattern: '' @ err), s)
             | Inr matches \<Rightarrow>
                 if \<not> matches then
                   (Inl (''chart version '' @ ChartInfo.Version chartInfo
                          @ '' does not match supported pattern for deletion: '' @ versionPattern), s)
                 else
                   GetChangedCharts_range env versionPattern chartDirs (changedCharts @ [chartInfo])
                     (logPrintf (''Found Helm chart: '' @ chartDir @ '' with version ''
                                  @ ChartInfo.Version chartInfo) s)))"

definition GetChangedCharts ::
  "('w, 'r, 'x) chart_env_scheme \<Rightarrow> ChartManager \<Rightarrow> string list \<Rightarrow> string \<Rightarrow> 'w state
     \<Rightarrow> (error + ChartInfo list) \<times> 'w state" where
  "GetChangedCharts env cm changedFiles versionPattern s =
     (let chartDirs = GetChangedCharts_chartDirs cm changedFiles Map.empty
      in GetChangedCharts_range env versionPattern (range_keys env chartDirs) [] s)"

section \<open>Removing chart versions from the index\<close>

subsection \<open>index.go: the loop of \<open>CleanMultipleChartIndexes\<close>\<close>

text \<open>
  The loop state is the index document, the list \<open>removedCharts\<close> and the log. The body is
  the body of \<open>for _, chart := range charts\<close>.
\<close>

fun CleanMultipleChartIndexes_body ::
  "ChartInfo \<Rightarrow> ('a ChartVersion_scheme, 'b) IndexFile_scheme \<times> string list \<times> log_line list
     \<Rightarrow> ('a ChartVersion_scheme, 'b) IndexFile_scheme \<times> string list \<times> log_line list" where
  "CleanMultipleChartIndexes_body chart (indexFile, removedCharts, lg) =
     (let chartName = ChartInfo.Name chart;
          chartVersion = ChartInfo.Version chart
      in case Entries indexFile chartName of
           Some chartVersions \<Rightarrow>
             let filteredVersions =
                   filter (\<lambda>version. ChartVersion.Version version \<noteq> chartVersion) chartVersions
             in if length filteredVersions \<noteq> length chartVersions then
                  let indexFile1 = indexFile\<lparr>Entries := (Entries indexFile)(chartName \<mapsto> filteredVersions)\<rparr>;
                      removedCharts1 = removedCharts @ [chartName @ '' v'' @ chartVersion]
                  in if length (map_index (Entries indexFile1) chartName) = 0 then
                       (indexFile1\<lparr>Entries := (Entries indexFile1)(chartName := None)\<rparr>,
                        removedCharts1,
                        lg @ [Printf (''Removed all versions of '' @ chartName @ '', deleted chart entry'')])
                     else (indexFile1, removedCharts1, lg)
                else (indexFile, removedCharts,
                      lg @ [Printf (''Chart '' @ chartName @ '' version '' @ chartVersion
                                     @ '' not found in index.yaml'')])
         | None \<Rightarrow>
             (indexFile, removedCharts,
              lg @ [Printf (''Chart '' @ chartName @ '' not found in index.yaml'')]))"

fun CleanMultipleChartIndexes_loop ::
  "ChartInfo list \<Rightarrow> ('a ChartVersion_scheme, 'b) IndexFile_scheme \<times> string list \<times> log_line list
     \<Rightarrow> ('a ChartVersion_scheme, 'b) IndexFile_scheme \<times> string list \<times> log_line list" where
  "CleanMultipleChartIndexes_loop [] st = st"
| "CleanMultipleChartIndexes_loop (chart # charts) st =
     CleanMultipleChartIndexes_loop charts (CleanMultipleChartIndexes_body chart st)"

subsection \<open>chart-releaser/internal: the loop of \<open>CleanEntriesVersions\<close>\<close>

fun CleanEntriesVersions_body ::
  "ChartInfo \<Rightarrow> ('a ChartVersion_scheme, 'b) IndexFile_scheme \<times> log_line list
     \<Rightarrow> ('a ChartVersion_scheme, 'b) IndexFile_scheme \<times> log_line list" where
  "CleanEntriesVersions_body chart (indexFile, lg) =
     (if Entries indexFile (ChartInfo.Name chart) = None then
        (indexFile, lg @ [LogInfo 0 ''No entries found for chart %s'' [VStr (ChartInfo.Name chart)]])
      else
        let existVersions = map_index (Entries indexFile) (ChartInfo.Name chart);
            filteredVersions =
              filter (\<lambda>version. \<not> (ChartVersion.Version version = ChartInfo.Version chart))
                existVersions
        in if length filteredVersions = 0 then
             (indexFile\<lparr>Entries := (Entries indexFile)(ChartInfo.Name chart := None)\<rparr>, lg)
           else
             (indexFile\<lparr>Entries := (Entries indexFile)(ChartInfo.Name chart \<mapsto> filteredVersions)\<rparr>, lg))"

fun CleanEntriesVersions_loop ::
  "ChartInfo list \<Rightarrow> ('a ChartVersion_scheme, 'b) IndexFile_scheme \<times> log_line list
     \<Rightarrow> ('a ChartVersion_scheme, 'b) IndexFile_scheme \<times> log_line list" where
  "CleanEntriesVersions_loop [] st = st"
| "CleanEntriesVersions_loop (chart # charts) st =
     CleanEntriesVersions_loop charts (CleanEntriesVersions_body chart st)"

section \<open>Package main: index.go\<close>

text \<open>
  What package \<open>main\<close> needs beyond the chart scanner: the YAML encoder and decoder at
  type \<open>IndexFile\<close>, the terminal, and the release manager. The file that defines the
  release manager (\<open>NewChartReleaseManager\<close> and its methods \<open>CheckAuthentication\<close>,
  \<open>GetAllReleases\<close>, \<open>DeleteRelease\<close>, \<open>DeleteReleaseByTag\<close> and \<open>DeleteTag\<close>) is not among
  the sources; each of its methods is a parameter, a call to the GitHub API that
  may fail.
\<close>

record ('w, 'r) main_env = "('w, 'r) chart_env" +
  yaml_Unmarshal_IndexFile :: "string \<Rightarrow> error + ChartVersion IndexFile"
  yaml_Marshal_IndexFile :: "ChartVersion IndexFile \<Rightarrow> error + string"
  fmt_Print :: "string \<Rightarrow> 'w \<Rightarrow> 'w"
  fmt_Scanln :: "'w \<Rightarrow> string \<times> 'w"
  mgr_New :: "string \<Rightarrow> 'w \<Rightarrow> error option \<times> 'w"
  mgr_CheckAuthentication :: "'w \<Rightarrow> bool \<times> 'w"
  mgr_GetAllReleases :: "'w \<Rightarrow> (error + Release list) \<times> 'w"
  mgr_DeleteRelease :: "int \<Rightarrow> string \<Rightarrow> 'w \<Rightarrow> error option \<times> 'w"
  mgr_DeleteReleaseByTag :: "string \<Rightarrow> 'w \<Rightarrow> error option \<times> 'w"
  mgr_DeleteTag :: "string \<Rightarrow> 'w \<Rightarrow> error option \<times> 'w"

text \<open>\<open>ChartIndexManager\<close>. The struct declares the field as \<open>Git\<close>; every method reads
  it as \<open>GitOps\<close>, the name kept here.\<close>

record ChartIndexManager =
  GitOps :: Git
  PagesBranch :: string
  OriginalBranch :: string

definition NewChartIndexManager :: "Git \<Rightarrow> string \<Rightarrow> ChartIndexManager" where
  "NewChartIndexManager git pagesBranch =
     \<lparr>GitOps = git, PagesBranch = pagesBranch, OriginalBranch = []\<rparr>"

definition RestoreOriginalBranch ::
  "('w, 'x) os_scheme \<Rightarrow> ChartIndexManager \<Rightarrow> 'w state \<Rightarrow> error option \<times> 'w state" where
  "RestoreOriginalBranch env cim s =
     (if OriginalBranch cim \<noteq> [] then CheckoutBranch env (GitOps cim) (OriginalBranch cim) s
      else (None, s))"

definition PreparePagesBranch ::
  "('w, 'x) os_scheme \<Rightarrow> ChartIndexManager \<Rightarrow> 'w state
     \<Rightarrow> error option \<times> ChartIndexManager \<times> 'w state" where
  "PreparePagesBranch env cim s =
     (case GetCurrentBranch env (GitOps cim) s of
        (Inl err, s1) \<Rightarrow> (Some (''failed to get current branch: '' @ err), cim, s1)
      | (Inr currentBranch, s1) \<Rightarrow>
          let cim1 = cim\<lparr>OriginalBranch := currentBranch\<rparr>
          in case BranchExists env (GitOps cim1) (PagesBranch cim1) s1 of
               (exists, s2) \<Rightarrow>
                 if \<not> exists then
                   (Some ''pages branch does not exist'', cim1,
                    logPrintf (PagesBranch cim1 @ '' branch does not exist. Skipping index cleanup.'') s2)
                 else
                   (case FetchBranch env (GitOps cim1) (PagesBranch cim1) s2 of
                     (Some err, s3) \<Rightarrow>
                       (Some (''failed to fetch '' @ PagesBranch cim1 @ '' branch: '' @ err), cim1, s3)
                   | (None, s3) \<Rightarrow>
                       (case CheckoutBranch env (GitOps cim1) (PagesBranch cim1) s3 of
                          (Some err, s4) \<Rightarrow>
                            (Some (''failed to checkout '' @ PagesBranch cim1 @ '' branch: '' @ err),
                             cim1, s4)
                        | (None, s4) \<Rightarrow>
                            let s5 = (case PullBranch env (GitOps cim1) (PagesBranch cim1) s4 of
                                        (Some err, s5) \<Rightarrow>
                                          logPrintf (''Failed to pull latest changes from ''
                                                      @ PagesBranch cim1 @ '': '' @ err) s5
                                      | (None, s5) \<Rightarrow> s5)
                            in if os_Stat env ''index.yaml'' (world s5) = StatNotExist then
                                 (case RestoreOriginalBranch env cim1
                                         (logPrintf (''index.yaml not found in '' @ PagesBranch cim1
                                                      @ '' branch. Skipping index cleanup.'') s5) of
                                    (_, s6) \<Rightarrow> (Some ''index.yaml not found'', cim1, s6))
                               else (None, cim1, s5))))"

definition loadIndexFile ::
  "('w, 'r, 'x) main_env_scheme \<Rightarrow> 'w state \<Rightarrow> error + ChartVersion IndexFile" where
  "loadIndexFile env s =
     (case os_ReadFile env ''index.yaml'' (world s) of
        Inl err \<Rightarrow> Inl (''failed to read index.yaml: '' @ err)
      | Inr data \<Rightarrow>
          (case yaml_Unmarshal_IndexFile env data of
             Inl err \<Rightarrow> Inl (''failed to parse index.yaml: '' @ err)
           | Inr indexFile \<Rightarrow> Inr indexFile))"

definition writeIndexFile ::
  "('w, 'r, 'x) main_env_scheme \<Rightarrow> ChartVersion IndexFile \<Rightarrow> 'w state
     \<Rightarrow> error option \<times> 'w state" where
  "writeIndexFile env indexFile s =
     (case yaml_Marshal_IndexFile env indexFile of
        Inl err \<Rightarrow> (Some (''failed to marshal index.yaml: '' @ err), s)
      | Inr data \<Rightarrow>
          (case invoke (WriteFile ''index.yaml'') (os_WriteFile env ''index.yaml'' data) s of
             (Some err, s1) \<Rightarrow> (Some (''failed to write index.yaml: '' @ err), s1)
           | (None, s1) \<Rightarrow> (None, s1)))"

text \<open>\<open>CleanMultipleChartIndexes\<close> from the statement after
  \<open>defer cim.RestoreOriginalBranch()\<close> to its return: the index is loaded, changed by the
  loop, and written and committed when the loop removed something.\<close>

definition CleanMultipleChartIndexes_cycle ::
  "('w, 'r, 'x) main_env_scheme \<Rightarrow> ChartIndexManager \<Rightarrow> ChartInfo list \<Rightarrow> 'w state
     \<Rightarrow> error option \<times> 'w state" where
  "CleanMultipleChartIndexes_cycle env cim charts s =
     (case loadIndexFile env s of
        Inl err \<Rightarrow> (Some (''failed to load index.yaml: '' @ err), s)
      | Inr indexFile0 \<Rightarrow>
          (case CleanMultipleChartIndexes_loop charts (indexFile0, [], logs s) of
             (indexFile, removedCharts, lg) \<Rightarrow>
               let s1 = s\<lparr>logs := lg\<rparr>
               in if length removedCharts > 0 then
                    case writeIndexFile env indexFile s1 of
                      (Some err, s2) \<Rightarrow> (Some (''failed to write index.yaml: '' @ err), s2)
                    | (None, s2) \<Rightarrow>
                        let s3 = logPrintf (''Removed from index.yaml: '' @ fmt_strings removedCharts) s2
                        in case HasChanges env (GitOps cim) ''index.yaml'' s3 of
                             (changed, s4) \<Rightarrow>
                               if changed then
                                 let commitMsg =
                                       (if length removedCharts = 1 then
                                          ''Remove '' @ removedCharts ! 0 @ '' from index''
                                        else ''Remove '' @ fmt_nat (length removedCharts)
                                               @ '' chart versions from index'')
                                 in case CommitAndPush env (GitOps cim) ''index.yaml'' commitMsg
                                           (PagesBranch cim) s4 of
                                      (Some err, s5) \<Rightarrow>
                                        (Some (''failed to push index.yaml changes: '' @ err), s5)
                                    | (None, s5) \<Rightarrow>
                                        (None, logPrintf (''Successfully pushed index.yaml changes to ''
                                                           @ PagesBranch cim @ '' branch'') s5)
                               else (None, logPrintf ''No changes to commit in index.yaml'' s4)
                  else (None, logPrintf ''No chart versions were removed from index.yaml'' s1)))"

definition CleanMultipleChartIndexes ::
  "('w, 'r, 'x) main_env_scheme \<Rightarrow> ChartIndexManager \<Rightarrow> ChartInfo list \<Rightarrow> 'w state
     \<Rightarrow> error option \<times> ChartIndexManager \<times> 'w state" where
  "CleanMultipleChartIndexes env cim charts s =
     (if length charts = 0 then (None, cim, logPrintf ''No charts provided for index cleanup'' s)
      else
        let chartNames = map (\<lambda>chart. ChartInfo.Name chart @ '' v'' @ ChartInfo.Version chart) charts;
            s1 = logPrintf (''Cleaning up chart indexes for: '' @ fmt_strings chartNames) s
        in case PreparePagesBranch env cim s1 of
             (Some err, cim1, s2) \<Rightarrow> (Some err, cim1, s2)
           | (None, cim1, s2) \<Rightarrow>
               (case CleanMultipleChartIndexes_cycle env cim1 charts s2 of
                  (result, s3) \<Rightarrow>
                    (case RestoreOriginalBranch env cim1 s3 of
                       (_, s4) \<Rightarrow> (result, cim1, s4))))"

text \<open>\<open>CleanAllChartIndex\<close>, in the same two parts.\<close>

definition CleanAllChartIndex_cycle ::
  "('w, 'r, 'x) main_env_scheme \<Rightarrow> ChartIndexManager \<Rightarrow> 'w state \<Rightarrow> error option \<times> 'w state" where
  "CleanAllChartIndex_cycle env cim s =
     (case loadIndexFile env s of
        Inl err \<Rightarrow> (Some (''failed to load index.yaml: '' @ err), s)
      | Inr indexFile0 \<Rightarrow>
          let indexFile = indexFile0\<lparr>Entries := Map.empty\<rparr>
          in (case writeIndexFile env indexFile s of
               (Some err, s1) \<Rightarrow> (Some (''failed to write index.yaml: '' @ err), s1)
             | (None, s1) \<Rightarrow>
                 let s2 = logPrintf ''Cleared all entries from index.yaml'' s1
                 in case HasChanges env (GitOps cim) ''index.yaml'' s2 of
                      (changed, s3) \<Rightarrow>
                        if changed then
                          case CommitAndPush env (GitOps cim) ''index.yaml''
                                 ''Clear all chart entries from index'' (PagesBranch cim) s3 of
                            (Some err, s4) \<Rightarrow>
                              (Some (''failed to push index.yaml changes: '' @ err), s4)
                          | (None, s4) \<Rightarrow>
                              (None, logPrintf (''Successfully pushed index.yaml changes to ''
                                                 @ PagesBranch cim @ '' branch'') s4)
                        else (None, logPrintf ''No changes to commit in index.yaml'' s3)))"

definition CleanAllChartIndex ::
  "('w, 'r, 'x) main_env_scheme \<Rightarrow> ChartIndexManager \<Rightarrow> 'w state
     \<Rightarrow> error option \<times> ChartIndexManager \<times> 'w state" where
  "CleanAllChartIndex env cim s =
     (let s1 = logPrintf (''Cleaning up all chart index entries from '' @ PagesBranch cim
                           @ '' branch...'') s
      in case PreparePagesBranch env cim s1 of
           (Some err, cim1, s2) \<Rightarrow> (Some err, cim1, s2)
         | (None, cim1, s2) \<Rightarrow>
             (case CleanAllChartIndex_cycle env cim1 s2 of
                (result, s3) \<Rightarrow>
                  (case RestoreOriginalBranch env cim1 s3 of
                     (_, s4) \<Rightarrow> (result, cim1, s4))))"

section \<open>Package main: main.go\<close>

text \<open>The command line flags, package variables of main.go (\<open>repository\<close>, \<open>chartDir\<close>, ...).\<close>

record flags =
  flag_repository :: string
  flag_chartDir :: string
  flag_baseBranch :: string
  flag_pagesBranch :: string
  flag_versionPattern :: string
  flag_force :: bool
  flag_withTags :: bool
  flag_cleanIndex :: bool
  flag_logLevel :: string

definition confirmAction ::
  "('w, 'r, 'x) main_env_scheme \<Rightarrow> string \<Rightarrow> 'w state \<Rightarrow> bool \<times> 'w state" where
  "confirmAction env prompt s =
     (let s1 = s\<lparr>world := fmt_Print env prompt (world s), calls := calls s @ [Call (Print prompt) None]\<rparr>
      in case fmt_Scanln env (world s1) of
           (response, w) \<Rightarrow>
             (response = ''y'' \<or> response = ''Y'',
              s1\<lparr>world := w, calls := calls s1 @ [Call Scanln None]\<rparr>))"

text \<open>The calls of the release manager, recorded like the other calls.\<close>

definition manager_CheckAuthentication ::
  "('w, 'r, 'x) main_env_scheme \<Rightarrow> 'w state \<Rightarrow> bool \<times> 'w state" where
  "manager_CheckAuthentication env s =
     (case mgr_CheckAuthentication env (world s) of
        (ok, w) \<Rightarrow>
          (ok, s\<lparr>world := w,
                 calls := calls s @ [Call CheckAuthentication (if ok then None else Some [])]\<rparr>))"

text \<open>The loop \<open>for _, release := range releases\<close> of \<open>deleteAllReleases\<close>.\<close>

fun deleteAllReleases_loop ::
  "('w, 'r, 'x) main_env_scheme \<Rightarrow> flags \<Rightarrow> Release list \<Rightarrow> 'w state \<Rightarrow> 'w state" where
  "deleteAllReleases_loop env fl [] s = s"
| "deleteAllReleases_loop env fl (release # releases) s =
     (let s1 = (case invoke (DeleteRelease (ID release) (Release.Name release))
                       (mgr_DeleteRelease env (ID release) (Release.Name release)) s of
                  (Some err, s1) \<Rightarrow>
                    logPrintf (''Failed to delete release '' @ Release.Name release @ '': '' @ err) s1
                | (None, s1) \<Rightarrow> s1);
          s2 = (if flag_withTags fl \<and> TagName release \<noteq> [] then
                  (case invoke (DeleteTag (TagName release)) (mgr_DeleteTag env (TagName release)) s1 of
                     (Some err, s2) \<Rightarrow>
                       logPrintf (''Failed to delete tag '' @ TagName release @ '': '' @ err) s2
                   | (None, s2) \<Rightarrow> s2)
                else s1)
      in deleteAllReleases_loop env fl releases s2)"

definition not_authenticated :: error where
  "not_authenticated =
     ''not authenticated with GitHub. Please login using ''
       @ [quote] @ ''gh auth login'' @ [quote] @ '' or set GH_TOKEN environment variable''"

text \<open>\<open>deleteAllReleases\<close> up to the loop: either the command returns before it, with an
  error or with none (no releases, or the operation cancelled), or it goes on with the
  releases.\<close>

definition deleteAllReleases_confirmed ::
  "('w, 'r, 'x) main_env_scheme \<Rightarrow> flags \<Rightarrow> 'w state
     \<Rightarrow> (error option + Release list) \<times> 'w state" where
  "deleteAllReleases_confirmed env fl s =
     (case invoke (NewChartReleaseManager (flag_repository fl)) (mgr_New env (flag_repository fl)) s of
        (Some err, s1) \<Rightarrow> (Inl (Some (''failed to create release manager: '' @ err)), s1)
      | (None, s1) \<Rightarrow>
          (case manager_CheckAuthentication env s1 of
             (authenticated, s2) \<Rightarrow>
               if \<not> authenticated then (Inl (Some not_authenticated), s2)
               else
                 (case invoke_value GetAllReleases (mgr_GetAllReleases env) s2 of
                    (Inl err, s3) \<Rightarrow> (Inl (Some (''failed to get releases: '' @ err)), s3)
                  | (Inr releases, s3) \<Rightarrow>
                      if length releases = 0 then
                        (Inl None,
                         logPrintf (''No releases found in repository '' @ flag_repository fl) s3)
                      else
                        let s4 = (if flag_withTags fl then
                                    logPrintf ''Associated tags will also be deleted.'' s3
                                  else s3);
                            s5 = (if flag_cleanIndex fl then
                                    logPrintf (''Chart index entries will also be cleaned up from ''
                                                @ flag_pagesBranch fl @ '' branch.'') s4
                                  else s4)
                        in (case (if \<not> flag_force fl then
                                    confirmAction env ''Are you sure you want to proceed? [y/N] '' s5
                                  else (True, s5)) of
                              (proceed, s6) \<Rightarrow>
                                if \<not> proceed then (Inl None, logPrintf ''Operation cancelled.'' s6)
                                else (Inr releases, s6)))))"

definition deleteAllReleases ::
  "('w, 'r, 'x) main_env_scheme \<Rightarrow> flags \<Rightarrow> 'w state \<Rightarrow> error option \<times> 'w state" where
  "deleteAllReleases env fl s =
     (case deleteAllReleases_confirmed env fl s of
        (Inl result, s6) \<Rightarrow> (result, s6)
      | (Inr releases, s6) \<Rightarrow>
          let s7 = deleteAllReleases_loop env fl releases s6;
              s8 = (if flag_cleanIndex fl then
                      (case CleanAllChartIndex env
                              (NewChartIndexManager (NewGit ''.'') (flag_pagesBranch fl)) s7 of
                         (Some err, _, s8) \<Rightarrow>
                           logPrintf (''Failed to clean chart index: '' @ err) s8
                       | (None, _, s8) \<Rightarrow> s8)
                    else s7)
          in (None, s8))"

text \<open>The loop \<open>for _, chart := range changedCharts\<close> of \<open>deleteSpecificReleases\<close>.\<close>

fun deleteSpecificReleases_loop ::
  "('w, 'r, 'x) main_env_scheme \<Rightarrow> ChartInfo list \<Rightarrow> 'w state \<Rightarrow> 'w state" where
  "deleteSpecificReleases_loop env [] s = s"
| "deleteSpecificReleases_loop env (chart # charts) s =
     (let releaseName = ChartInfo.Name chart @ ''-'' @ ChartInfo.Version chart;
          s1 = logPrintf (''Deleting release and tags for '' @ releaseName @ ''...'') s;
          s2 = (case invoke (DeleteReleaseByTag releaseName) (mgr_DeleteReleaseByTag env releaseName) s1 of
                  (Some err, s2) \<Rightarrow>
                    logPrintf (''Failed to delete release by tag '' @ releaseName @ '': '' @ err) s2
                | (None, s2) \<Rightarrow> s2);
          s3 = (case invoke (DeleteTag releaseName) (mgr_DeleteTag env releaseName) s2 of
                  (Some err, s3) \<Rightarrow>
                    logPrintf (''Failed to delete tag '' @ releaseName @ '': '' @ err) s3
                | (None, s3) \<Rightarrow> s3);
          s4 = logPrintf (''Deleted release for '' @ ChartInfo.Name chart) s3
      in deleteSpecificReleases_loop env charts s4)"

text \<open>\<open>deleteSpecificReleases\<close> up to and including the call of \<open>git.GetChangedFiles\<close>:
  the changed files, or the error with which the command returns.\<close>

definition deleteSpecificReleases_changedFiles ::
  "('w, 'r, 'x) main_env_scheme \<Rightarrow> flags \<Rightarrow> 'w state \<Rightarrow> (error + string list) \<times> 'w state" where
  "deleteSpecificReleases_changedFiles env fl s =
     (case invoke (NewChartReleaseManager (flag_repository fl)) (mgr_New env (flag_repository fl)) s of
        (Some err, s1) \<Rightarrow> (Inl (''failed to create release manager: '' @ err), s1)
      | (None, s1) \<Rightarrow>
          (case manager_CheckAuthentication env s1 of
             (authenticated, s2) \<Rightarrow>
               if \<not> authenticated then (Inl not_authenticated, s2)
               else
                 let git = NewGit ''.''
                 in (case GetLatestTag env git (flag_baseBranch fl) s2 of
                       (Inl err, s3) \<Rightarrow> (Inl (''failed to get latest tag: '' @ err), s3)
                     | (Inr latestTag, s3) \<Rightarrow>
                         let s4 = logPrintf (''Discovering changes since '' @ latestTag @ ''...'') s3
                         in (case GetChangedFiles env git latestTag (flag_chartDir fl) s4 of
                               (Inl err, s5) \<Rightarrow> (Inl (''failed to get changed files: '' @ err), s5)
                             | (Inr changedFiles, s5) \<Rightarrow> (Inr changedFiles, s5)))))"

text \<open>\<open>deleteSpecificReleases\<close>: the rest of the command runs on the changed files.\<close>

definition deleteSpecificReleases ::
  "('w, 'r, 'x) main_env_scheme \<Rightarrow> flags \<Rightarrow> 'w state \<Rightarrow> error option \<times> 'w state" where
  "deleteSpecificReleases env fl s =
     (case deleteSpecificReleases_changedFiles env fl s of
        (Inl err, s5) \<Rightarrow> (Some err, s5)
      | (Inr changedFiles, s5) \<Rightarrow>
          let git = NewGit ''.'';
              chartManager = NewChartManager (flag_chartDir fl);
              indexManager = NewChartIndexManager git (flag_pagesBranch fl)
          in (case GetChangedCharts env chartManager changedFiles (flag_versionPattern fl) s5 of
                (Inl err, s6) \<Rightarrow> (Some (''failed to get changed charts: '' @ err), s6)
              | (Inr changedCharts, s6) \<Rightarrow>
                  if length changedCharts = 0 then
                    (None, logPrintf ''No changes detected.'' s6)
                  else
                    let chartNames = map ChartInfo.Name changedCharts;
                        s7 = logPrintf
                               (''The following charts have changed, and their releases will be deleted: ''
                                 @ fmt_strings chartNames) s6;
                        s8 = deleteSpecificReleases_loop env changedCharts s7;
                        s9 = (if length changedCharts > 0 then
                                (case CleanMultipleChartIndexes env indexManager changedCharts s8 of
                                   (Some err, _, s9) \<Rightarrow>
                                     logPrintf (''Failed to clean chart indexes: '' @ err) s9
                                 | (None, _, s9) \<Rightarrow> s9)
                              else s8)
                    in (None, s9)))"

section \<open>Package internal: git.go\<close>

text \<open>The \<open>Git\<close> of package \<open>internal\<close> holds a logger only and runs \<open>git\<close> in the
  current directory.\<close>

definition internal_runGitCommand ::
  "('w, 'x) os_scheme \<Rightarrow> string list \<Rightarrow> 'w state \<Rightarrow> (error + string) \<times> 'w state" where
  "internal_runGitCommand env args s =
     (let s0 = logInfo 1 ''Running git command'' [VStr ''args'', VStrs args] s
      in case invoke_value (Git [] args) (exec_git env [] args) s0 of
           (Inl err, s1) \<Rightarrow>
             (Inl (''git command failed. args: '' @ fmt_strings args @ '', error: '' @ err), s1)
         | (Inr output, s1) \<Rightarrow>
             let result = strings_TrimSpace output
             in (Inr result,
                 logInfo 2 ''Git command output''
                   [VStr ''args'', VStrs args, VStr ''output'', VStr result] s1))"

definition internal_GetCurrentBranch ::
  "('w, 'x) os_scheme \<Rightarrow> 'w state \<Rightarrow> (error + string) \<times> 'w state" where
  "internal_GetCurrentBranch env s =
     internal_runGitCommand env [''rev-parse'', ''--abbrev-ref'', ''HEAD''] s"

definition fetchTags :: "('w, 'x) os_scheme \<Rightarrow> 'w state \<Rightarrow> error option \<times> 'w state" where
  "fetchTags env s =
     (case internal_runGitCommand env [''fetch'', ''--tags'']
             (logInfo 0 ''Fetching tags from remote'' [] s) of
        (Inl err, s1) \<Rightarrow> (Some err, logError err ''Failed to fetch tags from remote'' [] s1)
      | (Inr _, s1) \<Rightarrow> (None, s1))"

definition getLatestTag ::
  "('w, 'x) os_scheme \<Rightarrow> string \<Rightarrow> 'w state \<Rightarrow> (error + string) \<times> 'w state" where
  "getLatestTag env baseBranch s =
     (case fetchTags env s of
        (_, s1) \<Rightarrow>
          (case internal_GetCurrentBranch env s1 of
             (Inl err, s2) \<Rightarrow> (Inl (''failed to get current branch: '' @ err), s2)
           | (Inr currentBranch, s2) \<Rightarrow>
               (case internal_runGitCommand env [''describe'', ''--tags'', ''--abbrev=0'', ''HEAD~'']
                       (logInfo 0 ''Getting latest tag''
                          [VStr ''currentBranch'', VStr currentBranch,
                           VStr ''baseBranch'', VStr baseBranch] s2) of
                  (Inr latestTag, s3) \<Rightarrow>
                    (Inr latestTag, logInfo 0 ''Found latest tag'' [VStr ''tag'', VStr latestTag] s3)
                | (Inl _, s3) \<Rightarrow>
                    let s4 = logInfo 0 ''No tags found, using commit-based comparison'' [] s3
                    in if currentBranch = baseBranch then
                         internal_runGitCommand env
                           [''rev-list'', ''--max-parents=0'', ''--first-parent'', ''HEAD'']
                           (logInfo 0 ''On base branch, using first commit'' [] s4)
                       else
                         internal_runGitCommand env [''merge-base'', ''HEAD'', baseBranch]
                           (logInfo 0 ''On feature branch, using merge base with base branch'' [] s4))))"

definition internal_GetChangedFiles ::
  "('w, 'x) os_scheme \<Rightarrow> string \<Rightarrow> string \<Rightarrow> 'w state \<Rightarrow> (error + string list) \<times> 'w state" where
  "internal_GetChangedFiles env baseBranch pathFilter s =
     (case getLatestTag env baseBranch s of
        (Inl err, s1) \<Rightarrow> (Inl (''failed to get latest tag: '' @ err), s1)
      | (Inr sinceCommit, s1) \<Rightarrow>
          if sinceCommit = [] then
            (Inl (''no commits found since base branch '' @ baseBranch), s1)
          else
            let s2 = logInfo 0 ''Getting changed files''
                       [VStr ''sinceCommit'', VStr sinceCommit, VStr ''pathFilter'', VStr pathFilter] s1;
                args = [''diff'', ''--find-renames'', ''--name-only'', sinceCommit]
                         @ (if pathFilter \<noteq> [] then [''--'', pathFilter] else [])
            in (case internal_runGitCommand env args s2 of
                  (Inl err, s3) \<Rightarrow> (Inl (''failed to get changed files: '' @ err), s3)
                | (Inr output, s3) \<Rightarrow>
                    if output = [] then (Inr [], logInfo 0 ''No changed files found'' [] s3)
                    else
                      let files = strings_Split output (CHR 0x0A)
                      in (Inr files,
                          logInfo 0 ''Found changed files''
                            [VStr ''count'', VNat (length files), VStr ''files'', VStrs files] s3)))"

definition internal_CheckoutBranch ::
  "('w, 'x) os_scheme \<Rightarrow> string \<Rightarrow> 'w state \<Rightarrow> error option \<times> 'w state" where
  "internal_CheckoutBranch env branch s =
     (case internal_runGitCommand env [''checkout'', branch] s of
        (Inl err, s1) \<Rightarrow> (Some err, s1)
      | (Inr _, s1) \<Rightarrow> (None, s1))"

definition internal_BranchExists ::
  "('w, 'x) os_scheme \<Rightarrow> string \<Rightarrow> 'w state \<Rightarrow> bool \<times> 'w state" where
  "internal_BranchExists env branch s =
     (case internal_runGitCommand env [''ls-remote'', ''--heads'', ''origin'', branch] s of
        (Inl _, s1) \<Rightarrow> (False, s1)
      | (Inr output, s1) \<Rightarrow> (strings_Contains output branch, s1))"

definition internal_FetchBranch ::
  "('w, 'x) os_scheme \<Rightarrow> string \<Rightarrow> 'w state \<Rightarrow> error option \<times> 'w state" where
  "internal_FetchBranch env branch s =
     (case internal_runGitCommand env [''fetch'', ''origin'', branch] s of
        (Inl err, s1) \<Rightarrow> (Some err, s1)
      | (Inr _, s1) \<Rightarrow> (None, s1))"

definition internal_PullBranch ::
  "('w, 'x) os_scheme \<Rightarrow> string \<Rightarrow> 'w state \<Rightarrow> error option \<times> 'w state" where
  "internal_PullBranch env branch s =
     (case internal_runGitCommand env [''pull'', ''origin'', branch] s of
        (Inl err, s1) \<Rightarrow> (Some err, s1)
      | (Inr _, s1) \<Rightarrow> (None, s1))"

definition internal_HasChanges ::
  "('w, 'x) os_scheme \<Rightarrow> string \<Rightarrow> 'w state \<Rightarrow> bool \<times> 'w state" where
  "internal_HasChanges env filePath s =
     (case internal_runGitCommand env [''diff'', ''--quiet'', filePath] s of
        (Inl _, s1) \<Rightarrow> (True, s1)
      | (Inr _, s1) \<Rightarrow> (False, s1))"

text \<open>In package \<open>internal\<close> the push of \<open>CommitAndPush\<close> is commented out.\<close>

definition internal_CommitAndPush ::
  "('w, 'x) os_scheme \<Rightarrow> string \<Rightarrow> string \<Rightarrow> string \<Rightarrow> 'w state \<Rightarrow> error option \<times> 'w state" where
  "internal_CommitAndPush env filePath message branch s =
     (case internal_runGitCommand env [''add'', filePath] s of
        (Inl err, s1) \<Rightarrow> (Some (''failed to add file: '' @ err), s1)
      | (Inr _, s1) \<Rightarrow>
          (case internal_runGitCommand env [''commit'', ''-m'', message] s1 of
             (Inl err, s2) \<Rightarrow> (Some (''failed to commit: '' @ err), s2)
           | (Inr _, s2) \<Rightarrow> (None, s2)))"

section \<open>Package internal: the index manager\<close>

text \<open>
  What package \<open>internal\<close> needs beyond the chart scanner: Helm's \<open>repo.LoadIndexFile\<close>,
  \<open>repo.NewIndexFile\<close> (which reads the clock) and \<open>IndexFile.WriteFile\<close>, and the two
  calls of the GitHub client that are not commented out: \<open>Repositories.ListReleases\<close>,
  which returns a page of releases with the number of the next page, and
  \<open>Repositories.GetReleaseByTag\<close>.
\<close>

record ('w, 'r, 'i) internal_env = "('w, 'r) chart_env" +
  repo_LoadIndexFile :: "string \<Rightarrow> 'w \<Rightarrow> error + 'i"
  repo_NewIndexFile :: "'w \<Rightarrow> 'i"
  IndexFile_WriteFile :: "'i \<Rightarrow> string \<Rightarrow> 'w \<Rightarrow> error option \<times> 'w"
  Repositories_ListReleases :: "nat \<Rightarrow> 'w \<Rightarrow> (error + Release list \<times> nat) \<times> 'w"
  Repositories_GetReleaseByTag :: "string \<Rightarrow> 'w \<Rightarrow> (error + Release) \<times> 'w"

definition indexYaml :: string where
  "indexYaml = ''index.yaml''"

record IndexManager =
  PagesBranch :: string
  OriginalBranch :: string


definition restoreOriginalBranch ::
  "('w, 'x) os_scheme \<Rightarrow> IndexManager \<Rightarrow> 'w state \<Rightarrow> error option \<times> 'w state" where
  "restoreOriginalBranch env i s =
     (if IndexManager.OriginalBranch i \<noteq> [] then
        internal_CheckoutBranch env (IndexManager.OriginalBranch i) s
      else (None, s))"

definition preparePagesBranch ::
  "('w, 'x) os_scheme \<Rightarrow> IndexManager \<Rightarrow> 'w state \<Rightarrow> error option \<times> IndexManager \<times> 'w state" where
  "preparePagesBranch env i s =
     (case internal_GetCurrentBranch env s of
        (Inl err, s1) \<Rightarrow> (Some (''failed to get current branch: '' @ err), i, s1)
      | (Inr currentBranch, s1) \<Rightarrow>
          let i1 = i\<lparr>IndexManager.OriginalBranch := currentBranch\<rparr>;
              pages = IndexManager.PagesBranch i1
          in case internal_BranchExists env pages s1 of
               (exists, s2) \<Rightarrow>
                 if \<not> exists then
                   (Some ''pages branch does not exist'', i1,
                    logInfo 0 ''%s branch does not exist. Skipping index cleanup.'' [VStr pages] s2)
                 else
                   (case internal_FetchBranch env pages s2 of
                      (Some err, s3) \<Rightarrow>
                        (Some (''failed to fetch '' @ pages @ '' branch: '' @ err), i1, s3)
                    | (None, s3) \<Rightarrow>
                        (case internal_CheckoutBranch env pages s3 of
                           (Some err, s4) \<Rightarrow>
                             (Some (''failed to checkout '' @ pages @ '' branch: '' @ err), i1, s4)
                         | (None, s4) \<Rightarrow>
                             let s5 = (case internal_PullBranch env pages s4 of
                                         (Some err, s5) \<Rightarrow>
                                           logInfo 0 ''Failed to pull latest changes from %s: %v''
                                             [VStr pages, VStr err] s5
                                       | (None, s5) \<Rightarrow> s5)
                             in if os_Stat env indexYaml (world s5) = StatNotExist then
                                  (case restoreOriginalBranch env i1
                                          (logInfo 0 ''index.yaml not found in %s branch. Skipping index cleanup.''
                                             [VStr pages] s5) of
                                     (_, s6) \<Rightarrow> (Some ''index.yaml not found'', i1, s6))
                                else (None, i1, s5))))"

definition commitIndexChanges ::
  "('w, 'x) os_scheme \<Rightarrow> IndexManager \<Rightarrow> string \<Rightarrow> 'w state \<Rightarrow> error option \<times> 'w state" where
  "commitIndexChanges env i message s =
     (case internal_HasChanges env indexYaml s of
        (changed, s1) \<Rightarrow>
          if \<not> changed then
            (None, logInfo 0 ''No changes detected in %s, skipping commit'' [VStr indexYaml] s1)
          else
            (case internal_CommitAndPush env indexYaml message (IndexManager.PagesBranch i) s1 of
               (Some err, s2) \<Rightarrow> (Some (''failed to commit and push changes: '' @ err), s2)
             | (None, s2) \<Rightarrow>
                 (None, logInfo 0 ''Successfully committed and pushed changes to %s branch''
                          [VStr (IndexManager.PagesBranch i)] s2)))"

definition internal_loadIndexFile ::
  "('w, 'r, 'i, 'x) internal_env_scheme \<Rightarrow> 'w state \<Rightarrow> error + 'i" where
  "internal_loadIndexFile env s =
     (case os_Stat env indexYaml (world s) of
        StatNotExist \<Rightarrow> Inr (repo_NewIndexFile env (world s))
      | StatError err \<Rightarrow> Inl (''failed to stat index.yaml: '' @ err)
      | StatOk \<Rightarrow>
          (case repo_LoadIndexFile env indexYaml (world s) of
             Inl err \<Rightarrow> Inl (''failed to load index.yaml: '' @ err)
           | Inr indexFile \<Rightarrow> Inr indexFile))"

definition internal_writeIndexFile ::
  "('w, 'r, 'i, 'x) internal_env_scheme \<Rightarrow> 'i \<Rightarrow> 'w state \<Rightarrow> error option \<times> 'w state" where
  "internal_writeIndexFile env indexFile s =
     (case invoke (WriteFile indexYaml) (IndexFile_WriteFile env indexFile indexYaml) s of
        (Some err, s1) \<Rightarrow> (Some (''failed to write index.yaml: '' @ err), s1)
      | (None, s1) \<Rightarrow> (None, logInfo 0 ''Successfully wrote index.yaml'' [] s1))"

text \<open>\<open>CleanEntriesVersions\<close> from the statement after \<open>defer i.restoreOriginalBranch()\<close>
  to its return: the index is loaded, changed by the loop, written, and committed when
  \<open>git\<close> sees a change.\<close>

definition CleanEntriesVersions_cycle ::
  "('w, 'r, ('a ChartVersion_scheme, 'b) IndexFile_scheme, 'x) internal_env_scheme
     \<Rightarrow> IndexManager \<Rightarrow> ChartInfo list \<Rightarrow> 'w state \<Rightarrow> error option \<times> 'w state" where
  "CleanEntriesVersions_cycle env i charts s =
     (case internal_loadIndexFile env s of
        Inl err \<Rightarrow> (Some (''failed to load index file: '' @ err), s)
      | Inr indexFile0 \<Rightarrow>
          (case CleanEntriesVersions_loop charts (indexFile0, logs s) of
             (indexFile, lg) \<Rightarrow>
               (case internal_writeIndexFile env indexFile (s\<lparr>logs := lg\<rparr>) of
                  (Some err, s1) \<Rightarrow> (Some (''failed to write index file: '' @ err), s1)
                | (None, s1) \<Rightarrow>
                    (case commitIndexChanges env i ''Removed specified chart versions from index.yaml''
                            (logInfo 0 ''Removed specified chart versions from index.yaml'' [] s1) of
                       (Some err, s2) \<Rightarrow> (Some (''failed to commit changes: '' @ err), s2)
                     | (None, s2) \<Rightarrow> (None, s2)))))"

definition CleanEntriesVersions ::
  "('w, 'r, ('a ChartVersion_scheme, 'b) IndexFile_scheme, 'x) internal_env_scheme
     \<Rightarrow> IndexManager \<Rightarrow> ChartInfo list \<Rightarrow> 'w state
     \<Rightarrow> error option \<times> IndexManager \<times> 'w state" where
  "CleanEntriesVersions env i charts s =
     (case preparePagesBranch env i s of
        (Some err, i1, s1) \<Rightarrow> (Some (''failed to prepare pages branch: '' @ err), i1, s1)
      | (None, i1, s1) \<Rightarrow>
          (case CleanEntriesVersions_cycle env i1 charts s1 of
             (result, s2) \<Rightarrow>
               (case restoreOriginalBranch env i1 s2 of
                  (_, s3) \<Rightarrow> (result, i1, s3))))"

definition CleanAllEntries_cycle ::
  "('w, 'r, ('v, 'b) IndexFile_scheme, 'x) internal_env_scheme
     \<Rightarrow> IndexManager \<Rightarrow> 'w state \<Rightarrow> error option \<times> 'w state" where
  "CleanAllEntries_cycle env i s =
     (case internal_loadIndexFile env s of
        Inl err \<Rightarrow> (Some (''failed to load index file: '' @ err), s)
      | Inr indexFile0 \<Rightarrow>
          (case internal_writeIndexFile env (indexFile0\<lparr>Entries := Map.empty\<rparr>) s of
             (Some err, s1) \<Rightarrow> (Some (''failed to write index file: '' @ err), s1)
           | (None, s1) \<Rightarrow>
               (case commitIndexChanges env i ''Cleaned all chart entries from index.yaml''
                       (logInfo 0 ''All chart entries removed from index.yaml'' [] s1) of
                  (Some err, s2) \<Rightarrow> (Some (''failed to commit changes: '' @ err), s2)
                | (None, s2) \<Rightarrow> (None, s2))))"

definition CleanAllEntries ::
  "('w, 'r, ('v, 'b) IndexFile_scheme, 'x) internal_env_scheme
     \<Rightarrow> IndexManager \<Rightarrow> 'w state \<Rightarrow> error option \<times> IndexManager \<times> 'w state" where
  "CleanAllEntries env i s =
     (case preparePagesBranch env i s of
        (Some err, i1, s1) \<Rightarrow> (Some (''failed to prepare pages branch: '' @ err), i1, s1)
      | (None, i1, s1) \<Rightarrow>
          (case CleanAllEntries_cycle env i1 s1 of
             (result, s2) \<Rightarrow>
               (case restoreOriginalBranch env i1 s2 of
                  (_, s3) \<Rightarrow> (result, i1, s3))))"

section \<open>Package internal: github.go\<close>

record GHClient =
  owner :: string
  repo :: string

text \<open>
  \<open>GetAllReleases\<close> asks for page after page until the response names no next page. The
  loop need not end, so its result is optional: \<open>None\<close> when the API never reports a last
  page.
\<close>

partial_function (option) GetAllReleases_pages ::
  "('w, 'r, 'i, 'x) internal_env_scheme \<Rightarrow> nat \<Rightarrow> Release list \<Rightarrow> 'w state
     \<Rightarrow> ((error + Release list) \<times> 'w state) option" where
  "GetAllReleases_pages env page allReleases s =
     (case invoke_value (ListReleases page) (Repositories_ListReleases env page) s of
        (Inl err, s1) \<Rightarrow>
          Some (Inl (''failed to list releases: '' @ err),
                logError err ''Failed to list releases'' [] s1)
      | (Inr (releases, nextPage), s1) \<Rightarrow>
          if nextPage = 0 then
            Some (Inr (allReleases @ releases),
                  logInfo 0 ''Found releases'' [VStr ''count'', VNat (length (allReleases @ releases))] s1)
          else GetAllReleases_pages env nextPage (allReleases @ releases) s1)"

definition GHClient_GetAllReleases ::
  "('w, 'r, 'i, 'x) internal_env_scheme \<Rightarrow> GHClient \<Rightarrow> 'w state
     \<Rightarrow> ((error + Release list) \<times> 'w state) option" where
  "GHClient_GetAllReleases env gh s =
     GetAllReleases_pages env 0 []
       (logInfo 0 ''Getting all releases'' [VStr ''owner'', VStr (owner gh), VStr ''repo'', VStr (repo gh)] s)"

text \<open>In \<open>DeleteRelease\<close> and \<open>DeleteTag\<close> the call of the API is commented out: both log
  and return no error.\<close>

definition GHClient_DeleteRelease :: "GHClient \<Rightarrow> int \<Rightarrow> 'w state \<Rightarrow> error option \<times> 'w state" where
  "GHClient_DeleteRelease gh releaseID s =
     (None, logInfo 0 ''Successfully deleted release'' [VStr ''releaseID'', VInt releaseID]
              (logInfo 0 ''Deleting release'' [VStr ''releaseID'', VInt releaseID] s))"

definition isNotFoundError :: "error \<Rightarrow> bool" where
  "isNotFoundError err = strings_Contains err ''404''"

definition GHClient_DeleteReleaseByTag ::
  "('w, 'r, 'i, 'x) internal_env_scheme \<Rightarrow> GHClient \<Rightarrow> string \<Rightarrow> 'w state
     \<Rightarrow> error option \<times> 'w state" where
  "GHClient_DeleteReleaseByTag env gh tag s =
     (case invoke_value (GetReleaseByTag tag) (Repositories_GetReleaseByTag env tag)
             (logInfo 0 ''Deleting release by tag'' [VStr ''tag'', VStr tag] s) of
        (Inl err, s1) \<Rightarrow>
          if isNotFoundError err then
            (None, logInfo 0 ''Release not found, skipping deletion'' [VStr ''tag'', VStr tag] s1)
          else (Some (''failed to get release by tag '' @ tag @ '': '' @ err), s1)
      | (Inr release, s1) \<Rightarrow> GHClient_DeleteRelease gh (ID release) s1)"

definition GHClient_DeleteTag :: "GHClient \<Rightarrow> string \<Rightarrow> 'w state \<Rightarrow> error option \<times> 'w state" where
  "GHClient_DeleteTag gh tag s =
     (None, logPrintf (''Successfully deleted tag: '' @ tag)
              (logInfo 0 ''Deleting tag'' [VStr ''tag'', VStr tag] s))"

text \<open>
  The loop of \<open>DeleteAllReleases\<close> over the releases, with the list \<open>errors\<close> built so far.
  The loop is stated for any operation that deletes one release; \<open>DeleteAllReleases\<close> runs
  it with \<open>DeleteRelease\<close>.
\<close>

fun DeleteAllReleases_loop ::
  "(int \<Rightarrow> 'w state \<Rightarrow> error option \<times> 'w state) \<Rightarrow> Release list \<Rightarrow> string list \<Rightarrow> 'w state
     \<Rightarrow> string list \<times> 'w state" where
  "DeleteAllReleases_loop delete [] errors s = (errors, s)"
| "DeleteAllReleases_loop delete (release # releases) errors s =
     (case delete (ID release) s of
        (Some err, s1) \<Rightarrow>
          DeleteAllReleases_loop delete releases (errors @ [err])
            (logPrintf (''Failed to delete release '' @ TagName release @ '': '' @ err) s1)
      | (None, s1) \<Rightarrow> DeleteAllReleases_loop delete releases errors s1)"

definition DeleteAllReleases_with ::
  "(int \<Rightarrow> 'w state \<Rightarrow> error option \<times> 'w state) \<Rightarrow> Release list \<Rightarrow> 'w state
     \<Rightarrow> error option \<times> 'w state" where
  "DeleteAllReleases_with delete releases s =
     (if length releases = 0 then (None, logPrintf ''No releases found to delete'' s)
      else
        case DeleteAllReleases_loop delete releases [] s of
          (errors, s1) \<Rightarrow>
            if length errors > 0 then
              (Some (''failed to delete some releases: '' @ strings_Join errors ''; ''), s1)
            else
              (None, logPrintf (''Successfully deleted '' @ fmt_nat (length releases) @ '' releases'') s1))"

definition GHClient_DeleteAllReleases ::
  "('w, 'r, 'i, 'x) internal_env_scheme \<Rightarrow> GHClient \<Rightarrow> 'w state
     \<Rightarrow> (error option \<times> 'w state) option" where
  "GHClient_DeleteAllReleases env gh s =
     (case GHClient_GetAllReleases env gh
             (logPrintf (''Deleting all releases for '' @ owner gh @ ''/'' @ repo gh) s) of
        None \<Rightarrow> None
      | Some (Inl err, s1) \<Rightarrow> Some (Some (''failed to get releases: '' @ err), s1)
      | Some (Inr releases, s1) \<Rightarrow>
          Some (DeleteAllReleases_with (GHClient_DeleteRelease gh) releases s1))"

definition DeleteReleaseAndTag ::
  "('w, 'r, 'i, 'x) internal_env_scheme \<Rightarrow> GHClient \<Rightarrow> string \<Rightarrow> 'w state
     \<Rightarrow> error option \<times> 'w state" where
  "DeleteReleaseAndTag env gh tag s =
     (case GHClient_DeleteReleaseByTag env gh tag
             (logPrintf (''Deleting release and tag: '' @ tag) s) of
        (Some err, s1) \<Rightarrow> (Some (''failed to delete release: '' @ err), s1)
      | (None, s1) \<Rightarrow>
          (case GHClient_DeleteTag gh tag s1 of
             (Some err, s2) \<Rightarrow> (Some (''failed to delete tag: '' @ err), s2)
           | (None, s2) \<Rightarrow>
               (None, logPrintf (''Successfully deleted release and tag: '' @ tag) s2)))"

section \<open>Package internal: release_manager.go\<close>

record ReleaseManager =
  rm_index :: IndexManager
  rm_ghc :: GHClient
  rm_baseBranch :: string
  rm_chartDir :: string
  rm_versionPattern :: string

definition isHelmChart :: "('w, 'x) os_scheme \<Rightarrow> string \<Rightarrow> 'w state \<Rightarrow> bool" where
  "isHelmChart env chartPath s =
     (let chartFile = filepath_Join [chartPath, ''Chart.yaml'']
      in os_Stat env chartFile (world s) = StatOk)"

definition getChartInfo ::
  "('w, 'r, 'x) chart_env_scheme \<Rightarrow> string \<Rightarrow> 'w state \<Rightarrow> error + ChartInfo" where
  "getChartInfo env chartPath s =
     (let chartFile = filepath_Join [chartPath, ''Chart.yaml'']
      in case os_ReadFile env chartFile (world s) of
           Inl err \<Rightarrow> Inl (''failed to read chart file '' @ chartFile @ '': '' @ err)
         | Inr data \<Rightarrow>
             (case yaml_Unmarshal_ChartMetadata env data of
                Inl err \<Rightarrow> Inl (''failed to parse chart file '' @ chartFile @ '': '' @ err)
              | Inr metadata \<Rightarrow>
                  Inr \<lparr>Path = chartPath,
                       Name = ChartMetadata.Name metadata,
                       Version = ChartMetadata.Version metadata\<rparr>))"

definition versionMatchesPattern :: "'r regexp \<Rightarrow> string \<Rightarrow> string \<Rightarrow> error + bool" where
  "versionMatchesPattern re version pattern =
     (case Compile re pattern of
        Inl err \<Rightarrow> Inl (''invalid regex pattern '' @ [quote] @ pattern @ [quote] @ '': '' @ err)
      | Inr regex \<Rightarrow> Inr (MatchString re regex version))"

fun getChangedCharts_chartDirs ::
  "ReleaseManager \<Rightarrow> string list \<Rightarrow> (string \<rightharpoonup> bool) \<Rightarrow> (string \<rightharpoonup> bool)" where
  "getChangedCharts_chartDirs m [] chartDirs = chartDirs"
| "getChangedCharts_chartDirs m (filePath # changedFiles) chartDirs =
     (let pathParts = strings_Split (filepath_Clean filePath) (CHR ''/'')
      in if length pathParts \<ge> 2 \<and> pathParts ! 0 = rm_chartDir m then
           let chartDir = filepath_Join [rm_chartDir m, pathParts ! 1]
           in getChangedCharts_chartDirs m changedFiles (chartDirs(chartDir \<mapsto> True))
         else getChangedCharts_chartDirs m changedFiles chartDirs)"

fun getChangedCharts_range ::
  "('w, 'r, 'x) chart_env_scheme \<Rightarrow> string \<Rightarrow> string list \<Rightarrow> ChartInfo list \<Rightarrow> 'w state
     \<Rightarrow> (error + ChartInfo list) \<times> 'w state" where
  "getChangedCharts_range env versionPattern [] changedCharts s = (Inr changedCharts, s)"
| "getChangedCharts_range env versionPattern (chartDir # chartDirs) changedCharts s =
     (if \<not> isHelmChart env chartDir s then
        getChangedCharts_range env versionPattern chartDirs changedCharts
          (logInfo 0 ''%s is not a Helm chart. Skipping.'' [VStr chartDir] s)
      else
        case getChartInfo env chartDir s of
          Inl err \<Rightarrow>
            getChangedCharts_range env versionPattern chartDirs changedCharts
              (logInfo 0 ''Error getting chart info for %s: %v'' [VStr chartDir, VStr err] s)
        | Inr chartInfo \<Rightarrow>
            (case versionMatchesPattern (regexp env) (ChartInfo.Version chartInfo) versionPattern of
               Inl err \<Rightarrow> (Inl (''error checking version pattern: '' @ err), s)
             | Inr matches \<Rightarrow>
                 if \<not> matches then
                   (Inl (''chart version '' @ ChartInfo.Version chartInfo
                          @ '' does not match supported pattern for deletion: '' @ versionPattern), s)
                 else
                   getChangedCharts_range env versionPattern chartDirs (changedCharts @ [chartInfo])
                     (logInfo 0 ''Found Helm chart: %s with version %s''
                        [VStr chartDir, VStr (ChartInfo.Version chartInfo)] s)))"

definition getChangedCharts ::
  "('w, 'r, 'x) chart_env_scheme \<Rightarrow> ReleaseManager \<Rightarrow> string list \<Rightarrow> string \<Rightarrow> 'w state
     \<Rightarrow> (error + ChartInfo list) \<times> 'w state" where
  "getChangedCharts env m changedFiles versionPattern s =
     (let chartDirs = getChangedCharts_chartDirs m changedFiles Map.empty
      in getChangedCharts_range env versionPattern (range_keys env chartDirs) [] s)"

definition ReleaseManager_DeleteAllReleases ::
  "('w, 'r, ('v, 'b) IndexFile_scheme, 'x) internal_env_scheme \<Rightarrow> ReleaseManager \<Rightarrow> 'w state
     \<Rightarrow> (error option \<times> 'w state) option" where
  "ReleaseManager_DeleteAllReleases env m s =
     (case GHClient_DeleteAllReleases env (rm_ghc m) (logInfo 0 ''Deleting all releases...'' [] s) of
        None \<Rightarrow> None
      | Some (Some err, s1) \<Rightarrow> Some (Some (''failed to delete all releases: '' @ err), s1)
      | Some (None, s1) \<Rightarrow>
          (case CleanAllEntries env (rm_index m)
                  (logInfo 0 ''Successfully deleted all releases'' [] s1) of
             (Some err, _, s2) \<Rightarrow> Some (Some (''failed to clean chart index entries: '' @ err), s2)
           | (None, _, s2) \<Rightarrow>
               Some (None, logInfo 0 ''Successfully cleaned chart index entries'' [] s2)))"

text \<open>The loop \<open>for _, chart := range changedCharts\<close> of \<open>DeleteChangedCharts\<close>.\<close>

fun DeleteChangedCharts_loop ::
  "('w, 'r, 'i, 'x) internal_env_scheme \<Rightarrow> GHClient \<Rightarrow> ChartInfo list \<Rightarrow> 'w state \<Rightarrow> 'w state" where
  "DeleteChangedCharts_loop env gh [] s = s"
| "DeleteChangedCharts_loop env gh (chart # charts) s =
     (let releaseName = ChartInfo.Name chart @ ''-'' @ ChartInfo.Version chart
      in case DeleteReleaseAndTag env gh releaseName
                (logInfo 0 ''Deleting release: %s'' [VStr releaseName] s) of
           (Some err, s1) \<Rightarrow>
             DeleteChangedCharts_loop env gh charts
               (logInfo 0 ''Failed to delete release %s: %v'' [VStr releaseName, VStr err] s1)
         | (None, s1) \<Rightarrow> DeleteChangedCharts_loop env gh charts s1)"

definition DeleteChangedCharts ::
  "('w, 'r, ('a ChartVersion_scheme, 'b) IndexFile_scheme, 'x) internal_env_scheme
     \<Rightarrow> ReleaseManager \<Rightarrow> 'w state \<Rightarrow> error option \<times> 'w state" where
  "DeleteChangedCharts env m s =
     (case internal_GetChangedFiles env (rm_baseBranch m) (rm_chartDir m) s of
        (Inl err, s1) \<Rightarrow> (Some (''failed to get changed files: '' @ err), s1)
      | (Inr changedFiles, s1) \<Rightarrow>
          if length changedFiles = 0 then
            (None, logInfo 0 ''No changed files found since the base branch'' [] s1)
          else
            (case getChangedCharts env m changedFiles (rm_versionPattern m)
                    (logInfo 0 ''Found %d changed files'' [VNat (length changedFiles)] s1) of
              (Inl err, s2) \<Rightarrow> (Some (''failed to get changed charts: '' @ err), s2)
            | (Inr changedCharts, s2) \<Rightarrow>
                if length changedCharts = 0 then
                  (None, logInfo 0 ''No charts found matching the version pattern'' [] s2)
                else
                  let s3 = logInfo 0 ''Deleting releases for changed charts...'' []
                             (logInfo 0 ''Found %d charts to delete'' [VNat (length changedCharts)] s2);
                      s4 = logInfo 0 ''Successfully deleted all specified chart releases'' []
                             (DeleteChangedCharts_loop env (rm_ghc m) changedCharts s3)
                  in (case CleanEntriesVersions env (rm_index m) changedCharts s4 of
                        (Some err, _, s5) \<Rightarrow>
                          (Some (''failed to clean chart index entries: '' @ err), s5)
                      | (None, _, s5) \<Rightarrow>
                          (None, logInfo 0 ''Successfully cleaned chart index entries'' [] s5))))"

section \<open>Notions used in the statements\<close>

text \<open>\<open>targeted charts k ver\<close>: the chart list names version \<open>ver\<close> of chart \<open>k\<close>;
  \<open>kept charts k vs\<close>: the entries of \<open>vs\<close> whose version the list does not name for \<open>k\<close>.\<close>

definition targeted :: "ChartInfo list \<Rightarrow> string \<Rightarrow> string \<Rightarrow> bool" where
  "targeted charts k ver = (\<exists>c\<in>set charts. ChartInfo.Name c = k \<and> ChartInfo.Version c = ver)"

definition kept ::
  "ChartInfo list \<Rightarrow> string \<Rightarrow> 'a ChartVersion_scheme list \<Rightarrow> 'a ChartVersion_scheme list" where
  "kept charts k vs = filter (\<lambda>v. \<not> targeted charts k (ChartVersion.Version v)) vs"

text \<open>The segments of a changed path as \<open>GetChangedCharts\<close> reads them: the pieces of
  the cleaned path between the separators.\<close>

definition path_segments :: "string \<Rightarrow> string list" where
  "path_segments filePath = strings_Split (filepath_Clean filePath) (CHR ''/'')"

text \<open>A chart directory whose \<open>Chart.yaml\<close> exists but cannot be read or parsed.\<close>

definition unreadable :: "('w, 'r, 'x) chart_env_scheme \<Rightarrow> 'w state \<Rightarrow> string \<Rightarrow> bool" where
  "unreadable env s chartDir = (IsHelmChart env chartDir s \<and> isl (GetChartInfo env chartDir s))"

text \<open>The error with which \<open>GetChangedCharts\<close> returns for a version that does not pass
  the check against the pattern.\<close>

definition version_error :: "'r regexp \<Rightarrow> string \<Rightarrow> string \<Rightarrow> error" where
  "version_error re version pattern =
     (case VersionMatchesPattern re version pattern of
        Inl err \<Rightarrow> ''error checking version pattern: '' @ err
      | Inr _ \<Rightarrow> ''chart version '' @ version
                 @ '' does not match supported pattern for deletion: '' @ pattern)"

text \<open>The operation and the error of a recorded call; the calls recorded between two
  states.\<close>

fun call_op :: "call \<Rightarrow> op" where
  "call_op (Call opn err) = opn"

fun call_error :: "call \<Rightarrow> error option" where
  "call_error (Call opn err) = err"

definition new_calls :: "'w state \<Rightarrow> 'w state \<Rightarrow> call list" where
  "new_calls s s' = drop (length (calls s)) (calls s')"

text \<open>The calls that change the published state: \<open>git add\<close>, \<open>commit\<close> and \<open>push\<close>
  make the commit of the index, \<open>WriteFile\<close> rewrites the index file, and the calls of the
  release manager delete a release or a tag.\<close>

fun is_commit :: "op \<Rightarrow> bool" where
  "is_commit (Git dir args) = (args \<noteq> [] \<and> hd args \<in> set [''add'', ''commit'', ''push''])"
| "is_commit _ = False"

fun is_write :: "op \<Rightarrow> bool" where
  "is_write (WriteFile path) = True"
| "is_write _ = False"

fun is_deletion :: "op \<Rightarrow> bool" where
  "is_deletion (DeleteRelease releaseID name) = True"
| "is_deletion (DeleteReleaseByTag tag) = True"
| "is_deletion (DeleteTag tag) = True"
| "is_deletion opn = (is_write opn \<or> is_commit opn)"

text \<open>\<open>appends s s' P\<close>: from \<open>s\<close> to \<open>s'\<close> calls were only added, each of an operation
  that satisfies \<open>P\<close>.\<close>

definition appends :: "'w state \<Rightarrow> 'w state \<Rightarrow> (op \<Rightarrow> bool) \<Rightarrow> bool" where
  "appends s s' P = (\<exists>cs. calls s' = calls s @ cs \<and> (\<forall>c\<in>set cs. P (call_op c)))"

text \<open>The line that \<open>deleteAllReleases\<close> logs for a failed call, and the operations
  it runs for one release.\<close>

fun failure_line :: "call \<Rightarrow> log_line list" where
  "failure_line (Call (DeleteRelease releaseID name) (Some err)) =
     [Printf (''Failed to delete release '' @ name @ '': '' @ err)]"
| "failure_line (Call (DeleteTag tag) (Some err)) =
     [Printf (''Failed to delete tag '' @ tag @ '': '' @ err)]"
| "failure_line c = []"

definition release_ops :: "flags \<Rightarrow> Release \<Rightarrow> op list" where
  "release_ops fl release =
     DeleteRelease (ID release) (Release.Name release)
       # (if flag_withTags fl \<and> TagName release \<noteq> [] then [DeleteTag (TagName release)] else [])"





text \<open>\<open>grows s s'\<close>: from \<open>s\<close> to \<open>s'\<close> calls and log lines were only added. The lines
  that \<open>DeleteRelease\<close> of chart-releaser logs for a release.\<close>

definition grows :: "'w state \<Rightarrow> 'w state \<Rightarrow> bool" where
  "grows s s' = (prefix (calls s) (calls s') \<and> prefix (logs s) (logs s'))"

definition DeleteRelease_lines :: "int \<Rightarrow> log_line list" where
  "DeleteRelease_lines releaseID =
     [LogInfo 0 ''Deleting release'' [VStr ''releaseID'', VInt releaseID],
      LogInfo 0 ''Successfully deleted release'' [VStr ''releaseID'', VInt releaseID]]"

section \<open>Concrete inputs\<close>

text \<open>Small charts, index entries and index documents on which the theorems are
  instantiated.\<close>

definition demo_chart :: "string \<Rightarrow> string \<Rightarrow> ChartInfo" where
  "demo_chart n v = \<lparr>Path = ''charts/'' @ n, Name = n, Version = v\<rparr>"

definition demo_version :: "string \<Rightarrow> string \<Rightarrow> ChartVersion" where
  "demo_version n v = \<lparr>ChartVersion.Name = n, Version = v, URLs = []\<rparr>"

definition demo_index :: "(string \<rightharpoonup> ChartVersion list) \<Rightarrow> ChartVersion IndexFile" where
  "demo_index es = \<lparr>APIVersion = ''v1'', Entries = es, Generated = ''2024-01-01T00:00:00Z''\<rparr>"

definition demo_entries :: "string \<rightharpoonup> ChartVersion list" where
  "demo_entries =
     [''foo'' \<mapsto> [demo_version ''foo'' ''0.0.0-dev'', demo_version ''foo'' ''1.0.0''],
      ''bar'' \<mapsto> [demo_version ''bar'' ''0.0.0-dev'']]"

text \<open>
  A concrete environment on a world without state: the result of \<open>git\<close> depends on the
  arguments only, a file is absent, unreadable or has a content, a \<open>Chart.yaml\<close> holds the
  name and the version separated by a space, and the release manager fails on the names
  for which \<open>failing\<close> gives an error.
\<close>

definition demo_chart_yaml :: "string \<Rightarrow> error + ChartMetadata" where
  "demo_chart_yaml data =
     (case strings_Split data (CHR '' '') of
        [n, v] \<Rightarrow> Inr \<lparr>ChartMetadata.Name = n, Version = v\<rparr>
      | _ \<Rightarrow> Inl ''cannot unmarshal'')"

definition demo_dirs :: "string list" where
  "demo_dirs = [''charts/a'', ''charts/b'', ''charts/foo'']"

definition demo_releases :: "Release list" where
  "demo_releases =
     [\<lparr>ID = 1, Name = ''r1'', TagName = ''t1''\<rparr>,
      \<lparr>ID = 2, Name = ''r2'', TagName = []\<rparr>,
      \<lparr>ID = 3, Name = ''r3'', TagName = ''t3''\<rparr>]"

definition demo_env ::
  "(string list \<Rightarrow> error + string) \<Rightarrow> (string \<Rightarrow> (error + string) option) \<Rightarrow> (string \<Rightarrow> error option)
     \<Rightarrow> (unit, re) main_env" where
  "demo_env git files failing =
     \<lparr>exec_git = (\<lambda>dir args w. (git args, w)),
      os_Stat = (\<lambda>path w. case files path of None \<Rightarrow> StatNotExist | Some _ \<Rightarrow> StatOk),
      os_ReadFile = (\<lambda>path w. case files path of None \<Rightarrow> Inl ''no such file'' | Some r \<Rightarrow> r),
      os_WriteFile = (\<lambda>path data w. (None, w)),
      regexp = regexp_fragment,
      yaml_Unmarshal_ChartMetadata = demo_chart_yaml,
      range_keys = (\<lambda>m. filter (\<lambda>k. m k \<noteq> None) demo_dirs),
      yaml_Unmarshal_IndexFile = (\<lambda>data. Inr (demo_index demo_entries)),
      yaml_Marshal_IndexFile = (\<lambda>indexFile. Inr ''entries''),
      fmt_Print = (\<lambda>prompt w. w),
      fmt_Scanln = (\<lambda>w. (''y'', w)),
      mgr_New = (\<lambda>repository w. (None, w)),
      mgr_CheckAuthentication = (\<lambda>w. (True, w)),
      mgr_GetAllReleases = (\<lambda>w. (Inr demo_releases, w)),
      mgr_DeleteRelease = (\<lambda>releaseID name w. (failing name, w)),
      mgr_DeleteReleaseByTag = (\<lambda>tag w. (failing tag, w)),
      mgr_DeleteTag = (\<lambda>tag w. (failing tag, w))\<rparr>"

definition demo_state :: "unit state" where
  "demo_state = \<lparr>world = (), logs = [], calls = []\<rparr>"

text \<open>A repository on the branch \<open>feature\<close> without tags.\<close>

definition demo_git :: "string list \<Rightarrow> error + string" where
  "demo_git args =
     (if args = [''rev-parse'', ''--abbrev-ref'', ''HEAD''] then Inr (''feature'' @ [CHR 0x0A])
      else if args = [''describe'', ''--tags'', ''--abbrev=0'', ''HEAD~''] then
        Inl ''exit status 128''
      else if args = [''merge-base'', ''HEAD'', ''main''] then Inr (''abc123'' @ [CHR 0x0A])
      else if args = [''diff'', ''--find-renames'', ''--name-only'', ''abc123'', ''--'', ''charts''] then
        Inr (''charts/a/values.yaml'' @ [CHR 0x0A] @ ''charts/b/Chart.yaml'' @ [CHR 0x0A])
      else Inr [])"

text \<open>A repository without state on the given branch: \<open>describe\<close> answers as given,
  the root commit is \<open>root000\<close> and the merge base with \<open>main\<close> is \<open>abc123\<close>.\<close>

definition demo_repo :: "string \<Rightarrow> error + string \<Rightarrow> string list \<Rightarrow> error + string" where
  "demo_repo branch described args =
     (if args = [''rev-parse'', ''--abbrev-ref'', ''HEAD''] then Inr (branch @ [CHR 0x0A])
      else if args = [''describe'', ''--tags'', ''--abbrev=0'', ''HEAD~''] then described
      else if args = [''rev-list'', ''--max-parents=0'', ''--first-parent'', ''HEAD''] then
        Inr (''root000'' @ [CHR 0x0A])
      else if args = [''merge-base'', ''HEAD'', ''main''] then Inr (''abc123'' @ [CHR 0x0A])
      else Inr [])"

text \<open>A working tree in which the manifest of chart \<open>a\<close> cannot be read and chart \<open>b\<close>
  has the given version.\<close>

definition demo_files :: "string \<Rightarrow> string \<Rightarrow> (error + string) option" where
  "demo_files version path =
     (if path = ''charts/a/Chart.yaml'' then Some (Inl ''permission denied'')
      else if path = ''charts/b/Chart.yaml'' then Some (Inr (''b '' @ version))
      else if path = ''index.yaml'' then Some (Inr ''entries'')
      else None)"

text \<open>The flags of a run of \<open>delete-release\<close> with the default pattern.\<close>

definition demo_flags :: flags where
  "demo_flags =
     \<lparr>flag_repository = ''zncdatadev/kubedoop-helm-charts'', flag_chartDir = ''charts'',
      flag_baseBranch = ''main'', flag_pagesBranch = ''gh-pages'',
      flag_versionPattern = default_version_pattern, flag_force = True, flag_withTags = True,
      flag_cleanIndex = False, flag_logLevel = ''INFO''\<rparr>"

text \<open>A release manager that fails on the second release.\<close>

definition demo_failing :: "string \<Rightarrow> error option" where
  "demo_failing name = (if name = ''r2'' then Some ''HTTP 500'' else None)"

text \<open>An environment of package \<open>internal\<close> on the same world: \<open>index.yaml\<close> exists and
  loads as the demo index, and writing it succeeds.\<close>

definition demo_internal_env ::
  "(string list \<Rightarrow> error + string) \<Rightarrow> (unit, re, ChartVersion IndexFile) internal_env" where
  "demo_internal_env git =
     \<lparr>exec_git = (\<lambda>dir args w. (git args, w)),
      os_Stat = (\<lambda>path w. StatOk),
      os_ReadFile = (\<lambda>path w. Inl ''permission denied''),
      os_WriteFile = (\<lambda>path data w. (None, w)),
      regexp = regexp_fragment,
      yaml_Unmarshal_ChartMetadata = demo_chart_yaml,
      range_keys = (\<lambda>m. filter (\<lambda>k. m k \<noteq> None) demo_dirs),
      repo_LoadIndexFile = (\<lambda>path w. Inr (demo_index demo_entries)),
      repo_NewIndexFile = (\<lambda>w. demo_index Map.empty),
      IndexFile_WriteFile = (\<lambda>indexFile path w. (None, w)),
      Repositories_ListReleases = (\<lambda>page w. (Inr (demo_releases, 0), w)),
      Repositories_GetReleaseByTag = (\<lambda>tag w. (Inl ''404 Not Found'', w))\<rparr>"

text \<open>A client of chart-releaser for the repository.\<close>

definition demo_client :: GHClient where
  "demo_client = \<lparr>owner = ''zncdatadev'', repo = ''kubedoop-helm-charts''\<rparr>"

section \<open>Version removal: what the loops compute\<close>

lemma targeted_Nil [simp]: "targeted [] k ver = False"
  by (simp add: targeted_def)

lemma targeted_Cons:
  "targeted (c # cs) k ver = ((ChartInfo.Name c = k \<and> ChartInfo.Version c = ver) \<or> targeted cs k ver)"
  by (auto simp: targeted_def)

lemma kept_Nil [simp]: "kept [] k vs = vs"
  by (simp add: kept_def)

lemma kept_empty [simp]: "kept charts k [] = []"
  by (simp add: kept_def)

lemma kept_Cons_other: "ChartInfo.Name c \<noteq> k \<Longrightarrow> kept (c # cs) k vs = kept cs k vs"
  by (simp add: kept_def targeted_Cons)

lemma kept_Cons_same:
  "kept (c # cs) (ChartInfo.Name c) vs =
     kept cs (ChartInfo.Name c) (filter (\<lambda>v. ChartVersion.Version v \<noteq> ChartInfo.Version c) vs)"
  unfolding kept_def filter_filter
  by (rule filter_cong) (auto simp: targeted_Cons)

lemma kept_idem: "kept charts k (kept charts k vs) = kept charts k vs"
  by (simp add: kept_def)

lemma kept_unlisted: "k \<notin> ChartInfo.Name ` set charts \<Longrightarrow> kept charts k vs = vs"
proof -
  assume "k \<notin> ChartInfo.Name ` set charts"
  then have "\<And>ver. \<not> targeted charts k ver"
    by (auto simp: targeted_def)
  then show ?thesis by (simp add: kept_def)
qed

lemma filter_length_eq_iff: "(length (filter P xs) = length xs) = (filter P xs = xs)"
proof
  assume "length (filter P xs) = length xs"
  then show "filter P xs = xs"
  proof (induction xs)
    case Nil
    then show ?case by simp
  next
    case (Cons x xs)
    have le: "length (filter P xs) \<le> length xs" by (rule length_filter_le)
    show ?case
    proof (cases "P x")
      case True
      then show ?thesis using Cons by simp
    next
      case False
      then show ?thesis using Cons.prems le by simp
    qed
  qed
next
  assume "filter P xs = xs"
  then show "length (filter P xs) = length xs" by simp
qed

lemma body_Entries:
  "Entries (fst (CleanMultipleChartIndexes_body c (idx, rm, lg))) k =
     (if k = ChartInfo.Name c then
        (case Entries idx k of None \<Rightarrow> None
         | Some vs \<Rightarrow>
             let f = filter (\<lambda>v. ChartVersion.Version v \<noteq> ChartInfo.Version c) vs
             in if f = [] \<and> vs \<noteq> [] then None else Some f)
      else Entries idx k)"
  by (auto simp: Let_def map_index_def filter_length_eq_iff split: option.splits)

lemma loop_Entries:
  "Entries (fst (CleanMultipleChartIndexes_loop charts (idx, rm, lg))) k =
     (case Entries idx k of None \<Rightarrow> None
      | Some vs \<Rightarrow> if kept charts k vs = [] \<and> vs \<noteq> [] then None else Some (kept charts k vs))"
proof (induction charts arbitrary: idx rm lg)
  case Nil
  then show ?case by (simp split: option.splits)
next
  case (Cons c cs)
  obtain idx1 rm1 lg1 where b: "CleanMultipleChartIndexes_body c (idx, rm, lg) = (idx1, rm1, lg1)"
    by (cases "CleanMultipleChartIndexes_body c (idx, rm, lg)") auto
  have e1: "Entries idx1 k = (if k = ChartInfo.Name c then
        (case Entries idx k of None \<Rightarrow> None
         | Some vs \<Rightarrow>
             let f = filter (\<lambda>v. ChartVersion.Version v \<noteq> ChartInfo.Version c) vs
             in if f = [] \<and> vs \<noteq> [] then None else Some f)
      else Entries idx k)"
    using body_Entries [of c idx rm lg k] b by simp
  show ?case
  proof (cases "k = ChartInfo.Name c")
    case False
    then show ?thesis using Cons.IH [of idx1 rm1 lg1] b e1
      by (simp add: kept_Cons_other split: option.splits)
  next
    case True
    then show ?thesis using Cons.IH [of idx1 rm1 lg1] b e1
      by (auto simp: kept_Cons_same Let_def split: option.splits if_splits)
  qed
qed

lemma body_other_fields:
  "\<exists>E. fst (CleanMultipleChartIndexes_body c (idx, rm, lg)) = idx\<lparr>Entries := E\<rparr>"
proof (cases "Entries idx (ChartInfo.Name c)")
  case None
  then have "fst (CleanMultipleChartIndexes_body c (idx, rm, lg)) = idx\<lparr>Entries := Entries idx\<rparr>"
    by simp
  then show ?thesis by blast
next
  case (Some vs)
  then show ?thesis
    by (auto simp: Let_def intro: exI [of _ "Entries idx"])
qed

lemma loop_other_fields:
  "\<exists>E. fst (CleanMultipleChartIndexes_loop charts (idx, rm, lg)) = idx\<lparr>Entries := E\<rparr>"
proof (induction charts arbitrary: idx rm lg)
  case Nil
  have "fst (CleanMultipleChartIndexes_loop [] (idx, rm, lg)) = idx\<lparr>Entries := Entries idx\<rparr>"
    by simp
  then show ?case by blast
next
  case (Cons c cs)
  obtain idx1 rm1 lg1 where b: "CleanMultipleChartIndexes_body c (idx, rm, lg) = (idx1, rm1, lg1)"
    by (cases "CleanMultipleChartIndexes_body c (idx, rm, lg)") auto
  obtain E1 where e1: "idx1 = idx\<lparr>Entries := E1\<rparr>"
    using body_other_fields [of c idx rm lg] b by auto
  obtain E2 where e2: "fst (CleanMultipleChartIndexes_loop cs (idx1, rm1, lg1)) = idx1\<lparr>Entries := E2\<rparr>"
    using Cons.IH by blast
  show ?case using b e1 e2 by (auto intro: exI [of _ E2])
qed

lemma loop_document:
  "fst (CleanMultipleChartIndexes_loop charts (idx, rm, lg)) =
     idx\<lparr>Entries := Entries (fst (CleanMultipleChartIndexes_loop charts (idx, rm, lg)))\<rparr>"
proof -
  obtain E where e: "fst (CleanMultipleChartIndexes_loop charts (idx, rm, lg)) = idx\<lparr>Entries := E\<rparr>"
    using loop_other_fields by blast
  show ?thesis by (simp add: e)
qed

lemma ibody_Entries:
  "Entries (fst (CleanEntriesVersions_body c (idx, lg))) k =
     (if k = ChartInfo.Name c then
        (case Entries idx k of None \<Rightarrow> None
         | Some vs \<Rightarrow>
             let f = filter (\<lambda>v. ChartVersion.Version v \<noteq> ChartInfo.Version c) vs
             in if f = [] then None else Some f)
      else Entries idx k)"
  by (auto simp: Let_def map_index_def split: option.splits)

lemma iloop_Entries:
  "Entries (fst (CleanEntriesVersions_loop charts (idx, lg))) k =
     (case Entries idx k of None \<Rightarrow> None
      | Some vs \<Rightarrow>
          if kept charts k vs = [] \<and> k \<in> ChartInfo.Name ` set charts then None
          else Some (kept charts k vs))"
proof (induction charts arbitrary: idx lg)
  case Nil
  then show ?case by (simp split: option.splits)
next
  case (Cons c cs)
  obtain idx1 lg1 where b: "CleanEntriesVersions_body c (idx, lg) = (idx1, lg1)"
    by (cases "CleanEntriesVersions_body c (idx, lg)") auto
  have e1: "Entries idx1 k = (if k = ChartInfo.Name c then
        (case Entries idx k of None \<Rightarrow> None
         | Some vs \<Rightarrow>
             let f = filter (\<lambda>v. ChartVersion.Version v \<noteq> ChartInfo.Version c) vs
             in if f = [] then None else Some f)
      else Entries idx k)"
    using ibody_Entries [of c idx lg k] b by simp
  show ?case
  proof (cases "k = ChartInfo.Name c")
    case False
    then have "(k \<in> ChartInfo.Name ` set (c # cs)) = (k \<in> ChartInfo.Name ` set cs)"
      by auto
    then show ?thesis using False Cons.IH [of idx1 lg1] b e1
      by (simp add: kept_Cons_other split: option.splits)
  next
    case True
    show ?thesis
    proof (cases "Entries idx k")
      case None
      then show ?thesis using True Cons.IH [of idx1 lg1] b e1 by simp
    next
      case (Some vs)
      let ?f = "filter (\<lambda>v. ChartVersion.Version v \<noteq> ChartInfo.Version c) vs"
      have k: "kept (c # cs) k vs = kept cs k ?f"
        using True kept_Cons_same [of c cs vs] by simp
      show ?thesis
      proof (cases "?f = []")
        case True
        then show ?thesis using \<open>k = ChartInfo.Name c\<close> Some Cons.IH [of idx1 lg1] b e1 k
          by simp
      next
        case False
        have sub: "kept cs k ?f \<noteq> [] \<or> kept cs k ?f = []" by blast
        show ?thesis using \<open>k = ChartInfo.Name c\<close> False Some Cons.IH [of idx1 lg1] b e1 k
          by (auto simp: Let_def kept_unlisted)
      qed
    qed
  qed
qed

lemma ibody_other_fields:
  "\<exists>E. fst (CleanEntriesVersions_body c (idx, lg)) = idx\<lparr>Entries := E\<rparr>"
proof (cases "Entries idx (ChartInfo.Name c) = None")
  case True
  then have "fst (CleanEntriesVersions_body c (idx, lg)) = idx\<lparr>Entries := Entries idx\<rparr>"
    by simp
  then show ?thesis by blast
next
  case False
  then show ?thesis by (auto simp: Let_def)
qed

lemma iloop_other_fields:
  "\<exists>E. fst (CleanEntriesVersions_loop charts (idx, lg)) = idx\<lparr>Entries := E\<rparr>"
proof (induction charts arbitrary: idx lg)
  case Nil
  have "fst (CleanEntriesVersions_loop [] (idx, lg)) = idx\<lparr>Entries := Entries idx\<rparr>"
    by simp
  then show ?case by blast
next
  case (Cons c cs)
  obtain idx1 lg1 where b: "CleanEntriesVersions_body c (idx, lg) = (idx1, lg1)"
    by (cases "CleanEntriesVersions_body c (idx, lg)") auto
  obtain E1 where e1: "idx1 = idx\<lparr>Entries := E1\<rparr>"
    using ibody_other_fields [of c idx lg] b by auto
  obtain E2 where e2: "fst (CleanEntriesVersions_loop cs (idx1, lg1)) = idx1\<lparr>Entries := E2\<rparr>"
    using Cons.IH by blast
  show ?case using b e1 e2 by (auto intro: exI [of _ E2])
qed

lemma iloop_document:
  "fst (CleanEntriesVersions_loop charts (idx, lg)) =
     idx\<lparr>Entries := Entries (fst (CleanEntriesVersions_loop charts (idx, lg)))\<rparr>"
proof -
  obtain E where e: "fst (CleanEntriesVersions_loop charts (idx, lg)) = idx\<lparr>Entries := E\<rparr>"
    using iloop_other_fields by blast
  show ?thesis by (simp add: e)
qed

lemma loop_Entries_twice:
  "Entries (fst (CleanMultipleChartIndexes_loop charts
                   (fst (CleanMultipleChartIndexes_loop charts (idx, rm, lg)), rm', lg'))) =
   Entries (fst (CleanMultipleChartIndexes_loop charts (idx, rm, lg)))"
proof (rule ext)
  fix k
  show "Entries (fst (CleanMultipleChartIndexes_loop charts
                   (fst (CleanMultipleChartIndexes_loop charts (idx, rm, lg)), rm', lg'))) k =
        Entries (fst (CleanMultipleChartIndexes_loop charts (idx, rm, lg))) k"
    unfolding loop_Entries [of charts "fst (CleanMultipleChartIndexes_loop charts (idx, rm, lg))" rm' lg' k]
    by (simp add: loop_Entries [of charts idx rm lg k] kept_idem split: option.splits)
qed

lemma iloop_Entries_twice:
  "Entries (fst (CleanEntriesVersions_loop charts
                   (fst (CleanEntriesVersions_loop charts (idx, lg)), lg'))) =
   Entries (fst (CleanEntriesVersions_loop charts (idx, lg)))"
proof (rule ext)
  fix k
  show "Entries (fst (CleanEntriesVersions_loop charts
                   (fst (CleanEntriesVersions_loop charts (idx, lg)), lg'))) k =
        Entries (fst (CleanEntriesVersions_loop charts (idx, lg))) k"
    unfolding iloop_Entries [of charts "fst (CleanEntriesVersions_loop charts (idx, lg))" lg' k]
    by (simp add: iloop_Entries [of charts idx lg k] kept_idem split: option.splits)
qed

text \<open>
  C3. Idempotence of version removal: for every index document and chart list, running
  the removal loop a second time with the same chart list leaves the entries map, and the
  whole document, as the first run left it. This holds for the loop of
  \<open>CleanMultipleChartIndexes\<close> and for the loop of \<open>CleanEntriesVersions\<close>.
\<close>

theorem removeVersions_idempotent:
  "Entries (fst (CleanMultipleChartIndexes_loop charts (CleanMultipleChartIndexes_loop charts st))) =
     Entries (fst (CleanMultipleChartIndexes_loop charts st))
   \<and> fst (CleanMultipleChartIndexes_loop charts (CleanMultipleChartIndexes_loop charts st)) =
     fst (CleanMultipleChartIndexes_loop charts st)
   \<and> Entries (fst (CleanEntriesVersions_loop charts (CleanEntriesVersions_loop charts st'))) =
     Entries (fst (CleanEntriesVersions_loop charts st'))
   \<and> fst (CleanEntriesVersions_loop charts (CleanEntriesVersions_loop charts st')) =
     fst (CleanEntriesVersions_loop charts st')"
proof -
  obtain idx rm lg where st: "st = (idx, rm, lg)" by (cases st) auto
  obtain idx1 rm1 lg1 where r1: "CleanMultipleChartIndexes_loop charts (idx, rm, lg) = (idx1, rm1, lg1)"
    by (cases "CleanMultipleChartIndexes_loop charts (idx, rm, lg)") auto
  have a: "Entries (fst (CleanMultipleChartIndexes_loop charts (idx1, rm1, lg1))) = Entries idx1"
    using loop_Entries_twice [of charts idx rm lg rm1 lg1] r1 by simp
  have b: "fst (CleanMultipleChartIndexes_loop charts (idx1, rm1, lg1)) = idx1"
    using loop_document [of charts idx1 rm1 lg1] a by simp
  obtain jdx jl where st': "st' = (jdx, jl)" by (cases st') auto
  obtain jdx1 jl1 where r2: "CleanEntriesVersions_loop charts (jdx, jl) = (jdx1, jl1)"
    by (cases "CleanEntriesVersions_loop charts (jdx, jl)") auto
  have c: "Entries (fst (CleanEntriesVersions_loop charts (jdx1, jl1))) = Entries jdx1"
    using iloop_Entries_twice [of charts jdx jl jl1] r2 by simp
  have d: "fst (CleanEntriesVersions_loop charts (jdx1, jl1)) = jdx1"
    using iloop_document [of charts jdx1 jl1] c by simp
  show ?thesis using a b c d st st' r1 r2 by simp
qed

lemma kept_as_filter:
  "kept charts k vs =
     filter (\<lambda>u. \<forall>c\<in>set charts. ChartInfo.Name c = k \<longrightarrow> ChartInfo.Version c \<noteq> ChartVersion.Version u) vs"
  unfolding kept_def by (rule filter_cong) (auto simp: targeted_def)

text \<open>
  C5. Frame property of version removal: for every index document and chart list, a key
  whose chart name is not in the list maps to the same version list before and after the
  loop; and an entry of any chart whose version is not a version the list names for that
  chart is still in the chart's list afterwards, which is the list before without the
  entries the chart list names. This holds for both loops.
\<close>

theorem removeVersions_frame:
  "(\<forall>k. k \<notin> ChartInfo.Name ` set charts \<longrightarrow>
      Entries (fst (CleanMultipleChartIndexes_loop charts (idx, rm, lg))) k = Entries idx k)
   \<and> (\<forall>k vs v. Entries idx k = Some vs \<and> v \<in> set vs
          \<and> (\<forall>c\<in>set charts. ChartInfo.Name c = k \<longrightarrow> ChartInfo.Version c \<noteq> ChartVersion.Version v) \<longrightarrow>
        (\<exists>vs'. Entries (fst (CleanMultipleChartIndexes_loop charts (idx, rm, lg))) k = Some vs'
           \<and> v \<in> set vs'
           \<and> vs' = filter (\<lambda>u. \<forall>c\<in>set charts. ChartInfo.Name c = k \<longrightarrow>
                                  ChartInfo.Version c \<noteq> ChartVersion.Version u) vs))
   \<and> (\<forall>k. k \<notin> ChartInfo.Name ` set charts \<longrightarrow>
      Entries (fst (CleanEntriesVersions_loop charts (idx, lg'))) k = Entries idx k)
   \<and> (\<forall>k vs v. Entries idx k = Some vs \<and> v \<in> set vs
          \<and> (\<forall>c\<in>set charts. ChartInfo.Name c = k \<longrightarrow> ChartInfo.Version c \<noteq> ChartVersion.Version v) \<longrightarrow>
        (\<exists>vs'. Entries (fst (CleanEntriesVersions_loop charts (idx, lg'))) k = Some vs'
           \<and> v \<in> set vs'
           \<and> vs' = filter (\<lambda>u. \<forall>c\<in>set charts. ChartInfo.Name c = k \<longrightarrow>
                                  ChartInfo.Version c \<noteq> ChartVersion.Version u) vs))"
proof (intro conjI allI impI)
  fix k
  assume "k \<notin> ChartInfo.Name ` set charts"
  then show "Entries (fst (CleanMultipleChartIndexes_loop charts (idx, rm, lg))) k = Entries idx k"
    by (simp add: loop_Entries kept_unlisted split: option.splits)
next
  fix k
  assume "k \<notin> ChartInfo.Name ` set charts"
  then show "Entries (fst (CleanEntriesVersions_loop charts (idx, lg'))) k = Entries idx k"
    by (simp add: iloop_Entries kept_unlisted split: option.splits)
next
  fix k vs v
  assume a: "Entries idx k = Some vs \<and> v \<in> set vs
          \<and> (\<forall>c\<in>set charts. ChartInfo.Name c = k \<longrightarrow> ChartInfo.Version c \<noteq> ChartVersion.Version v)"
  then have "v \<in> set (kept charts k vs)"
    by (simp add: kept_as_filter)
  then show "\<exists>vs'. Entries (fst (CleanMultipleChartIndexes_loop charts (idx, rm, lg))) k = Some vs'
           \<and> v \<in> set vs'
           \<and> vs' = filter (\<lambda>u. \<forall>c\<in>set charts. ChartInfo.Name c = k \<longrightarrow>
                                  ChartInfo.Version c \<noteq> ChartVersion.Version u) vs"
    using a by (auto simp: loop_Entries kept_as_filter [symmetric])
next
  fix k vs v
  assume a: "Entries idx k = Some vs \<and> v \<in> set vs
          \<and> (\<forall>c\<in>set charts. ChartInfo.Name c = k \<longrightarrow> ChartInfo.Version c \<noteq> ChartVersion.Version v)"
  then have "v \<in> set (kept charts k vs)"
    by (simp add: kept_as_filter)
  then show "\<exists>vs'. Entries (fst (CleanEntriesVersions_loop charts (idx, lg'))) k = Some vs'
           \<and> v \<in> set vs'
           \<and> vs' = filter (\<lambda>u. \<forall>c\<in>set charts. ChartInfo.Name c = k \<longrightarrow>
                                  ChartInfo.Version c \<noteq> ChartVersion.Version u) vs"
    using a by (auto simp: iloop_Entries kept_as_filter [symmetric])
qed

text \<open>An instance: removing \<open>foo 0.0.0-dev\<close> leaves \<open>bar\<close> as it was and keeps
  \<open>foo 1.0.0\<close>.\<close>

theorem removeVersions_frame_witness:
  "Entries (fst (CleanMultipleChartIndexes_loop [demo_chart ''foo'' ''0.0.0-dev'']
                   (demo_index demo_entries, [], []))) ''bar''
     = Some [demo_version ''bar'' ''0.0.0-dev'']
   \<and> Entries (fst (CleanMultipleChartIndexes_loop [demo_chart ''foo'' ''0.0.0-dev'']
                   (demo_index demo_entries, [], []))) ''foo''
     = Some [demo_version ''foo'' ''1.0.0'']
   \<and> Entries (fst (CleanEntriesVersions_loop [demo_chart ''foo'' ''0.0.0-dev'']
                   (demo_index demo_entries, []))) ''bar''
     = Some [demo_version ''bar'' ''0.0.0-dev'']
   \<and> Entries (fst (CleanEntriesVersions_loop [demo_chart ''foo'' ''0.0.0-dev'']
                   (demo_index demo_entries, []))) ''foo''
     = Some [demo_version ''foo'' ''1.0.0'']"
proof -
  let ?charts = "[demo_chart ''foo'' ''0.0.0-dev'']"
  let ?idx = "demo_index demo_entries"
  note fr = removeVersions_frame [of ?charts ?idx "[]" "[]" "[]"]
  have h1: "''bar'' \<notin> ChartInfo.Name ` set ?charts"
    by (simp add: demo_chart_def)
  have e1: "Entries ?idx ''bar'' = Some [demo_version ''bar'' ''0.0.0-dev'']"
    by (simp add: demo_index_def demo_entries_def)
  have h2: "Entries ?idx ''foo'' = Some [demo_version ''foo'' ''0.0.0-dev'', demo_version ''foo'' ''1.0.0'']
     \<and> demo_version ''foo'' ''1.0.0'' \<in> set [demo_version ''foo'' ''0.0.0-dev'', demo_version ''foo'' ''1.0.0'']
     \<and> (\<forall>c\<in>set ?charts. ChartInfo.Name c = ''foo'' \<longrightarrow>
            ChartInfo.Version c \<noteq> ChartVersion.Version (demo_version ''foo'' ''1.0.0''))"
    by (simp add: demo_index_def demo_entries_def demo_chart_def demo_version_def)
  have f: "filter (\<lambda>u. \<forall>c\<in>set ?charts. ChartInfo.Name c = ''foo'' \<longrightarrow>
                                  ChartInfo.Version c \<noteq> ChartVersion.Version u)
             [demo_version ''foo'' ''0.0.0-dev'', demo_version ''foo'' ''1.0.0'']
           = [demo_version ''foo'' ''1.0.0'']"
    by (simp add: demo_chart_def demo_version_def)
  have c1: "Entries (fst (CleanMultipleChartIndexes_loop ?charts (?idx, [], []))) ''bar''
     = Some [demo_version ''bar'' ''0.0.0-dev'']"
    using fr [THEN conjunct1, rule_format, OF h1] e1 by simp
  have c3: "Entries (fst (CleanEntriesVersions_loop ?charts (?idx, []))) ''bar''
     = Some [demo_version ''bar'' ''0.0.0-dev'']"
    using fr [THEN conjunct2, THEN conjunct2, THEN conjunct1, rule_format, OF h1] e1 by simp
  have "\<exists>vs'. Entries (fst (CleanMultipleChartIndexes_loop ?charts (?idx, [], []))) ''foo'' = Some vs'
      \<and> demo_version ''foo'' ''1.0.0'' \<in> set vs'
      \<and> vs' = filter (\<lambda>u. \<forall>c\<in>set ?charts. ChartInfo.Name c = ''foo'' \<longrightarrow>
                                  ChartInfo.Version c \<noteq> ChartVersion.Version u)
             [demo_version ''foo'' ''0.0.0-dev'', demo_version ''foo'' ''1.0.0'']"
    by (rule fr [THEN conjunct2, THEN conjunct1, rule_format, OF h2])
  then have c2: "Entries (fst (CleanMultipleChartIndexes_loop ?charts (?idx, [], []))) ''foo''
     = Some [demo_version ''foo'' ''1.0.0'']"
    using f by simp
  have "\<exists>vs'. Entries (fst (CleanEntriesVersions_loop ?charts (?idx, []))) ''foo'' = Some vs'
      \<and> demo_version ''foo'' ''1.0.0'' \<in> set vs'
      \<and> vs' = filter (\<lambda>u. \<forall>c\<in>set ?charts. ChartInfo.Name c = ''foo'' \<longrightarrow>
                                  ChartInfo.Version c \<noteq> ChartVersion.Version u)
             [demo_version ''foo'' ''0.0.0-dev'', demo_version ''foo'' ''1.0.0'']"
    by (rule fr [THEN conjunct2, THEN conjunct2, THEN conjunct2, rule_format, OF h2])
  then have c4: "Entries (fst (CleanEntriesVersions_loop ?charts (?idx, []))) ''foo''
     = Some [demo_version ''foo'' ''1.0.0'']"
    using f by simp
  show ?thesis using c1 c2 c3 c4 by simp
qed

text \<open>
  C4, as stated, fails: a document that binds a key to an empty list keeps the binding.
  In \<open>CleanMultipleChartIndexes\<close> this is so even when the chart is in the list, since
  nothing is removed from an empty list and the key is deleted only after a removal; in
  \<open>CleanEntriesVersions\<close> it is so when the chart is not in the list.
\<close>

theorem removeVersions_residue_counterexample:
  "Entries (fst (CleanMultipleChartIndexes_loop [demo_chart ''foo'' ''0.0.0-dev'']
                   (demo_index [''foo'' \<mapsto> []], [], []))) ''foo'' = Some []
   \<and> Entries (fst (CleanEntriesVersions_loop [demo_chart ''bar'' ''0.0.0-dev'']
                   (demo_index [''foo'' \<mapsto> []], []))) ''foo'' = Some []"
  by (simp add: demo_chart_def demo_index_def map_index_def)

text \<open>
  C4, amended. No empty-list residue is created: for every index document and chart
  list, a key that the loop leaves bound to an empty version list was bound to an empty
  list before (and, in \<open>CleanEntriesVersions\<close>, is not a chart of the list); so a
  document without empty lists stays without them. In particular, if the non-empty entry
  list of a chart becomes empty by the removal, the chart key is absent from the result.
\<close>

theorem removeVersions_no_new_empty_list:
  "(\<forall>k. Entries (fst (CleanMultipleChartIndexes_loop charts (idx, rm, lg))) k = Some [] \<longrightarrow>
        Entries idx k = Some [])
   \<and> (\<forall>k. Entries (fst (CleanEntriesVersions_loop charts (idx, lg'))) k = Some [] \<longrightarrow>
        Entries idx k = Some [] \<and> k \<notin> ChartInfo.Name ` set charts)
   \<and> ((\<forall>k. Entries idx k \<noteq> Some []) \<longrightarrow>
        (\<forall>k. Entries (fst (CleanMultipleChartIndexes_loop charts (idx, rm, lg))) k \<noteq> Some [])
        \<and> (\<forall>k. Entries (fst (CleanEntriesVersions_loop charts (idx, lg'))) k \<noteq> Some []))
   \<and> (\<forall>k vs. Entries idx k = Some vs \<and> vs \<noteq> []
          \<and> (\<forall>v\<in>set vs. \<exists>c\<in>set charts. ChartInfo.Name c = k
                                \<and> ChartInfo.Version c = ChartVersion.Version v) \<longrightarrow>
        Entries (fst (CleanMultipleChartIndexes_loop charts (idx, rm, lg))) k = None
        \<and> Entries (fst (CleanEntriesVersions_loop charts (idx, lg'))) k = None)"
proof -
  have a: "\<And>k. Entries (fst (CleanMultipleChartIndexes_loop charts (idx, rm, lg))) k = Some [] \<Longrightarrow>
        Entries idx k = Some []"
    by (auto simp: loop_Entries split: option.splits if_splits)
  have b: "\<And>k. Entries (fst (CleanEntriesVersions_loop charts (idx, lg'))) k = Some [] \<Longrightarrow>
        Entries idx k = Some [] \<and> k \<notin> ChartInfo.Name ` set charts"
  proof -
    fix k
    assume r: "Entries (fst (CleanEntriesVersions_loop charts (idx, lg'))) k = Some []"
    then obtain vs where vs: "Entries idx k = Some vs"
      by (auto simp: iloop_Entries split: option.splits)
    from r vs have k: "kept charts k vs = []" and n: "k \<notin> ChartInfo.Name ` set charts"
      by (auto simp: iloop_Entries split: if_splits)
    from n k have "vs = []" by (simp add: kept_unlisted)
    then show "Entries idx k = Some [] \<and> k \<notin> ChartInfo.Name ` set charts"
      using vs n by simp
  qed
  have c: "\<And>k vs. Entries idx k = Some vs \<and> vs \<noteq> []
          \<and> (\<forall>v\<in>set vs. \<exists>c\<in>set charts. ChartInfo.Name c = k
                                \<and> ChartInfo.Version c = ChartVersion.Version v) \<Longrightarrow>
        Entries (fst (CleanMultipleChartIndexes_loop charts (idx, rm, lg))) k = None
        \<and> Entries (fst (CleanEntriesVersions_loop charts (idx, lg'))) k = None"
  proof -
    fix k vs
    assume h: "Entries idx k = Some vs \<and> vs \<noteq> []
          \<and> (\<forall>v\<in>set vs. \<exists>c\<in>set charts. ChartInfo.Name c = k
                                \<and> ChartInfo.Version c = ChartVersion.Version v)"
    then have all: "\<forall>v\<in>set vs. targeted charts k (ChartVersion.Version v)"
      by (simp add: targeted_def)
    then have k: "kept charts k vs = []"
      by (simp add: kept_def)
    from h obtain v where "v \<in> set vs" by (cases vs) auto
    with all have "targeted charts k (ChartVersion.Version v)" by blast
    then have l: "k \<in> ChartInfo.Name ` set charts"
      by (auto simp: targeted_def)
    show "Entries (fst (CleanMultipleChartIndexes_loop charts (idx, rm, lg))) k = None
        \<and> Entries (fst (CleanEntriesVersions_loop charts (idx, lg'))) k = None"
      using h k l by (simp add: loop_Entries iloop_Entries)
  qed
  show ?thesis using a b c by blast
qed

text \<open>An instance: removing the only version of \<open>bar\<close> deletes the key \<open>bar\<close>, and
  \<open>foo\<close> is not left with an empty list.\<close>

theorem removeVersions_no_new_empty_list_witness:
  "Entries (fst (CleanMultipleChartIndexes_loop [demo_chart ''bar'' ''0.0.0-dev'']
                   (demo_index demo_entries, [], []))) ''bar'' = None
   \<and> Entries (fst (CleanEntriesVersions_loop [demo_chart ''bar'' ''0.0.0-dev'']
                   (demo_index demo_entries, []))) ''bar'' = None
   \<and> Entries (fst (CleanMultipleChartIndexes_loop [demo_chart ''bar'' ''0.0.0-dev'']
                   (demo_index demo_entries, [], []))) ''foo'' \<noteq> Some []
   \<and> Entries (fst (CleanEntriesVersions_loop [demo_chart ''bar'' ''0.0.0-dev'']
                   (demo_index demo_entries, []))) ''foo'' \<noteq> Some []"
proof -
  let ?charts = "[demo_chart ''bar'' ''0.0.0-dev'']"
  let ?idx = "demo_index demo_entries"
  note th = removeVersions_no_new_empty_list [of ?charts ?idx "[]" "[]" "[]"]
  have inv: "\<forall>k. Entries ?idx k \<noteq> Some []"
    by (simp add: demo_index_def demo_entries_def)
  have h: "Entries ?idx ''bar'' = Some [demo_version ''bar'' ''0.0.0-dev'']
     \<and> [demo_version ''bar'' ''0.0.0-dev''] \<noteq> []
     \<and> (\<forall>v\<in>set [demo_version ''bar'' ''0.0.0-dev'']. \<exists>c\<in>set ?charts. ChartInfo.Name c = ''bar''
                                \<and> ChartInfo.Version c = ChartVersion.Version v)"
    by (simp add: demo_index_def demo_entries_def demo_chart_def demo_version_def)
  have c1: "Entries (fst (CleanMultipleChartIndexes_loop ?charts (?idx, [], []))) ''bar'' = None
        \<and> Entries (fst (CleanEntriesVersions_loop ?charts (?idx, []))) ''bar'' = None"
    by (rule th [THEN conjunct2, THEN conjunct2, THEN conjunct2, rule_format, OF h])
  have c2': "(\<forall>k. Entries (fst (CleanMultipleChartIndexes_loop ?charts (?idx, [], []))) k \<noteq> Some [])
        \<and> (\<forall>k. Entries (fst (CleanEntriesVersions_loop ?charts (?idx, []))) k \<noteq> Some [])"
    by (rule th [THEN conjunct2, THEN conjunct2, THEN conjunct1, THEN mp, OF inv])
  then have c2: "Entries (fst (CleanMultipleChartIndexes_loop ?charts (?idx, [], []))) ''foo'' \<noteq> Some []
        \<and> Entries (fst (CleanEntriesVersions_loop ?charts (?idx, []))) ''foo'' \<noteq> Some []"
    by blast
  show ?thesis using c1 c2 by simp
qed

section \<open>Change grouping and version matching\<close>

lemma chartDirs_dom:
  "dom (GetChangedCharts_chartDirs cm files m) =
     dom m \<union> (\<lambda>p. filepath_Join [path_segments p ! 0, path_segments p ! 1]) `
               {p \<in> set files. 2 \<le> length (path_segments p) \<and> path_segments p ! 0 = ChartsDir cm}"
proof (induction files arbitrary: m)
  case Nil
  then show ?case by simp
next
  case (Cons f fs)
  show ?case
  proof (cases "2 \<le> length (path_segments f) \<and> path_segments f ! 0 = ChartsDir cm")
    case True
    then have "GetChangedCharts_chartDirs cm (f # fs) m =
        GetChangedCharts_chartDirs cm fs (m(filepath_Join [ChartsDir cm, path_segments f ! 1] \<mapsto> True))"
      by (simp add: path_segments_def Let_def)
    moreover have "{p \<in> set (f # fs). 2 \<le> length (path_segments p) \<and> path_segments p ! 0 = ChartsDir cm}
        = insert f {p \<in> set fs. 2 \<le> length (path_segments p) \<and> path_segments p ! 0 = ChartsDir cm}"
      using True by auto
    ultimately show ?thesis using True Cons.IH by auto
  next
    case False
    then have "GetChangedCharts_chartDirs cm (f # fs) m = GetChangedCharts_chartDirs cm fs m"
      by (auto simp: path_segments_def Let_def)
    moreover have "{p \<in> set (f # fs). 2 \<le> length (path_segments p) \<and> path_segments p ! 0 = ChartsDir cm}
        = {p \<in> set fs. 2 \<le> length (path_segments p) \<and> path_segments p ! 0 = ChartsDir cm}"
      using False by auto
    ultimately show ?thesis using Cons.IH by simp
  qed
qed

lemma chartDirs_example:
  "dom (GetChangedCharts_chartDirs (NewChartManager ''charts'')
          [''charts/a/Chart.yaml'', ''charts/a/values.yaml'', ''charts/b/README.md''] Map.empty)
     = {''charts/a'', ''charts/b''}"
  by (simp add: NewChartManager_def filepath_Clean_def filepath_Join_def strings_Split_def Let_def
        insert_commute)

text \<open>
  C6. Change grouping: for every list of changed file paths and chart directory, the keys
  of \<open>chartDirs\<close>, the candidate chart directories, are exactly the joins of the first two
  segments of the paths that have two segments or more and whose first segment equals the
  chart directory. For the changed files \<open>charts/a/Chart.yaml\<close>, \<open>charts/a/values.yaml\<close>
  and \<open>charts/b/README.md\<close> with the chart directory \<open>charts\<close> they are \<open>charts/a\<close> and
  \<open>charts/b\<close>.
\<close>

theorem change_grouping:
  "dom (GetChangedCharts_chartDirs cm changedFiles Map.empty) =
     (\<lambda>p. filepath_Join [path_segments p ! 0, path_segments p ! 1]) `
       {p \<in> set changedFiles. 2 \<le> length (path_segments p) \<and> path_segments p ! 0 = ChartsDir cm}
   \<and> dom (GetChangedCharts_chartDirs (NewChartManager ''charts'')
            [''charts/a/Chart.yaml'', ''charts/a/values.yaml'', ''charts/b/README.md''] Map.empty)
     = {''charts/a'', ''charts/b''}"
  using chartDirs_dom [of cm changedFiles Map.empty] chartDirs_example by simp

lemma table_row_1:
  "VersionMatchesPattern regexp_fragment ''0.0.0-dev'' default_version_pattern = Inr True"
  by code_simp

lemma table_row_2:
  "VersionMatchesPattern regexp_fragment ''1.2.3'' default_version_pattern = Inr False"
  by code_simp

lemma versionMatchesPattern_eq: "versionMatchesPattern = VersionMatchesPattern"
  by (intro ext) (simp add: versionMatchesPattern_def VersionMatchesPattern_def)

text \<open>
  C9. Version-pattern matching: for every engine, version and pattern,
  \<open>VersionMatchesPattern\<close> returns an error exactly when the pattern fails to compile, and
  otherwise the result of \<open>MatchString\<close>, the unanchored match of the engine; the same
  holds for \<open>versionMatchesPattern\<close> of package \<open>internal\<close>. On the engine of the
  fragment, \<open>0.0.0-dev\<close> matches \<open>^0\.0\.0-dev$\<close> and \<open>1.2.3\<close> does not.
\<close>

theorem VersionMatchesPattern_semantics:
  "(isl (VersionMatchesPattern re V P) \<longleftrightarrow> isl (Compile re P))
   \<and> (\<forall>regex. Compile re P = Inr regex \<longrightarrow>
         VersionMatchesPattern re V P = Inr (MatchString re regex V))
   \<and> (isl (versionMatchesPattern re V P) \<longleftrightarrow> isl (Compile re P))
   \<and> (\<forall>regex. Compile re P = Inr regex \<longrightarrow>
         versionMatchesPattern re V P = Inr (MatchString re regex V))
   \<and> VersionMatchesPattern regexp_fragment ''0.0.0-dev'' default_version_pattern = Inr True
   \<and> VersionMatchesPattern regexp_fragment ''1.2.3'' default_version_pattern = Inr False
   \<and> versionMatchesPattern regexp_fragment ''0.0.0-dev'' default_version_pattern = Inr True
   \<and> versionMatchesPattern regexp_fragment ''1.2.3'' default_version_pattern = Inr False"
proof -
  have a: "isl (VersionMatchesPattern re V P) \<longleftrightarrow> isl (Compile re P)"
    by (simp add: VersionMatchesPattern_def split: sum.splits)
  have b: "\<forall>regex. Compile re P = Inr regex \<longrightarrow>
         VersionMatchesPattern re V P = Inr (MatchString re regex V)"
    by (simp add: VersionMatchesPattern_def)
  show ?thesis using a b table_row_1 table_row_2 by (simp add: versionMatchesPattern_eq)
qed

text \<open>An instance: the pattern \<open>(0|1)+-dev$\<close> compiles and, not being anchored at the
  beginning, matches inside \<open>2.0.1-dev\<close>.\<close>

theorem VersionMatchesPattern_semantics_witness:
  "Compile regexp_fragment ''(0|1)+-dev$'' =
     Inr (RSeq (RPlus (RGroup (RAlt (RLit (CHR ''0'')) (RLit (CHR ''1'')))))
           (RSeq (RLit (CHR ''-'')) (RSeq (RLit (CHR ''d'')) (RSeq (RLit (CHR ''e''))
             (RSeq (RLit (CHR ''v'')) REol)))))
   \<and> VersionMatchesPattern regexp_fragment ''2.0.1-dev'' ''(0|1)+-dev$'' = Inr True
   \<and> versionMatchesPattern regexp_fragment ''2.0.1-dev'' ''(0|1)+-dev$'' = Inr True"
proof -
  let ?r = "RSeq (RPlus (RGroup (RAlt (RLit (CHR ''0'')) (RLit (CHR ''1'')))))
           (RSeq (RLit (CHR ''-'')) (RSeq (RLit (CHR ''d'')) (RSeq (RLit (CHR ''e''))
             (RSeq (RLit (CHR ''v'')) REol))))"
  have h: "Compile regexp_fragment ''(0|1)+-dev$'' = Inr ?r"
    by code_simp
  have m: "MatchString regexp_fragment ?r ''2.0.1-dev'' = True"
    by code_simp
  note th = VersionMatchesPattern_semantics [of regexp_fragment "''2.0.1-dev''" "''(0|1)+-dev$''"]
  have c1: "VersionMatchesPattern regexp_fragment ''2.0.1-dev'' ''(0|1)+-dev$'' = Inr True"
    using th [THEN conjunct2, THEN conjunct1, rule_format, OF h] m by simp
  have c2: "versionMatchesPattern regexp_fragment ''2.0.1-dev'' ''(0|1)+-dev$'' = Inr True"
    using th [THEN conjunct2, THEN conjunct2, THEN conjunct2, THEN conjunct1, rule_format, OF h] m by simp
  show ?thesis using h c1 c2 by simp
qed

section \<open>The scan of the changed charts\<close>

lemma isHelmChart_eq: "isHelmChart = IsHelmChart"
  by (intro ext) (simp add: isHelmChart_def IsHelmChart_def)

lemma getChartInfo_eq: "getChartInfo = GetChartInfo"
  by (intro ext) (simp add: getChartInfo_def GetChartInfo_def)

lemma IsHelmChart_world:
  assumes "world s' = world s"
  shows "IsHelmChart env d s' = IsHelmChart env d s"
  unfolding IsHelmChart_def assms by (rule refl)

lemma GetChartInfo_world:
  assumes "world s' = world s"
  shows "GetChartInfo env d s' = GetChartInfo env d s"
  unfolding GetChartInfo_def assms by (rule refl)

lemma unreadable_world:
  assumes "world s' = world s"
  shows "unreadable env s' d = unreadable env s d"
  unfolding unreadable_def IsHelmChart_world [OF assms] GetChartInfo_world [OF assms] by (rule refl)

lemma world_logPrintf [simp]: "world (logPrintf l s) = world s"
  by (simp add: logPrintf_def)

lemma world_logInfo [simp]: "world (logInfo v m a s) = world s"
  by (simp add: logInfo_def)

lemma world_logError [simp]: "world (logError e m a s) = world s"
  by (simp add: logError_def)

lemma calls_logPrintf [simp]: "calls (logPrintf l s) = calls s"
  by (simp add: logPrintf_def)

lemma calls_logInfo [simp]: "calls (logInfo v m a s) = calls s"
  by (simp add: logInfo_def)

lemma calls_logError [simp]: "calls (logError e m a s) = calls s"
  by (simp add: logError_def)

text \<open>One step of the second loop, by the case of the chart directory.\<close>

lemma range_step_not_chart:
  "\<not> IsHelmChart env d s \<Longrightarrow>
   GetChangedCharts_range env pat (d # ds) acc s =
     GetChangedCharts_range env pat ds acc (logPrintf (d @ '' is not a Helm chart. Skipping.'') s)"
  by simp

lemma range_step_unreadable:
  "IsHelmChart env d s \<Longrightarrow> GetChartInfo env d s = Inl err \<Longrightarrow>
   GetChangedCharts_range env pat (d # ds) acc s =
     GetChangedCharts_range env pat ds acc
       (logPrintf (''Error getting chart info for '' @ d @ '': '' @ err) s)"
  by simp

lemma range_step_mismatch:
  assumes "IsHelmChart env d s" "GetChartInfo env d s = Inr ci"
    "VersionMatchesPattern (regexp env) (ChartInfo.Version ci) pat \<noteq> Inr True"
  shows "GetChangedCharts_range env pat (d # ds) acc s =
     (Inl (version_error (regexp env) (ChartInfo.Version ci) pat), s)"
proof (cases "VersionMatchesPattern (regexp env) (ChartInfo.Version ci) pat")
  case (Inl err)
  then show ?thesis using assms(1,2) by (simp add: version_error_def)
next
  case (Inr b)
  then have "\<not> b" using assms(3) by simp
  then show ?thesis using Inr assms(1,2) by (simp add: version_error_def)
qed

lemma range_step_match:
  "IsHelmChart env d s \<Longrightarrow> GetChartInfo env d s = Inr ci \<Longrightarrow>
   VersionMatchesPattern (regexp env) (ChartInfo.Version ci) pat = Inr True \<Longrightarrow>
   GetChangedCharts_range env pat (d # ds) acc s =
     GetChangedCharts_range env pat ds (acc @ [ci])
       (logPrintf (''Found Helm chart: '' @ d @ '' with version '' @ ChartInfo.Version ci) s)"
  by simp

lemma range_cases:
  obtains (not_chart) "\<not> IsHelmChart env d s"
  | (unreadable) err where "IsHelmChart env d s" "GetChartInfo env d s = Inl err"
  | (mismatch) ci where "IsHelmChart env d s" "GetChartInfo env d s = Inr ci"
      "VersionMatchesPattern (regexp env) (ChartInfo.Version ci) pat \<noteq> Inr True"
  | (match) ci where "IsHelmChart env d s" "GetChartInfo env d s = Inr ci"
      "VersionMatchesPattern (regexp env) (ChartInfo.Version ci) pat = Inr True"
  by (cases "GetChartInfo env d s") blast+

lemma range_world:
  "world s' = world (s :: 'w state) \<Longrightarrow>
   fst (GetChangedCharts_range env pat order acc s') = fst (GetChangedCharts_range env pat order acc s)"
proof (induction order arbitrary: acc s s')
  case Nil
  then show ?case by simp
next
  case (Cons d ds)
  note w = Cons.prems
  have wl: "\<And>l. world (logPrintf l s') = world (logPrintf l s)"
    by (simp add: w)
  show ?case
  proof (cases rule: range_cases [where env=env and d=d and s=s and pat=pat])
    case not_chart
    then have n': "\<not> IsHelmChart env d s'" by (simp add: IsHelmChart_world [OF w])
    show ?thesis
      unfolding range_step_not_chart [OF not_chart] range_step_not_chart [OF n']
      by (rule Cons.IH [OF wl])
  next
    case (unreadable err)
    then have h': "IsHelmChart env d s'" and g': "GetChartInfo env d s' = Inl err"
      by (simp_all add: IsHelmChart_world [OF w] GetChartInfo_world [OF w])
    show ?thesis
      unfolding range_step_unreadable [OF unreadable] range_step_unreadable [OF h' g']
      by (rule Cons.IH [OF wl])
  next
    case (mismatch ci)
    then have h': "IsHelmChart env d s'" and g': "GetChartInfo env d s' = Inr ci"
      by (simp_all add: IsHelmChart_world [OF w] GetChartInfo_world [OF w])
    show ?thesis
      unfolding range_step_mismatch [OF mismatch] range_step_mismatch [OF h' g' mismatch(3)]
      by simp
  next
    case (match ci)
    then have h': "IsHelmChart env d s'" and g': "GetChartInfo env d s' = Inr ci"
      by (simp_all add: IsHelmChart_world [OF w] GetChartInfo_world [OF w])
    show ?thesis
      unfolding range_step_match [OF match] range_step_match [OF h' g' match(3)]
      by (rule Cons.IH [OF wl])
  qed
qed

lemma range_log:
  "fst (GetChangedCharts_range env pat order acc (logPrintf l s)) =
   fst (GetChangedCharts_range env pat order acc s)"
  by (rule range_world) simp

lemma range_snd_world:
  "world (snd (GetChangedCharts_range env pat order acc s)) = world s
   \<and> calls (snd (GetChangedCharts_range env pat order acc s)) = calls s"
proof (induction order arbitrary: acc s)
  case Nil
  then show ?case by simp
next
  case (Cons d ds)
  show ?case
  proof (cases rule: range_cases [where env=env and d=d and s=s and pat=pat])
    case not_chart
    show ?thesis unfolding range_step_not_chart [OF not_chart]
      using Cons.IH [of acc "logPrintf (d @ '' is not a Helm chart. Skipping.'') s"] by simp
  next
    case (unreadable err)
    show ?thesis unfolding range_step_unreadable [OF unreadable]
      using Cons.IH [of acc "logPrintf (''Error getting chart info for '' @ d @ '': '' @ err) s"]
      by simp
  next
    case (mismatch ci)
    show ?thesis unfolding range_step_mismatch [OF mismatch] by simp
  next
    case (match ci)
    show ?thesis unfolding range_step_match [OF match]
      using Cons.IH [of "acc @ [ci]"
          "logPrintf (''Found Helm chart: '' @ d @ '' with version '' @ ChartInfo.Version ci) s"]
      by simp
  qed
qed

lemma range_fail_closed:
  "d \<in> set order \<Longrightarrow> IsHelmChart env d (s :: 'w state) \<Longrightarrow> GetChartInfo env d s = Inr ci \<Longrightarrow>
   VersionMatchesPattern (regexp env) (ChartInfo.Version ci) pat \<noteq> Inr True \<Longrightarrow>
   isl (fst (GetChangedCharts_range env pat order acc s))"
proof (induction order arbitrary: acc)
  case Nil
  then show ?case by simp
next
  case (Cons e es)
  show ?case
  proof (cases "e = d")
    case True
    show ?thesis unfolding True range_step_mismatch [OF Cons.prems(2,3,4)] by simp
  next
    case False
    then have mem: "d \<in> set es" using Cons.prems(1) by simp
    have ih: "\<And>acc' l. isl (fst (GetChangedCharts_range env pat es acc' (logPrintf l s)))"
      unfolding range_log by (rule Cons.IH [OF mem Cons.prems(2,3,4)])
    show ?thesis
    proof (cases rule: range_cases [where env=env and d=e and s=s and pat=pat])
      case not_chart
      show ?thesis unfolding range_step_not_chart [OF not_chart] by (rule ih)
    next
      case (unreadable err)
      show ?thesis unfolding range_step_unreadable [OF unreadable] by (rule ih)
    next
      case (mismatch ci')
      show ?thesis unfolding range_step_mismatch [OF mismatch] by simp
    next
      case (match ci')
      show ?thesis unfolding range_step_match [OF match] by (rule ih)
    qed
  qed
qed

lemma range_skip_unreadable:
  "fst (GetChangedCharts_range env pat order acc (s :: 'w state)) =
   fst (GetChangedCharts_range env pat (filter (\<lambda>d. \<not> unreadable env s d) order) acc s)"
proof (induction order arbitrary: acc)
  case Nil
  then show ?case by simp
next
  case (Cons d ds)
  let ?ds' = "filter (\<lambda>d. \<not> unreadable env s d) ds"
  show ?case
  proof (cases rule: range_cases [where env=env and d=d and s=s and pat=pat])
    case not_chart
    then have nu: "\<not> unreadable env s d" by (simp add: unreadable_def)
    have f: "filter (\<lambda>d. \<not> unreadable env s d) (d # ds) = d # ?ds'" using nu by simp
    show ?thesis
      unfolding f range_step_not_chart [OF not_chart] range_log by (rule Cons.IH)
  next
    case (unreadable err)
    then have u: "unreadable env s d" by (simp add: unreadable_def)
    have f: "filter (\<lambda>d. \<not> unreadable env s d) (d # ds) = ?ds'" using u by simp
    show ?thesis
      unfolding f range_step_unreadable [OF unreadable] range_log by (rule Cons.IH)
  next
    case (mismatch ci)
    then have nu: "\<not> unreadable env s d" by (simp add: unreadable_def)
    have f: "filter (\<lambda>d. \<not> unreadable env s d) (d # ds) = d # ?ds'" using nu by simp
    show ?thesis
      unfolding f range_step_mismatch [OF mismatch] by (rule refl)
  next
    case (match ci)
    then have nu: "\<not> unreadable env s d" by (simp add: unreadable_def)
    have f: "filter (\<lambda>d. \<not> unreadable env s d) (d # ds) = d # ?ds'" using nu by simp
    show ?thesis
      unfolding f range_step_match [OF match] range_log by (rule Cons.IH)
  qed
qed

lemma GetChartInfo_Path: "GetChartInfo env d s = Inr ci \<Longrightarrow> ChartInfo.Path ci = d"
  by (auto simp: GetChartInfo_def Let_def split: sum.splits)

lemma range_result_members:
  "fst (GetChangedCharts_range env pat order acc (s :: 'w state)) = Inr charts \<Longrightarrow> c \<in> set charts \<Longrightarrow>
   c \<in> set acc \<or> (ChartInfo.Path c \<in> set order \<and> GetChartInfo env (ChartInfo.Path c) s = Inr c)"
proof (induction order arbitrary: acc)
  case Nil
  then show ?case by simp
next
  case (Cons d ds)
  note r = Cons.prems(1) and c = Cons.prems(2)
  show ?case
  proof (cases rule: range_cases [where env=env and d=d and s=s and pat=pat])
    case not_chart
    have "fst (GetChangedCharts_range env pat ds acc s) = Inr charts"
      using r unfolding range_step_not_chart [OF not_chart] range_log .
    from Cons.IH [OF this c] show ?thesis by auto
  next
    case (unreadable err)
    have "fst (GetChangedCharts_range env pat ds acc s) = Inr charts"
      using r unfolding range_step_unreadable [OF unreadable] range_log .
    from Cons.IH [OF this c] show ?thesis by auto
  next
    case (mismatch ci)
    have False using r unfolding range_step_mismatch [OF mismatch] by simp
    then show ?thesis ..
  next
    case (match ci)
    have "fst (GetChangedCharts_range env pat ds (acc @ [ci]) s) = Inr charts"
      using r unfolding range_step_match [OF match] range_log .
    from Cons.IH [OF this c] GetChartInfo_Path [OF match(2)] match(2) show ?thesis by auto
  qed
qed

lemma range_all_unreadable:
  assumes "\<forall>d\<in>set order. unreadable env s d"
  shows "fst (GetChangedCharts_range env pat order acc s) = Inr acc"
proof -
  have "filter (\<lambda>d. \<not> unreadable env s d) order = []"
    using assms by (simp add: filter_empty_conv)
  then show ?thesis using range_skip_unreadable [of env pat order acc s] by simp
qed

lemma ilog_world:
  "fst (GetChangedCharts_range env pat order acc (logInfo v m a s)) =
   fst (GetChangedCharts_range env pat order acc s)"
  by (rule range_world) simp

lemma getChangedCharts_range_eq:
  "fst (getChangedCharts_range env pat order acc (s :: 'w state)) =
     fst (GetChangedCharts_range env pat order acc s)
   \<and> world (snd (getChangedCharts_range env pat order acc s)) = world s
   \<and> calls (snd (getChangedCharts_range env pat order acc s)) = calls s"
proof (induction order arbitrary: acc s)
  case Nil
  then show ?case by simp
next
  case (Cons d ds)
  show ?case
  proof (cases rule: range_cases [where env=env and d=d and s=s and pat=pat])
    case not_chart
    have l: "getChangedCharts_range env pat (d # ds) acc s =
        getChangedCharts_range env pat ds acc (logInfo 0 ''%s is not a Helm chart. Skipping.'' [VStr d] s)"
      using not_chart by (simp add: isHelmChart_eq)
    show ?thesis
      unfolding l range_step_not_chart [OF not_chart] range_log
      using Cons.IH [of acc "logInfo 0 ''%s is not a Helm chart. Skipping.'' [VStr d] s"]
      by (simp add: ilog_world)
  next
    case (unreadable err)
    have l: "getChangedCharts_range env pat (d # ds) acc s =
        getChangedCharts_range env pat ds acc
          (logInfo 0 ''Error getting chart info for %s: %v'' [VStr d, VStr err] s)"
      using unreadable by (simp add: isHelmChart_eq getChartInfo_eq)
    show ?thesis
      unfolding l range_step_unreadable [OF unreadable] range_log
      using Cons.IH [of acc "logInfo 0 ''Error getting chart info for %s: %v'' [VStr d, VStr err] s"]
      by (simp add: ilog_world)
  next
    case (mismatch ci)
    have l: "getChangedCharts_range env pat (d # ds) acc s =
       (Inl (version_error (regexp env) (ChartInfo.Version ci) pat), s)"
    proof (cases "VersionMatchesPattern (regexp env) (ChartInfo.Version ci) pat")
      case (Inl err)
      then show ?thesis using mismatch(1,2)
        by (simp add: version_error_def isHelmChart_eq getChartInfo_eq versionMatchesPattern_eq)
    next
      case (Inr b)
      then have "\<not> b" using mismatch(3) by simp
      then show ?thesis using Inr mismatch(1,2)
        by (simp add: version_error_def isHelmChart_eq getChartInfo_eq versionMatchesPattern_eq)
    qed
    show ?thesis unfolding l range_step_mismatch [OF mismatch] by simp
  next
    case (match ci)
    have l: "getChangedCharts_range env pat (d # ds) acc s =
        getChangedCharts_range env pat ds (acc @ [ci])
          (logInfo 0 ''Found Helm chart: %s with version %s''
             [VStr d, VStr (ChartInfo.Version ci)] s)"
      using match by (simp add: isHelmChart_eq getChartInfo_eq versionMatchesPattern_eq)
    show ?thesis
      unfolding l range_step_match [OF match] range_log
      using Cons.IH [of "acc @ [ci]" "logInfo 0 ''Found Helm chart: %s with version %s''
             [VStr d, VStr (ChartInfo.Version ci)] s"]
      by (simp add: ilog_world)
  qed
qed

section \<open>The baseline of the diff\<close>

text \<open>
  C7. Diff-baseline resolution: for every base branch, \<open>GetLatestTag\<close> first runs
  \<open>git fetch --tags\<close>, whose failure is only logged, and asks
  \<open>git rev-parse --abbrev-ref HEAD\<close> for the current branch. With the branch that this
  command reports, it returns the result of \<open>describe --tags --abbrev=0\<close> on the parent
  of \<open>HEAD\<close> when that command succeeds; otherwise it returns what
  \<open>rev-list --max-parents=0 --first-parent HEAD\<close> returns if the current branch equals
  the base branch, and what \<open>merge-base HEAD <base>\<close> returns if not.
\<close>

theorem GetLatestTag_resolution:
  assumes "runGitCommand env g [''fetch'', ''--tags''] s = (fetched, s0)"
    and "s1 = (case fetched of
                 Inl err \<Rightarrow> logPrintf (''Failed to fetch tags from remote: '' @ err) s0
               | Inr output \<Rightarrow> s0)"
    and "runGitCommand env g [''rev-parse'', ''--abbrev-ref'', ''HEAD''] s1 = (Inr currentBranch, s2)"
    and "runGitCommand env g [''describe'', ''--tags'', ''--abbrev=0'', ''HEAD~''] s2 = (described, s3)"
  shows "(\<forall>latestTag. described = Inr latestTag \<longrightarrow>
            GetLatestTag env g baseBranch s = (Inr latestTag, s3))
       \<and> (isl described \<and> currentBranch = baseBranch \<longrightarrow>
            GetLatestTag env g baseBranch s =
              runGitCommand env g [''rev-list'', ''--max-parents=0'', ''--first-parent'', ''HEAD''] s3)
       \<and> (isl described \<and> currentBranch \<noteq> baseBranch \<longrightarrow>
            GetLatestTag env g baseBranch s =
              runGitCommand env g [''merge-base'', ''HEAD'', baseBranch] s3)"
proof -
  have f: "FetchTags env g s = (case fetched of Inl err \<Rightarrow> Some err | Inr output \<Rightarrow> None, s1)"
    using assms(1,2) by (cases fetched) (simp_all add: FetchTags_def)
  have b: "GetCurrentBranch env g s1 = (Inr currentBranch, s2)"
    using assms(3) by (simp add: GetCurrentBranch_def)
  show ?thesis
    using f b assms(4) by (cases described) (simp_all add: GetLatestTag_def)
qed

text \<open>When the current branch cannot be determined, \<open>GetLatestTag\<close> returns that error
  and runs no further command.\<close>

lemma GetLatestTag_no_branch:
  "GetCurrentBranch env g (snd (FetchTags env g s)) = (Inl err, s2) \<Longrightarrow>
   GetLatestTag env g baseBranch s = (Inl (''failed to get current branch: '' @ err), s2)"
  by (cases "FetchTags env g s") (simp add: GetLatestTag_def)

lemmas demo_defs =
  demo_env_def demo_git_def demo_files_def demo_state_def demo_chart_yaml_def demo_dirs_def
  NewGit_def NewChartManager_def

lemmas git_defs =
  GetLatestTag_def FetchTags_def GetCurrentBranch_def runGitCommand_def invoke_value_def
  invoke_def logPrintf_def strings_TrimSpace_def isSpace_def

text \<open>Three instances against the base branch \<open>main\<close>: on the branch \<open>feature\<close>
  of a repository without tags the baseline is the merge base; on \<open>main\<close> itself it is
  the root commit; and when \<open>describe\<close> finds a tag the baseline is that tag.\<close>

theorem GetLatestTag_resolution_witness:
  "fst (GetLatestTag (demo_env demo_git (demo_files ''0.0.0-dev'') (\<lambda>n. None)) (NewGit ''.'') ''main''
          demo_state) = Inr ''abc123''
   \<and> fst (GetLatestTag (demo_env (demo_repo ''main'' (Inl ''exit status 128''))
                          (demo_files ''0.0.0-dev'') (\<lambda>n. None)) (NewGit ''.'') ''main''
             demo_state) = Inr ''root000''
   \<and> fst (GetLatestTag (demo_env (demo_repo ''main'' (Inr (''v1.2.0'' @ [CHR 0x0A])))
                          (demo_files ''0.0.0-dev'') (\<lambda>n. None)) (NewGit ''.'') ''main''
             demo_state) = Inr ''v1.2.0''"
proof -
  let ?g = "NewGit ''.''"
  have c1: "fst (GetLatestTag (demo_env demo_git (demo_files ''0.0.0-dev'') (\<lambda>n. None)) ?g ''main''
          demo_state) = Inr ''abc123''"
  proof -
    let ?env = "demo_env demo_git (demo_files ''0.0.0-dev'') (\<lambda>n. None)"
    let ?f = "runGitCommand ?env ?g [''fetch'', ''--tags''] demo_state"
    let ?b = "runGitCommand ?env ?g [''rev-parse'', ''--abbrev-ref'', ''HEAD''] (snd ?f)"
    let ?d = "runGitCommand ?env ?g [''describe'', ''--tags'', ''--abbrev=0'', ''HEAD~''] (snd ?b)"
    have h1: "?f = (Inr [], snd ?f)" by (simp add: prod_eq_iff demo_defs git_defs)
    have h2: "snd ?f = (case (Inr [] :: error + string) of
                 Inl err \<Rightarrow> logPrintf (''Failed to fetch tags from remote: '' @ err) (snd ?f)
               | Inr output \<Rightarrow> snd ?f)" by simp
    have h3: "?b = (Inr ''feature'', snd ?b)" by (simp add: prod_eq_iff demo_defs git_defs)
    have h4: "?d = (Inl ''git command failed: exit status 128'', snd ?d)"
      by (simp add: prod_eq_iff demo_defs git_defs)
    have m: "fst (runGitCommand ?env ?g [''merge-base'', ''HEAD'', ''main''] (snd ?d)) = Inr ''abc123''"
      by (simp add: demo_defs git_defs)
    have "GetLatestTag ?env ?g ''main'' demo_state =
            runGitCommand ?env ?g [''merge-base'', ''HEAD'', ''main''] (snd ?d)"
      by (rule GetLatestTag_resolution [OF h1 h2 h3 h4, of "''main''", THEN conjunct2, THEN conjunct2, THEN mp])
         simp
    then show ?thesis using m by simp
  qed
  have c2: "fst (GetLatestTag (demo_env (demo_repo ''main'' (Inl ''exit status 128''))
                          (demo_files ''0.0.0-dev'') (\<lambda>n. None)) ?g ''main'' demo_state) = Inr ''root000''"
  proof -
    let ?env = "demo_env (demo_repo ''main'' (Inl ''exit status 128'')) (demo_files ''0.0.0-dev'') (\<lambda>n. None)"
    let ?f = "runGitCommand ?env ?g [''fetch'', ''--tags''] demo_state"
    let ?b = "runGitCommand ?env ?g [''rev-parse'', ''--abbrev-ref'', ''HEAD''] (snd ?f)"
    let ?d = "runGitCommand ?env ?g [''describe'', ''--tags'', ''--abbrev=0'', ''HEAD~''] (snd ?b)"
    have h1: "?f = (Inr [], snd ?f)" by (simp add: prod_eq_iff demo_defs demo_repo_def git_defs)
    have h2: "snd ?f = (case (Inr [] :: error + string) of
                 Inl err \<Rightarrow> logPrintf (''Failed to fetch tags from remote: '' @ err) (snd ?f)
               | Inr output \<Rightarrow> snd ?f)" by simp
    have h3: "?b = (Inr ''main'', snd ?b)" by (simp add: prod_eq_iff demo_defs demo_repo_def git_defs)
    have h4: "?d = (Inl ''git command failed: exit status 128'', snd ?d)"
      by (simp add: prod_eq_iff demo_defs demo_repo_def git_defs)
    have m: "fst (runGitCommand ?env ?g [''rev-list'', ''--max-parents=0'', ''--first-parent'', ''HEAD'']
                    (snd ?d)) = Inr ''root000''"
      by (simp add: demo_defs demo_repo_def git_defs)
    have "GetLatestTag ?env ?g ''main'' demo_state =
            runGitCommand ?env ?g [''rev-list'', ''--max-parents=0'', ''--first-parent'', ''HEAD''] (snd ?d)"
      by (rule GetLatestTag_resolution [OF h1 h2 h3 h4, of "''main''", THEN conjunct2, THEN conjunct1, THEN mp])
         simp
    then show ?thesis using m by simp
  qed
  have c3: "fst (GetLatestTag (demo_env (demo_repo ''main'' (Inr (''v1.2.0'' @ [CHR 0x0A])))
                          (demo_files ''0.0.0-dev'') (\<lambda>n. None)) ?g ''main'' demo_state) = Inr ''v1.2.0''"
  proof -
    let ?env = "demo_env (demo_repo ''main'' (Inr (''v1.2.0'' @ [CHR 0x0A]))) (demo_files ''0.0.0-dev'') (\<lambda>n. None)"
    let ?f = "runGitCommand ?env ?g [''fetch'', ''--tags''] demo_state"
    let ?b = "runGitCommand ?env ?g [''rev-parse'', ''--abbrev-ref'', ''HEAD''] (snd ?f)"
    let ?d = "runGitCommand ?env ?g [''describe'', ''--tags'', ''--abbrev=0'', ''HEAD~''] (snd ?b)"
    have h1: "?f = (Inr [], snd ?f)" by (simp add: prod_eq_iff demo_defs demo_repo_def git_defs)
    have h2: "snd ?f = (case (Inr [] :: error + string) of
                 Inl err \<Rightarrow> logPrintf (''Failed to fetch tags from remote: '' @ err) (snd ?f)
               | Inr output \<Rightarrow> snd ?f)" by simp
    have h3: "?b = (Inr ''main'', snd ?b)" by (simp add: prod_eq_iff demo_defs demo_repo_def git_defs)
    have h4: "?d = (Inr ''v1.2.0'', snd ?d)"
      by (simp add: prod_eq_iff demo_defs demo_repo_def git_defs)
    have "GetLatestTag ?env ?g ''main'' demo_state = (Inr ''v1.2.0'', snd ?d)"
      by (rule GetLatestTag_resolution [OF h1 h2 h3 h4, of "''main''", THEN conjunct1, rule_format]) simp
    then show ?thesis by simp
  qed
  show ?thesis using c1 c2 c3 by simp
qed

text \<open>
  C10. A manifest that cannot be read: for a candidate chart directory whose
  \<open>Chart.yaml\<close> exists but cannot be read or parsed, the loop logs the error and goes on
  with the next directory. \<open>GetChangedCharts\<close> returns what it returns for the candidates
  without the unreadable ones, so such a chart is never in the returned list, its version
  is never checked, and it causes no error: when every candidate is unreadable the result
  is the empty list. The same holds for \<open>getChangedCharts\<close> of package \<open>internal\<close>.
\<close>

theorem unreadable_manifest_skipped:
  "(\<forall>err. IsHelmChart env d s \<and> GetChartInfo env d s = Inl err \<longrightarrow>
       GetChangedCharts_range env pat (d # ds) acc s =
         GetChangedCharts_range env pat ds acc
           (logPrintf (''Error getting chart info for '' @ d @ '': '' @ err) s)
       \<and> getChangedCharts_range env pat (d # ds) acc s =
         getChangedCharts_range env pat ds acc
           (logInfo 0 ''Error getting chart info for %s: %v'' [VStr d, VStr err] s))
   \<and> fst (GetChangedCharts env cm changedFiles pat s) =
       fst (GetChangedCharts_range env pat
              (filter (\<lambda>d. \<not> unreadable env s d)
                 (range_keys env (GetChangedCharts_chartDirs cm changedFiles Map.empty))) [] s)
   \<and> fst (getChangedCharts env m changedFiles pat s) =
       fst (GetChangedCharts_range env pat
              (filter (\<lambda>d. \<not> unreadable env s d)
                 (range_keys env (getChangedCharts_chartDirs m changedFiles Map.empty))) [] s)
   \<and> (\<forall>charts c. c \<in> set charts
         \<and> (fst (GetChangedCharts env cm changedFiles pat s) = Inr charts
            \<or> fst (getChangedCharts env m changedFiles pat s) = Inr charts) \<longrightarrow>
         \<not> unreadable env s (ChartInfo.Path c))
   \<and> ((\<forall>d\<in>set (range_keys env (GetChangedCharts_chartDirs cm changedFiles Map.empty)).
          unreadable env s d) \<longrightarrow>
        fst (GetChangedCharts env cm changedFiles pat s) = Inr [])
   \<and> ((\<forall>d\<in>set (range_keys env (getChangedCharts_chartDirs m changedFiles Map.empty)).
          unreadable env s d) \<longrightarrow>
        fst (getChangedCharts env m changedFiles pat s) = Inr [])"
proof -
  let ?order = "range_keys env (GetChangedCharts_chartDirs cm changedFiles Map.empty)"
  let ?iorder = "range_keys env (getChangedCharts_chartDirs m changedFiles Map.empty)"
  have g: "GetChangedCharts env cm changedFiles pat s = GetChangedCharts_range env pat ?order [] s"
    by (simp add: GetChangedCharts_def)
  have ig: "fst (getChangedCharts env m changedFiles pat s) =
      fst (GetChangedCharts_range env pat ?iorder [] s)"
    using getChangedCharts_range_eq [of env pat ?iorder "[]" s] by (simp add: getChangedCharts_def)
  have a: "\<forall>err. IsHelmChart env d s \<and> GetChartInfo env d s = Inl err \<longrightarrow>
       GetChangedCharts_range env pat (d # ds) acc s =
         GetChangedCharts_range env pat ds acc
           (logPrintf (''Error getting chart info for '' @ d @ '': '' @ err) s)
       \<and> getChangedCharts_range env pat (d # ds) acc s =
         getChangedCharts_range env pat ds acc
           (logInfo 0 ''Error getting chart info for %s: %v'' [VStr d, VStr err] s)"
    by (simp add: isHelmChart_eq getChartInfo_eq)
  have b: "fst (GetChangedCharts env cm changedFiles pat s) =
       fst (GetChangedCharts_range env pat (filter (\<lambda>d. \<not> unreadable env s d) ?order) [] s)"
    unfolding g by (rule range_skip_unreadable)
  have ib: "fst (getChangedCharts env m changedFiles pat s) =
       fst (GetChangedCharts_range env pat (filter (\<lambda>d. \<not> unreadable env s d) ?iorder) [] s)"
    unfolding ig by (rule range_skip_unreadable)
  have mem: "\<And>order charts c. fst (GetChangedCharts_range env pat order [] s) = Inr charts \<Longrightarrow>
       c \<in> set charts \<Longrightarrow> \<not> unreadable env s (ChartInfo.Path c)"
  proof -
    fix order charts c
    assume r: "fst (GetChangedCharts_range env pat order [] s) = Inr charts" and c: "c \<in> set charts"
    from range_result_members [OF r c]
    have "GetChartInfo env (ChartInfo.Path c) s = Inr c" by simp
    then show "\<not> unreadable env s (ChartInfo.Path c)" by (simp add: unreadable_def)
  qed
  have c: "\<forall>charts c. c \<in> set charts
         \<and> (fst (GetChangedCharts env cm changedFiles pat s) = Inr charts
            \<or> fst (getChangedCharts env m changedFiles pat s) = Inr charts) \<longrightarrow>
         \<not> unreadable env s (ChartInfo.Path c)"
    using mem [of ?order] mem [of ?iorder] unfolding g ig by blast
  have d: "(\<forall>d\<in>set ?order. unreadable env s d) \<longrightarrow>
        fst (GetChangedCharts env cm changedFiles pat s) = Inr []"
    unfolding g using range_all_unreadable [of ?order env s pat "[]"] by blast
  have e: "(\<forall>d\<in>set ?iorder. unreadable env s d) \<longrightarrow>
        fst (getChangedCharts env m changedFiles pat s) = Inr []"
    unfolding ig using range_all_unreadable [of ?iorder env s pat "[]"] by blast
  show ?thesis using a b ib c d e by blast
qed

lemmas chart_defs =
  GetChangedCharts_def IsHelmChart_def GetChartInfo_def VersionMatchesPattern_def
  filepath_Clean_def filepath_Join_def strings_Split_def Let_def unreadable_def

text \<open>An instance: the manifest of \<open>charts/a\<close> cannot be read; the scan returns no chart
  and no error, and logs the failure.\<close>

theorem unreadable_manifest_skipped_witness:
  "unreadable (demo_env demo_git (demo_files ''0.0.0-dev'') (\<lambda>n. None)) demo_state ''charts/a''
   \<and> fst (GetChangedCharts (demo_env demo_git (demo_files ''0.0.0-dev'') (\<lambda>n. None))
             (NewChartManager ''charts'') [''charts/a/values.yaml''] default_version_pattern
             demo_state) = Inr []
   \<and> logs (snd (GetChangedCharts (demo_env demo_git (demo_files ''0.0.0-dev'') (\<lambda>n. None))
             (NewChartManager ''charts'') [''charts/a/values.yaml''] default_version_pattern
             demo_state))
       = [Printf ''Error getting chart info for charts/a: failed to read chart file charts/a/Chart.yaml: permission denied'']"
proof -
  let ?env = "demo_env demo_git (demo_files ''0.0.0-dev'') (\<lambda>n. None)"
  let ?cm = "NewChartManager ''charts''"
  let ?files = "[''charts/a/values.yaml'']"
  note th = unreadable_manifest_skipped [of ?env "''charts/a''" demo_state default_version_pattern "[]" "[]"
      ?cm ?files undefined]
  have k: "range_keys ?env (GetChangedCharts_chartDirs ?cm ?files Map.empty) = [''charts/a'']"
    by (auto simp: demo_defs chart_defs)
  have u: "unreadable ?env demo_state ''charts/a''"
    by (simp add: demo_defs chart_defs)
  have hu: "IsHelmChart ?env ''charts/a'' demo_state
      \<and> GetChartInfo ?env ''charts/a'' demo_state
          = Inl ''failed to read chart file charts/a/Chart.yaml: permission denied''"
    by (simp add: demo_defs chart_defs)
  have all: "\<forall>d\<in>set (range_keys ?env (GetChangedCharts_chartDirs ?cm ?files Map.empty)).
          unreadable ?env demo_state d"
    unfolding k using u by simp
  have c1: "fst (GetChangedCharts ?env ?cm ?files default_version_pattern demo_state) = Inr []"
    by (rule th [THEN conjunct2, THEN conjunct2, THEN conjunct2, THEN conjunct2,
                 THEN conjunct1, THEN mp, OF all])
  have step: "GetChangedCharts_range ?env default_version_pattern [''charts/a''] [] demo_state =
         GetChangedCharts_range ?env default_version_pattern [] []
           (logPrintf (''Error getting chart info for '' @ ''charts/a'' @ '': ''
               @ ''failed to read chart file charts/a/Chart.yaml: permission denied'') demo_state)"
    by (rule th [THEN conjunct1, rule_format, OF hu, THEN conjunct1])
  have c2: "logs (snd (GetChangedCharts ?env ?cm ?files default_version_pattern demo_state))
       = [Printf ''Error getting chart info for charts/a: failed to read chart file charts/a/Chart.yaml: permission denied'']"
    unfolding GetChangedCharts_def Let_def k step
    by (simp add: logPrintf_def demo_state_def)
  show ?thesis using u c1 c2 by simp
qed

section \<open>The calls that a run makes\<close>

lemma appends_refl [simp]: "appends s s P"
  by (simp add: appends_def)

lemma appends_same_calls: "calls s' = calls s \<Longrightarrow> appends s s' P"
  by (simp add: appends_def)

lemma appends_trans: "appends s s1 P \<Longrightarrow> appends s1 s2 P \<Longrightarrow> appends s s2 P"
  by (auto simp: appends_def)

lemma appends_mono: "appends s s' P \<Longrightarrow> (\<And>opn. P opn \<Longrightarrow> Q opn) \<Longrightarrow> appends s s' Q"
  by (auto simp: appends_def)

lemma appends_logPrintf [simp]: "appends s (logPrintf l s') P = appends s s' P"
  by (simp add: appends_def)

lemma appends_logInfo [simp]: "appends s (logInfo v m a s') P = appends s s' P"
  by (simp add: appends_def)

lemma appends_logError [simp]: "appends s (logError e m a s') P = appends s s' P"
  by (simp add: appends_def)

lemma appends_logs_update [simp]: "appends s (s'\<lparr>logs := l\<rparr>) P = appends s s' P"
  by (simp add: appends_def)

lemma appends_new_calls: "appends s s' P \<Longrightarrow> \<forall>c\<in>set (new_calls s s'). P (call_op c)"
  by (auto simp: appends_def new_calls_def)

lemma invoke_appends: "invoke opn f s = (r, s') \<Longrightarrow> P opn \<Longrightarrow> appends s s' P"
  by (auto simp: invoke_def appends_def split: prod.splits)

lemma invoke_value_appends: "invoke_value opn f s = (r, s') \<Longrightarrow> P opn \<Longrightarrow> appends s s' P"
  by (auto simp: invoke_value_def appends_def split: prod.splits sum.splits)

lemma runGitCommand_appends:
  assumes "runGitCommand env g args s = (r, s')" and "P (Git (RepoPath g) args)"
  shows "appends s s' P"
proof -
  obtain r1 s1 where i: "invoke_value (Git (RepoPath g) args) (exec_git env (RepoPath g) args) s = (r1, s1)"
    by (cases "invoke_value (Git (RepoPath g) args) (exec_git env (RepoPath g) args) s") auto
  have "s' = s1" using assms(1) i by (cases r1) (simp_all add: runGitCommand_def)
  then show ?thesis using invoke_value_appends [OF i, of P] assms(2) by simp
qed

lemma FetchTags_appends:
  assumes "FetchTags env g s = (r, s')" and "P (Git (RepoPath g) [''fetch'', ''--tags''])"
  shows "appends s s' P"
proof -
  obtain r1 s1 where i: "runGitCommand env g [''fetch'', ''--tags''] s = (r1, s1)"
    by (cases "runGitCommand env g [''fetch'', ''--tags''] s") auto
  have a: "appends s s1 P" using assms(2) by (rule runGitCommand_appends [OF i, of P])
  show ?thesis using assms(1) i a by (cases r1) (auto simp: FetchTags_def)
qed

lemma GetCurrentBranch_appends:
  "GetCurrentBranch env g s = (r, s') \<Longrightarrow> P (Git (RepoPath g) [''rev-parse'', ''--abbrev-ref'', ''HEAD''])
    \<Longrightarrow> appends s s' P"
  unfolding GetCurrentBranch_def by (rule runGitCommand_appends)

lemma not_commit_git:
  "args \<noteq> [] \<Longrightarrow> hd args \<notin> set [''add'', ''commit'', ''push''] \<Longrightarrow> \<not> is_deletion (Git dir args)"
  by simp

lemma GetLatestTag_appends:
  assumes "GetLatestTag env g baseBranch s = (r, s')"
  shows "appends s s' (\<lambda>opn. \<not> is_deletion opn)"
proof -
  let ?P = "\<lambda>opn. \<not> is_deletion opn"
  obtain r1 s1 where f: "FetchTags env g s = (r1, s1)" by (cases "FetchTags env g s") auto
  obtain r2 s2 where c: "GetCurrentBranch env g s1 = (r2, s2)"
    by (cases "GetCurrentBranch env g s1") auto
  have a1: "appends s s1 ?P" by (rule FetchTags_appends [OF f]) simp
  have a2: "appends s1 s2 ?P" by (rule GetCurrentBranch_appends [OF c]) simp
  have a12: "appends s s2 ?P" by (rule appends_trans [OF a1 a2])
  show ?thesis
  proof (cases r2)
    case (Inl err)
    then have "s' = s2" using assms f c by (simp add: GetLatestTag_def)
    then show ?thesis using a12 by simp
  next
    case (Inr currentBranch)
    obtain r3 s3 where d: "runGitCommand env g [''describe'', ''--tags'', ''--abbrev=0'', ''HEAD~''] s2 = (r3, s3)"
      by (cases "runGitCommand env g [''describe'', ''--tags'', ''--abbrev=0'', ''HEAD~''] s2") auto
    have a3: "appends s2 s3 ?P" by (rule runGitCommand_appends [OF d]) simp
    have a13: "appends s s3 ?P" by (rule appends_trans [OF a12 a3])
    show ?thesis
    proof (cases r3)
      case (Inr latestTag)
      then have "s' = s3" using assms f c d \<open>r2 = Inr currentBranch\<close> by (simp add: GetLatestTag_def)
      then show ?thesis using a13 by simp
    next
      case (Inl err)
      show ?thesis
      proof (cases "currentBranch = baseBranch")
        case True
        then have e: "runGitCommand env g [''rev-list'', ''--max-parents=0'', ''--first-parent'', ''HEAD''] s3 = (r, s')"
          using assms f c d Inl \<open>r2 = Inr currentBranch\<close> by (simp add: GetLatestTag_def)
        have "appends s3 s' ?P" by (rule runGitCommand_appends [OF e]) simp
        then show ?thesis using a13 appends_trans by blast
      next
        case False
        then have e: "runGitCommand env g [''merge-base'', ''HEAD'', baseBranch] s3 = (r, s')"
          using assms f c d Inl \<open>r2 = Inr currentBranch\<close> by (simp add: GetLatestTag_def)
        have "appends s3 s' ?P" by (rule runGitCommand_appends [OF e]) simp
        then show ?thesis using a13 appends_trans by blast
      qed
    qed
  qed
qed

lemma GetChangedFiles_appends:
  assumes "GetChangedFiles env g sinceCommit pathFilter s = (r, s')"
  shows "appends s s' (\<lambda>opn. \<not> is_deletion opn)"
proof -
  let ?args = "[''diff'', ''--find-renames'', ''--name-only'', sinceCommit]
                   @ (if pathFilter \<noteq> [] then [''--'', pathFilter] else [])"
  obtain r1 s1 where d: "runGitCommand env g ?args s = (r1, s1)"
    by (cases "runGitCommand env g ?args s") auto
  have "appends s s1 (\<lambda>opn. \<not> is_deletion opn)"
    by (rule runGitCommand_appends [OF d]) simp
  moreover have "s' = s1"
    using assms d by (cases r1) (auto simp: GetChangedFiles_def Let_def split: if_splits)
  ultimately show ?thesis by simp
qed

lemma manager_CheckAuthentication_appends:
  "manager_CheckAuthentication env s = (r, s') \<Longrightarrow> appends s s' (\<lambda>opn. \<not> is_deletion opn)"
  by (auto simp: manager_CheckAuthentication_def appends_def split: prod.splits)

lemma changedFiles_appends:
  assumes "deleteSpecificReleases_changedFiles env fl s = (r, s')"
  shows "appends s s' (\<lambda>opn. \<not> is_deletion opn)"
proof -
  let ?P = "\<lambda>opn. \<not> is_deletion opn"
  obtain r1 s1 where n: "invoke (NewChartReleaseManager (flag_repository fl)) (mgr_New env (flag_repository fl)) s = (r1, s1)"
    by (cases "invoke (NewChartReleaseManager (flag_repository fl)) (mgr_New env (flag_repository fl)) s") auto
  have a1: "appends s s1 ?P" by (rule invoke_appends [OF n]) simp
  show ?thesis
  proof (cases r1)
    case (Some err)
    then have "s' = s1" using assms n by (simp add: deleteSpecificReleases_changedFiles_def)
    then show ?thesis using a1 by simp
  next
    case None
    obtain au s2 where c: "manager_CheckAuthentication env s1 = (au, s2)"
      by (cases "manager_CheckAuthentication env s1") auto
    have a2: "appends s s2 ?P"
      by (rule appends_trans [OF a1 manager_CheckAuthentication_appends [OF c]])
    show ?thesis
    proof (cases au)
      case False
      then have "s' = s2" using assms n c None by (simp add: deleteSpecificReleases_changedFiles_def)
      then show ?thesis using a2 by simp
    next
      case True
      obtain r3 s3 where t: "GetLatestTag env (NewGit ''.'') (flag_baseBranch fl) s2 = (r3, s3)"
        by (cases "GetLatestTag env (NewGit ''.'') (flag_baseBranch fl) s2") auto
      have a3: "appends s s3 ?P"
        by (rule appends_trans [OF a2 GetLatestTag_appends [OF t]])
      show ?thesis
      proof (cases r3)
        case (Inl err)
        then have "s' = s3" using assms n c None True t
          by (simp add: deleteSpecificReleases_changedFiles_def)
        then show ?thesis using a3 by simp
      next
        case (Inr latestTag)
        let ?s4 = "logPrintf (''Discovering changes since '' @ latestTag @ ''...'') s3"
        obtain r5 s5 where f: "GetChangedFiles env (NewGit ''.'') latestTag (flag_chartDir fl) ?s4 = (r5, s5)"
          by (cases "GetChangedFiles env (NewGit ''.'') latestTag (flag_chartDir fl) ?s4") auto
        have a4: "appends s ?s4 ?P" using a3 by simp
        have a5: "appends s s5 ?P"
          by (rule appends_trans [OF a4 GetChangedFiles_appends [OF f]])
        have "s' = s5" using assms n c None True t Inr f
          by (cases r5) (simp_all add: deleteSpecificReleases_changedFiles_def)
        then show ?thesis using a5 by simp
      qed
    qed
  qed
qed

section \<open>Fail-closed validation\<close>

lemma GetChangedCharts_fail_closed:
  assumes "range_ok env (GetChangedCharts_chartDirs cm changedFiles Map.empty)"
    and "d \<in> dom (GetChangedCharts_chartDirs cm changedFiles Map.empty)"
    and "IsHelmChart env d s" and "GetChartInfo env d s = Inr ci"
    and "VersionMatchesPattern (regexp env) (ChartInfo.Version ci) pat \<noteq> Inr True"
  shows "isl (fst (GetChangedCharts env cm changedFiles pat s))"
proof -
  have "d \<in> set (range_keys env (GetChangedCharts_chartDirs cm changedFiles Map.empty))"
    using assms(1,2) by (simp add: range_ok_def)
  from range_fail_closed [OF this assms(3,4,5)]
  show ?thesis by (simp add: GetChangedCharts_def)
qed

lemma GetChangedCharts_calls:
  "calls (snd (GetChangedCharts env cm changedFiles pat s)) = calls s"
  by (simp add: GetChangedCharts_def range_snd_world)

lemma deleteSpecificReleases_abort:
  assumes "deleteSpecificReleases_changedFiles env fl s0 = (Inr changedFiles, s)"
    and "isl (fst (GetChangedCharts env (NewChartManager (flag_chartDir fl)) changedFiles
                     (flag_versionPattern fl) s))"
  shows "(\<exists>err. fst (deleteSpecificReleases env fl s0) = Some (''failed to get changed charts: '' @ err))
     \<and> (\<forall>c\<in>set (new_calls s0 (snd (deleteSpecificReleases env fl s0))). \<not> is_deletion (call_op c))"
proof -
  let ?g = "GetChangedCharts env (NewChartManager (flag_chartDir fl)) changedFiles (flag_versionPattern fl) s"
  obtain err s6 where g: "?g = (Inl err, s6)"
    using assms(2) by (cases ?g) (auto simp: isl_def)
  have r: "deleteSpecificReleases env fl s0 = (Some (''failed to get changed charts: '' @ err), s6)"
    using assms(1) g by (simp add: deleteSpecificReleases_def)
  have c6: "calls s6 = calls s"
    using GetChangedCharts_calls [of env "NewChartManager (flag_chartDir fl)" changedFiles
        "flag_versionPattern fl" s] g by simp
  have "appends s0 s (\<lambda>opn. \<not> is_deletion opn)"
    by (rule changedFiles_appends [OF assms(1)])
  then have "appends s0 s6 (\<lambda>opn. \<not> is_deletion opn)"
    using c6 by (simp add: appends_def)
  then have "\<forall>c\<in>set (new_calls s0 s6). \<not> is_deletion (call_op c)"
    by (rule appends_new_calls)
  then show ?thesis using r by simp
qed

text \<open>
  C1. Fail-closed validation: for every list of changed files, if a candidate chart
  directory, a key of \<open>chartDirs\<close>, has a \<open>Chart.yaml\<close> that is read and parsed and whose
  version does not pass the check against the pattern, then \<open>GetChangedCharts\<close> returns
  an error and no chart list, in whatever order the candidates are visited; and
  \<open>deleteSpecificReleases\<close>, when these are the changed files it got from \<open>git\<close>, returns
  that error having made no call that deletes a release or a tag, writes the index file
  or commits it.
\<close>

theorem fail_closed_validation:
  assumes "range_ok env (GetChangedCharts_chartDirs cm changedFiles Map.empty)"
    and "d \<in> dom (GetChangedCharts_chartDirs cm changedFiles Map.empty)"
    and "IsHelmChart env d s" and "GetChartInfo env d s = Inr ci"
    and "VersionMatchesPattern (regexp env) (ChartInfo.Version ci) pat \<noteq> Inr True"
  shows "isl (fst (GetChangedCharts env cm changedFiles pat s))
     \<and> (\<forall>fl s0. cm = NewChartManager (flag_chartDir fl) \<and> pat = flag_versionPattern fl
            \<and> deleteSpecificReleases_changedFiles env fl s0 = (Inr changedFiles, s) \<longrightarrow>
           (\<exists>err. fst (deleteSpecificReleases env fl s0) =
                    Some (''failed to get changed charts: '' @ err))
           \<and> (\<forall>c\<in>set (new_calls s0 (snd (deleteSpecificReleases env fl s0))).
                 \<not> is_deletion (call_op c)))"
proof -
  have a: "isl (fst (GetChangedCharts env cm changedFiles pat s))"
    by (rule GetChangedCharts_fail_closed [OF assms])
  show ?thesis
  proof (intro conjI allI impI)
    show "isl (fst (GetChangedCharts env cm changedFiles pat s))" by (rule a)
  next
    fix fl s0
    assume h: "cm = NewChartManager (flag_chartDir fl) \<and> pat = flag_versionPattern fl
            \<and> deleteSpecificReleases_changedFiles env fl s0 = (Inr changedFiles, s)"
    then have cf: "deleteSpecificReleases_changedFiles env fl s0 = (Inr changedFiles, s)"
      and e: "isl (fst (GetChangedCharts env (NewChartManager (flag_chartDir fl)) changedFiles
                     (flag_versionPattern fl) s))"
      using a by simp_all
    from deleteSpecificReleases_abort [OF cf e]
    show "\<exists>err. fst (deleteSpecificReleases env fl s0) =
                    Some (''failed to get changed charts: '' @ err)" by blast
    from deleteSpecificReleases_abort [OF cf e]
    show "\<forall>c\<in>set (new_calls s0 (snd (deleteSpecificReleases env fl s0))).
                 \<not> is_deletion (call_op c)" by blast
  qed
qed

lemmas main_defs =
  deleteSpecificReleases_changedFiles_def manager_CheckAuthentication_def GetChangedFiles_def
  demo_flags_def

text \<open>An instance, the negative scenario of the specification: chart \<open>b\<close> changed and
  has version \<open>1.0.0\<close> under the pattern \<open>^0\.0\.0-dev$\<close>; the command fails and deletes
  nothing.\<close>

theorem fail_closed_validation_witness:
  "isl (fst (GetChangedCharts (demo_env demo_git (demo_files ''1.0.0'') (\<lambda>n. None))
               (NewChartManager ''charts'') [''charts/a/values.yaml'', ''charts/b/Chart.yaml'']
               default_version_pattern
               (snd (deleteSpecificReleases_changedFiles
                       (demo_env demo_git (demo_files ''1.0.0'') (\<lambda>n. None)) demo_flags demo_state))))
   \<and> fst (deleteSpecificReleases (demo_env demo_git (demo_files ''1.0.0'') (\<lambda>n. None)) demo_flags
             demo_state) \<noteq> None
   \<and> filter (\<lambda>c. is_deletion (call_op c))
        (new_calls demo_state
           (snd (deleteSpecificReleases (demo_env demo_git (demo_files ''1.0.0'') (\<lambda>n. None))
                   demo_flags demo_state))) = []"
proof -
  let ?env = "demo_env demo_git (demo_files ''1.0.0'') (\<lambda>n. None)"
  let ?cm = "NewChartManager ''charts''"
  let ?files = "[''charts/a/values.yaml'', ''charts/b/Chart.yaml'']"
  let ?s = "snd (deleteSpecificReleases_changedFiles ?env demo_flags demo_state)"
  let ?ci = "\<lparr>Path = ''charts/b'', Name = ''b'', Version = ''1.0.0''\<rparr>"
  have dirs: "GetChangedCharts_chartDirs ?cm ?files Map.empty
      = [''charts/a'' \<mapsto> True, ''charts/b'' \<mapsto> True]"
    by (simp add: demo_defs chart_defs)
  have h1: "range_ok ?env (GetChangedCharts_chartDirs ?cm ?files Map.empty)"
    unfolding dirs by (auto simp: range_ok_def demo_defs)
  have h2: "''charts/b'' \<in> dom (GetChangedCharts_chartDirs ?cm ?files Map.empty)"
    unfolding dirs by simp
  have h3: "IsHelmChart ?env ''charts/b'' ?s"
    by (simp add: demo_defs chart_defs)
  have h4: "GetChartInfo ?env ''charts/b'' ?s = Inr ?ci"
    by (simp add: demo_defs chart_defs)
  have m: "VersionMatchesPattern regexp_fragment ''1.0.0'' default_version_pattern = Inr False"
    by code_simp
  have h5: "VersionMatchesPattern (regexp ?env) (ChartInfo.Version ?ci) default_version_pattern \<noteq> Inr True"
    using m by (simp add: demo_env_def)
  have cf: "deleteSpecificReleases_changedFiles ?env demo_flags demo_state = (Inr ?files, ?s)"
    by (simp add: prod_eq_iff demo_defs main_defs git_defs strings_Split_def)
  note th = fail_closed_validation [OF h1 h2 h3 h4 h5]
  have c1: "isl (fst (GetChangedCharts ?env ?cm ?files default_version_pattern ?s))"
    by (rule th [THEN conjunct1])
  have pre: "?cm = NewChartManager (flag_chartDir demo_flags)
       \<and> default_version_pattern = flag_versionPattern demo_flags
       \<and> deleteSpecificReleases_changedFiles ?env demo_flags demo_state = (Inr ?files, ?s)"
    using cf by (simp add: demo_flags_def)
  note w = th [THEN conjunct2, rule_format, OF pre]
  have c2: "fst (deleteSpecificReleases ?env demo_flags demo_state) \<noteq> None"
    using w [THEN conjunct1] by auto
  have c3: "filter (\<lambda>c. is_deletion (call_op c))
        (new_calls demo_state (snd (deleteSpecificReleases ?env demo_flags demo_state))) = []"
    using w [THEN conjunct2] by (simp add: filter_empty_conv)
  show ?thesis using c1 c2 c3 by simp
qed

section \<open>Writing the index back\<close>

subsection \<open>What the loop of \<open>CleanMultipleChartIndexes\<close> removes\<close>






subsection \<open>The calls of the steps\<close>

lemma new_calls_mono:
  "appends s s1 P \<Longrightarrow> appends s1 s2 Q \<Longrightarrow> set (new_calls s s1) \<subseteq> set (new_calls s s2)"
  by (auto simp: appends_def new_calls_def)


lemma runGitCommand_calls:
  "\<exists>e. calls (snd (runGitCommand env g args s)) = calls s @ [Call (Git (RepoPath g) args) e]
       \<and> (isl (fst (runGitCommand env g args s)) \<longleftrightarrow> e \<noteq> None)"
proof (cases "exec_git env (RepoPath g) args (world s)")
  case (Pair r w)
  then show ?thesis by (cases r) (simp_all add: runGitCommand_def invoke_value_def)
qed

















subsection \<open>The cycle of \<open>CleanMultipleChartIndexes\<close>\<close>



subsection \<open>The cycle of \<open>CleanEntriesVersions\<close>\<close>






subsection \<open>Preparing the pages branch and restoring the original branch\<close>

lemma CheckoutBranch_snd:
  "snd (CheckoutBranch env g branch s) = snd (runGitCommand env g [''checkout'', branch] s)"
  by (cases "runGitCommand env g [''checkout'', branch] s";
      cases "fst (runGitCommand env g [''checkout'', branch] s)"; simp add: CheckoutBranch_def)


lemma BranchExists_snd:
  "snd (BranchExists env g branch s) = snd (runGitCommand env g [''ls-remote'', ''--heads'', ''origin'', branch] s)"
  by (cases "runGitCommand env g [''ls-remote'', ''--heads'', ''origin'', branch] s";
      cases "fst (runGitCommand env g [''ls-remote'', ''--heads'', ''origin'', branch] s)"; simp add: BranchExists_def)


lemma FetchBranch_snd:
  "snd (FetchBranch env g branch s) = snd (runGitCommand env g [''fetch'', ''origin'', branch] s)"
  by (cases "runGitCommand env g [''fetch'', ''origin'', branch] s";
      cases "fst (runGitCommand env g [''fetch'', ''origin'', branch] s)"; simp add: FetchBranch_def)


lemma PullBranch_snd:
  "snd (PullBranch env g branch s) = snd (runGitCommand env g [''pull'', ''origin'', branch] s)"
  by (cases "runGitCommand env g [''pull'', ''origin'', branch] s";
      cases "fst (runGitCommand env g [''pull'', ''origin'', branch] s)"; simp add: PullBranch_def)
















subsection \<open>Write-back and commit\<close>






section \<open>Deleting all releases\<close>

lemma invoke_calls:
  "invoke opn f s = (r, s') \<Longrightarrow> calls s' = calls s @ [Call opn r] \<and> logs s' = logs s"
  by (auto simp: invoke_def split: prod.splits)

lemma deleteAllReleases_loop_trace:
  "\<exists>cs. calls (deleteAllReleases_loop env fl releases s) = calls s @ cs
      \<and> map call_op cs = concat (map (release_ops fl) releases)
      \<and> logs (deleteAllReleases_loop env fl releases s) = logs s @ concat (map failure_line cs)"
proof (induction releases arbitrary: s)
  case Nil
  then show ?case by simp
next
  case (Cons r rs)
  let ?d = "invoke (DeleteRelease (ID r) (Release.Name r)) (mgr_DeleteRelease env (ID r) (Release.Name r)) s"
  obtain e1 sa where d: "?d = (e1, sa)" by (cases ?d) auto
  note da = invoke_calls [OF d]
  let ?s1 = "case e1 of Some err \<Rightarrow> logPrintf (''Failed to delete release '' @ Release.Name r @ '': '' @ err) sa
             | None \<Rightarrow> sa"
  have s1c: "calls ?s1 = calls s @ [Call (DeleteRelease (ID r) (Release.Name r)) e1]"
    using da by (cases e1) simp_all
  have s1l: "logs ?s1 = logs s @ failure_line (Call (DeleteRelease (ID r) (Release.Name r)) e1)"
    using da by (cases e1) (simp_all add: logPrintf_def)
  show ?case
  proof (cases "flag_withTags fl \<and> TagName r \<noteq> []")
    case False
    have step: "deleteAllReleases_loop env fl (r # rs) s = deleteAllReleases_loop env fl rs ?s1"
      using False d by (cases e1) (auto simp: Let_def)
    obtain cs where cs: "calls (deleteAllReleases_loop env fl rs ?s1) = calls ?s1 @ cs"
      "map call_op cs = concat (map (release_ops fl) rs)"
      "logs (deleteAllReleases_loop env fl rs ?s1) = logs ?s1 @ concat (map failure_line cs)"
      using Cons.IH [of ?s1] by blast
    let ?cs = "Call (DeleteRelease (ID r) (Release.Name r)) e1 # cs"
    have "calls (deleteAllReleases_loop env fl (r # rs) s) = calls s @ ?cs"
      unfolding step cs(1) s1c by simp
    moreover have "map call_op ?cs = concat (map (release_ops fl) (r # rs))"
      using cs(2) False by (auto simp: release_ops_def)
    moreover have "logs (deleteAllReleases_loop env fl (r # rs) s) = logs s @ concat (map failure_line ?cs)"
      unfolding step cs(3) s1l by simp
    ultimately show ?thesis by blast
  next
    case True
    let ?t = "invoke (DeleteTag (TagName r)) (mgr_DeleteTag env (TagName r)) ?s1"
    obtain e2 sb where t: "?t = (e2, sb)" by (cases ?t) auto
    note tb = invoke_calls [OF t]
    let ?s2 = "case e2 of Some err \<Rightarrow> logPrintf (''Failed to delete tag '' @ TagName r @ '': '' @ err) sb
               | None \<Rightarrow> sb"
    have s2c: "calls ?s2 = calls ?s1 @ [Call (DeleteTag (TagName r)) e2]"
      using tb by (cases e2) simp_all
    have s2l: "logs ?s2 = logs ?s1 @ failure_line (Call (DeleteTag (TagName r)) e2)"
      using tb by (cases e2) (simp_all add: logPrintf_def)
    have step: "deleteAllReleases_loop env fl (r # rs) s = deleteAllReleases_loop env fl rs ?s2"
    proof -
      have "deleteAllReleases_loop env fl (r # rs) s =
          deleteAllReleases_loop env fl rs
            (case invoke (DeleteTag (TagName r)) (mgr_DeleteTag env (TagName r)) ?s1 of
               (Some err, s2) \<Rightarrow> logPrintf (''Failed to delete tag '' @ TagName r @ '': '' @ err) s2
             | (None, s2) \<Rightarrow> s2)"
        using True d by (cases e1) (simp_all add: Let_def)
      then show ?thesis unfolding t by (cases e2) simp_all
    qed
    obtain cs where cs: "calls (deleteAllReleases_loop env fl rs ?s2) = calls ?s2 @ cs"
      "map call_op cs = concat (map (release_ops fl) rs)"
      "logs (deleteAllReleases_loop env fl rs ?s2) = logs ?s2 @ concat (map failure_line cs)"
      using Cons.IH [of ?s2] by blast
    let ?cs = "Call (DeleteRelease (ID r) (Release.Name r)) e1 # Call (DeleteTag (TagName r)) e2 # cs"
    have "calls (deleteAllReleases_loop env fl (r # rs) s) = calls s @ ?cs"
      unfolding step cs(1) s2c s1c by simp
    moreover have "map call_op ?cs = concat (map (release_ops fl) (r # rs))"
      using cs(2) True by (auto simp: release_ops_def)
    moreover have "logs (deleteAllReleases_loop env fl (r # rs) s) = logs s @ concat (map failure_line ?cs)"
      unfolding step cs(3) s2l s1l by simp
    ultimately show ?thesis by blast
  qed
qed

lemma new_calls_append: "calls s' = calls s @ cs \<Longrightarrow> new_calls s s' = cs"
  by (simp add: new_calls_def)

subsection \<open>What follows the loop of \<open>deleteAllReleases\<close>\<close>

text \<open>The cleanup of the index, which may follow the loop, only adds calls and log
  lines.\<close>

lemma grows_refl [simp]: "grows s s"
  by (simp add: grows_def)

lemma grows_trans: "grows s s1 \<Longrightarrow> grows s1 s2 \<Longrightarrow> grows s s2"
  by (auto simp: grows_def prefix_def)

lemma grows_logPrintf: "grows s s' \<Longrightarrow> grows s (logPrintf l s')"
  by (auto simp: grows_def logPrintf_def prefix_def)

lemma runGitCommand_logs: "logs (snd (runGitCommand env g args s)) = logs s"
proof (cases "exec_git env (RepoPath g) args (world s)")
  case (Pair r w)
  then show ?thesis by (cases r) (simp_all add: runGitCommand_def invoke_value_def)
qed

lemma runGitCommand_grows: "grows s (snd (runGitCommand env g args s))"
  using runGitCommand_calls [of env g args s] runGitCommand_logs [of env g args s]
  by (auto simp: grows_def)

lemma invoke_grows: "grows s (snd (invoke opn f s))"
  by (cases "f (world s)") (simp add: invoke_def grows_def)

lemma invoke_value_grows: "grows s (snd (invoke_value opn f s))"
proof (cases "f (world s)")
  case (Pair r w)
  then show ?thesis by (cases r) (simp_all add: invoke_value_def grows_def)
qed

lemma CheckoutBranch_grows: "grows s (snd (CheckoutBranch env g branch s))"
  unfolding CheckoutBranch_snd by (rule runGitCommand_grows)

lemma BranchExists_grows: "grows s (snd (BranchExists env g branch s))"
  unfolding BranchExists_snd by (rule runGitCommand_grows)

lemma FetchBranch_grows: "grows s (snd (FetchBranch env g branch s))"
  unfolding FetchBranch_snd by (rule runGitCommand_grows)

lemma PullBranch_grows: "grows s (snd (PullBranch env g branch s))"
  unfolding PullBranch_snd by (rule runGitCommand_grows)

lemma GetCurrentBranch_grows: "grows s (snd (GetCurrentBranch env g s))"
  unfolding GetCurrentBranch_def by (rule runGitCommand_grows)

lemma RestoreOriginalBranch_grows: "grows s (snd (RestoreOriginalBranch env cim s))"
  by (simp add: RestoreOriginalBranch_def CheckoutBranch_grows)

lemma HasChanges_grows: "grows s (snd (HasChanges env g f s))"
proof -
  have "snd (HasChanges env g f s) = snd (runGitCommand env g [''diff'', ''--quiet'', f] s)"
    by (cases "runGitCommand env g [''diff'', ''--quiet'', f] s";
        cases "fst (runGitCommand env g [''diff'', ''--quiet'', f] s)"; simp add: HasChanges_def)
  then show ?thesis by (simp add: runGitCommand_grows)
qed

lemma CommitAndPush_grows: "grows s (snd (CommitAndPush env g f m b s))"
proof -
  obtain r1 s1 where 1: "runGitCommand env g [''add'', f] s = (r1, s1)"
    by (cases "runGitCommand env g [''add'', f] s") auto
  obtain r2 s2 where 2: "runGitCommand env g [''commit'', ''-m'', m] s1 = (r2, s2)"
    by (cases "runGitCommand env g [''commit'', ''-m'', m] s1") auto
  obtain r3 s3 where 3: "runGitCommand env g [''push'', ''origin'', b] s2 = (r3, s3)"
    by (cases "runGitCommand env g [''push'', ''origin'', b] s2") auto
  have a1: "grows s s1" using runGitCommand_grows [of s env g "[''add'', f]"] 1 by simp
  have a2: "grows s1 s2" using runGitCommand_grows [of s1 env g "[''commit'', ''-m'', m]"] 2 by simp
  have a3: "grows s2 s3" using runGitCommand_grows [of s2 env g "[''push'', ''origin'', b]"] 3 by simp
  note a12 = grows_trans [OF a1 a2]
  note a13 = grows_trans [OF a12 a3]
  show ?thesis using 1 2 3 a1 a12 a13
    by (cases r1; cases r2; cases r3; simp add: CommitAndPush_def)
qed

lemma writeIndexFile_grows: "grows s (snd (writeIndexFile env indexFile s))"
proof (cases "yaml_Marshal_IndexFile env indexFile")
  case (Inl err)
  then show ?thesis by (simp add: writeIndexFile_def)
next
  case (Inr data)
  obtain e s1 where i: "invoke (WriteFile ''index.yaml'') (os_WriteFile env ''index.yaml'' data) s = (e, s1)"
    by (cases "invoke (WriteFile ''index.yaml'') (os_WriteFile env ''index.yaml'' data) s") auto
  have "grows s s1"
    using invoke_grows [of s "WriteFile ''index.yaml''" "os_WriteFile env ''index.yaml'' data"] i by simp
  then show ?thesis using Inr i by (cases e) (simp_all add: writeIndexFile_def)
qed

lemma PreparePagesBranch_grows:
  "grows s (snd (snd (PreparePagesBranch env cim s)))"
proof -
  let ?g = "GitOps cim"
  let ?p = "ChartIndexManager.PagesBranch cim"
  obtain r1 s1 where 1: "GetCurrentBranch env ?g s = (r1, s1)"
    by (cases "GetCurrentBranch env ?g s") auto
  have a1: "grows s s1" using GetCurrentBranch_grows [of s env ?g] 1 by simp
  show ?thesis
  proof (cases r1)
    case (Inl err)
    then show ?thesis using 1 a1 by (simp add: PreparePagesBranch_def)
  next
    case (Inr currentBranch)
    let ?cim1 = "cim\<lparr>ChartIndexManager.OriginalBranch := currentBranch\<rparr>"
    obtain ex s2 where 2: "BranchExists env ?g ?p s1 = (ex, s2)"
      by (cases "BranchExists env ?g ?p s1") auto
    have a2: "grows s s2"
      using grows_trans [OF a1 BranchExists_grows [of s1 env ?g ?p]] 2 by simp
    show ?thesis
    proof (cases ex)
      case False
      then show ?thesis using 1 Inr 2 a2 by (simp add: PreparePagesBranch_def grows_logPrintf)
    next
      case True
      obtain e3 s3 where 3: "FetchBranch env ?g ?p s2 = (e3, s3)"
        by (cases "FetchBranch env ?g ?p s2") auto
      have a3: "grows s s3"
        using grows_trans [OF a2 FetchBranch_grows [of s2 env ?g ?p]] 3 by simp
      show ?thesis
      proof (cases e3)
        case (Some err)
        then show ?thesis using 1 Inr 2 True 3 a3 by (simp add: PreparePagesBranch_def)
      next
        case None
        obtain e4 s4 where 4: "CheckoutBranch env ?g ?p s3 = (e4, s4)"
          by (cases "CheckoutBranch env ?g ?p s3") auto
        have a4: "grows s s4"
          using grows_trans [OF a3 CheckoutBranch_grows [of s3 env ?g ?p]] 4 by simp
        show ?thesis
        proof (cases e4)
          case (Some err)
          then show ?thesis using 1 Inr 2 True 3 None 4 a4 by (simp add: PreparePagesBranch_def)
        next
          case e4: None
          obtain e5 s5 where 5: "PullBranch env ?g ?p s4 = (e5, s5)"
            by (cases "PullBranch env ?g ?p s4") auto
          have a5: "grows s s5"
            using grows_trans [OF a4 PullBranch_grows [of s4 env ?g ?p]] 5 by simp
          define t where
            "t = (case e5 of
                    Some err \<Rightarrow> logPrintf (''Failed to pull latest changes from '' @ ?p @ '': '' @ err) s5
                  | None \<Rightarrow> s5)"
          have at: "grows s t" using a5 by (cases e5) (simp_all add: t_def grows_logPrintf)
          have a6: "grows s (snd (RestoreOriginalBranch env ?cim1 (logPrintf msg t)))" for msg
            by (rule grows_trans [OF _ RestoreOriginalBranch_grows]) (simp add: at grows_logPrintf)
          have "snd (snd (PreparePagesBranch env cim s)) = t
                \<or> (\<exists>msg. snd (snd (PreparePagesBranch env cim s))
                            = snd (RestoreOriginalBranch env ?cim1 (logPrintf msg t)))"
            using 1 Inr 2 \<open>ex\<close> 3 None 4 e4 5
            by (cases e5) (auto simp: PreparePagesBranch_def Let_def t_def split_beta)
          then show ?thesis using at a6 by auto
        qed
      qed
    qed
  qed
qed

lemma CleanAllChartIndex_cycle_grows:
  "grows s (snd (CleanAllChartIndex_cycle env cim s))"
proof (cases "loadIndexFile env s")
  case (Inl err)
  then show ?thesis by (simp add: CleanAllChartIndex_cycle_def)
next
  case (Inr indexFile0)
  let ?idx = "indexFile0\<lparr>Entries := Map.empty\<rparr>"
  obtain e1 s1 where w: "writeIndexFile env ?idx s = (e1, s1)"
    by (cases "writeIndexFile env ?idx s") auto
  have a1: "grows s s1" using writeIndexFile_grows [of s env ?idx] w by simp
  show ?thesis
  proof (cases e1)
    case (Some err)
    then show ?thesis using Inr w a1 by (simp add: CleanAllChartIndex_cycle_def)
  next
    case None
    let ?s2 = "logPrintf ''Cleared all entries from index.yaml'' s1"
    obtain changed s3 where h: "HasChanges env (GitOps cim) ''index.yaml'' ?s2 = (changed, s3)"
      by (cases "HasChanges env (GitOps cim) ''index.yaml'' ?s2") auto
    have a2: "grows s ?s2" using a1 by (rule grows_logPrintf)
    have a3: "grows s s3"
      using grows_trans [OF a2 HasChanges_grows [of ?s2 env "GitOps cim" "''index.yaml''"]] h by simp
    show ?thesis
    proof (cases changed)
      case False
      then show ?thesis using Inr w None h a3
        by (simp add: CleanAllChartIndex_cycle_def grows_logPrintf)
    next
      case True
      obtain e4 s4 where c: "CommitAndPush env (GitOps cim) ''index.yaml''
            ''Clear all chart entries from index'' (ChartIndexManager.PagesBranch cim) s3 = (e4, s4)"
        by (cases "CommitAndPush env (GitOps cim) ''index.yaml''
            ''Clear all chart entries from index'' (ChartIndexManager.PagesBranch cim) s3") auto
      have a4: "grows s s4"
        using grows_trans [OF a3 CommitAndPush_grows [of s3 env "GitOps cim" "''index.yaml''"
              "''Clear all chart entries from index''" "ChartIndexManager.PagesBranch cim"]] c by simp
      show ?thesis using Inr w None h True c a4
        by (cases e4) (simp_all add: CleanAllChartIndex_cycle_def grows_logPrintf)
    qed
  qed
qed

lemma CleanAllChartIndex_grows:
  "grows s (snd (snd (CleanAllChartIndex env cim s)))"
proof -
  let ?s1 = "logPrintf (''Cleaning up all chart index entries from '' @ ChartIndexManager.PagesBranch cim
                           @ '' branch...'') s"
  obtain e2 cim1 s2 where p: "PreparePagesBranch env cim ?s1 = (e2, cim1, s2)"
    by (cases "PreparePagesBranch env cim ?s1") auto
  have a1: "grows s ?s1" by (simp add: grows_logPrintf)
  have a2: "grows s s2"
    using grows_trans [OF a1 PreparePagesBranch_grows [of ?s1 env cim]] p by simp
  show ?thesis
  proof (cases e2)
    case (Some err)
    then show ?thesis using p a2 by (simp add: CleanAllChartIndex_def)
  next
    case None
    obtain r3 s3 where c: "CleanAllChartIndex_cycle env cim1 s2 = (r3, s3)"
      by (cases "CleanAllChartIndex_cycle env cim1 s2") auto
    have a3: "grows s s3"
      using grows_trans [OF a2 CleanAllChartIndex_cycle_grows [of s2 env cim1]] c by simp
    obtain r4 s4 where r: "RestoreOriginalBranch env cim1 s3 = (r4, s4)"
      by (cases "RestoreOriginalBranch env cim1 s3") auto
    have a4: "grows s s4"
      using grows_trans [OF a3 RestoreOriginalBranch_grows [of s3 env cim1]] r by simp
    show ?thesis using p None c r a4 by (simp add: CleanAllChartIndex_def)
  qed
qed

lemma deleteAllReleases_after_loop:
  assumes "deleteAllReleases_confirmed env fl s = (Inr releases, s6)"
  shows "fst (deleteAllReleases env fl s) = None"
    and "grows (deleteAllReleases_loop env fl releases s6) (snd (deleteAllReleases env fl s))"
    and "\<not> flag_cleanIndex fl \<Longrightarrow>
         snd (deleteAllReleases env fl s) = deleteAllReleases_loop env fl releases s6"
proof -
  let ?s7 = "deleteAllReleases_loop env fl releases s6"
  let ?cim = "NewChartIndexManager (NewGit ''.'') (flag_pagesBranch fl)"
  show "fst (deleteAllReleases env fl s) = None"
    using assms by (simp add: deleteAllReleases_def Let_def)
  show "\<not> flag_cleanIndex fl \<Longrightarrow> snd (deleteAllReleases env fl s) = ?s7"
    using assms by (simp add: deleteAllReleases_def Let_def)
  show "grows ?s7 (snd (deleteAllReleases env fl s))"
  proof (cases "flag_cleanIndex fl")
    case False
    then show ?thesis using assms by (simp add: deleteAllReleases_def Let_def)
  next
    case True
    obtain e c s8 where x: "CleanAllChartIndex env ?cim ?s7 = (e, c, s8)"
      by (cases "CleanAllChartIndex env ?cim ?s7") auto
    have "grows ?s7 s8" using CleanAllChartIndex_grows [of ?s7 env ?cim] x by simp
    then show ?thesis using assms True x
      by (cases e) (simp_all add: deleteAllReleases_def Let_def grows_logPrintf)
  qed
qed

subsection \<open>\<open>DeleteAllReleases\<close> of chart-releaser\<close>

text \<open>\<open>DeleteRelease\<close> logs two lines and returns no error, so the loop leaves the list
  \<open>errors\<close> as it was.\<close>

lemma GHClient_DeleteRelease_result:
  "GHClient_DeleteRelease gh releaseID s = (None, s\<lparr>logs := logs s @ DeleteRelease_lines releaseID\<rparr>)"
  by (simp add: GHClient_DeleteRelease_def logInfo_def DeleteRelease_lines_def)

lemma DeleteAllReleases_loop_real:
  "DeleteAllReleases_loop (GHClient_DeleteRelease gh) releases errors s =
     (errors, s\<lparr>logs := logs s @ concat (map (\<lambda>release. DeleteRelease_lines (ID release)) releases)\<rparr>)"
proof (induction releases arbitrary: s)
  case Nil
  then show ?case by simp
next
  case (Cons r rs)
  let ?s1 = "s\<lparr>logs := logs s @ DeleteRelease_lines (ID r)\<rparr>"
  have d: "GHClient_DeleteRelease gh (ID r) s = (None, ?s1)"
    by (rule GHClient_DeleteRelease_result)
  have step: "DeleteAllReleases_loop (GHClient_DeleteRelease gh) (r # rs) errors s =
      DeleteAllReleases_loop (GHClient_DeleteRelease gh) rs errors ?s1"
    unfolding DeleteAllReleases_loop.simps d by simp
  show ?case unfolding step Cons.IH by simp
qed

lemma DeleteAllReleases_with_real:
  "\<exists>s'. DeleteAllReleases_with (GHClient_DeleteRelease gh) releases s = (None, s')
        \<and> calls s' = calls s
        \<and> logs s' = logs s @
            (if releases = [] then [Printf ''No releases found to delete'']
             else concat (map (\<lambda>release. DeleteRelease_lines (ID release)) releases)
                    @ [Printf (''Successfully deleted '' @ fmt_nat (length releases) @ '' releases'')])"
  by (simp add: DeleteAllReleases_with_def DeleteAllReleases_loop_real logPrintf_def)

subsection \<open>Failures of single deletions\<close>

text \<open>
  C8, amended. Per-item recoverable deletion: in the delete-all workflow, for every list
  of releases, a failure to delete a release or its tag does not abort the run.
  \<open>deleteAllReleases\<close> of main.go runs the deletion of every release, and of its tag when
  tags are deleted and the release has one, in the order of the list, and logs one line
  for each failure; these calls and lines are part of the trace and the log with which
  the command ends. It does not aggregate the failures: once it has reached the loop it
  returns no error, and when it returns before the loop it returns with the result and the
  state it had there. \<open>DeleteAllReleases\<close> of chart-releaser goes through every release,
  but its \<open>DeleteRelease\<close> calls no API and returns no error, so no deletion fails and
  no aggregate error is returned: when the releases are listed it returns no error,
  records no call and logs two lines for each release; it returns an error exactly when
  listing the releases fails, and does not return when the listing does not end.
\<close>

theorem deleteAll_per_item_failures:
  fixes s :: "'w state" and t :: "'v state"
  shows
  "(\<forall>releases s6. deleteAllReleases_confirmed env fl s = (Inr releases, s6) \<longrightarrow>
       fst (deleteAllReleases env fl s) = None
       \<and> map call_op (new_calls s6 (deleteAllReleases_loop env fl releases s6))
           = concat (map (release_ops fl) releases)
       \<and> logs (deleteAllReleases_loop env fl releases s6)
           = logs s6 @ concat (map failure_line (new_calls s6 (deleteAllReleases_loop env fl releases s6)))
       \<and> prefix (calls (deleteAllReleases_loop env fl releases s6))
            (calls (snd (deleteAllReleases env fl s)))
       \<and> prefix (logs (deleteAllReleases_loop env fl releases s6))
            (logs (snd (deleteAllReleases env fl s)))
       \<and> (\<not> flag_cleanIndex fl \<longrightarrow>
            snd (deleteAllReleases env fl s) = deleteAllReleases_loop env fl releases s6))
   \<and> (\<forall>result s6. deleteAllReleases_confirmed env fl s = (Inl result, s6) \<longrightarrow>
         deleteAllReleases env fl s = (result, s6))
   \<and> (\<forall>releases t1.
         GHClient_GetAllReleases ienv gh
           (logPrintf (''Deleting all releases for '' @ owner gh @ ''/'' @ repo gh) t)
           = Some (Inr releases, t1) \<longrightarrow>
         (\<exists>t2. GHClient_DeleteAllReleases ienv gh t = Some (None, t2)
             \<and> calls t2 = calls t1
             \<and> logs t2 = logs t1 @
                 (if releases = [] then [Printf ''No releases found to delete'']
                  else concat (map (\<lambda>release. DeleteRelease_lines (ID release)) releases)
                         @ [Printf (''Successfully deleted '' @ fmt_nat (length releases)
                                      @ '' releases'')])))
   \<and> (\<forall>err t1.
         GHClient_GetAllReleases ienv gh
           (logPrintf (''Deleting all releases for '' @ owner gh @ ''/'' @ repo gh) t)
           = Some (Inl err, t1) \<longrightarrow>
         GHClient_DeleteAllReleases ienv gh t = Some (Some (''failed to get releases: '' @ err), t1))
   \<and> (GHClient_GetAllReleases ienv gh
           (logPrintf (''Deleting all releases for '' @ owner gh @ ''/'' @ repo gh) t) = None \<longrightarrow>
         GHClient_DeleteAllReleases ienv gh t = None)"
proof -
  have a: "\<forall>releases s6. deleteAllReleases_confirmed env fl s = (Inr releases, s6) \<longrightarrow>
       fst (deleteAllReleases env fl s) = None
       \<and> map call_op (new_calls s6 (deleteAllReleases_loop env fl releases s6))
           = concat (map (release_ops fl) releases)
       \<and> logs (deleteAllReleases_loop env fl releases s6)
           = logs s6 @ concat (map failure_line (new_calls s6 (deleteAllReleases_loop env fl releases s6)))
       \<and> prefix (calls (deleteAllReleases_loop env fl releases s6))
            (calls (snd (deleteAllReleases env fl s)))
       \<and> prefix (logs (deleteAllReleases_loop env fl releases s6))
            (logs (snd (deleteAllReleases env fl s)))
       \<and> (\<not> flag_cleanIndex fl \<longrightarrow>
            snd (deleteAllReleases env fl s) = deleteAllReleases_loop env fl releases s6)"
  proof (intro allI impI)
    fix releases s6
    assume h: "deleteAllReleases_confirmed env fl s = (Inr releases, s6)"
    let ?s7 = "deleteAllReleases_loop env fl releases s6"
    from deleteAllReleases_loop_trace [of env fl releases s6]
    obtain cs where cs: "calls ?s7 = calls s6 @ cs"
        "map call_op cs = concat (map (release_ops fl) releases)"
        "logs ?s7 = logs s6 @ concat (map failure_line cs)"
      by blast
    have nc: "new_calls s6 ?s7 = cs"
      by (rule new_calls_append [OF cs(1)])
    note after = deleteAllReleases_after_loop [OF h]
    have g: "prefix (calls ?s7) (calls (snd (deleteAllReleases env fl s)))
       \<and> prefix (logs ?s7) (logs (snd (deleteAllReleases env fl s)))"
      using after(2) by (simp add: grows_def)
    show "fst (deleteAllReleases env fl s) = None
       \<and> map call_op (new_calls s6 ?s7) = concat (map (release_ops fl) releases)
       \<and> logs ?s7 = logs s6 @ concat (map failure_line (new_calls s6 ?s7))
       \<and> prefix (calls ?s7) (calls (snd (deleteAllReleases env fl s)))
       \<and> prefix (logs ?s7) (logs (snd (deleteAllReleases env fl s)))
       \<and> (\<not> flag_cleanIndex fl \<longrightarrow> snd (deleteAllReleases env fl s) = ?s7)"
      unfolding nc using after(1,3) cs(2,3) g by simp
  qed
  have b: "\<forall>result s6. deleteAllReleases_confirmed env fl s = (Inl result, s6) \<longrightarrow>
         deleteAllReleases env fl s = (result, s6)"
    by (simp add: deleteAllReleases_def)
  let ?listing = "GHClient_GetAllReleases ienv gh
           (logPrintf (''Deleting all releases for '' @ owner gh @ ''/'' @ repo gh) t)"
  have c: "\<forall>releases t1. ?listing = Some (Inr releases, t1) \<longrightarrow>
         (\<exists>t2. GHClient_DeleteAllReleases ienv gh t = Some (None, t2)
             \<and> calls t2 = calls t1
             \<and> logs t2 = logs t1 @
                 (if releases = [] then [Printf ''No releases found to delete'']
                  else concat (map (\<lambda>release. DeleteRelease_lines (ID release)) releases)
                         @ [Printf (''Successfully deleted '' @ fmt_nat (length releases)
                                      @ '' releases'')]))"
  proof (intro allI impI)
    fix releases t1
    assume l: "?listing = Some (Inr releases, t1)"
    have e: "GHClient_DeleteAllReleases ienv gh t
               = Some (DeleteAllReleases_with (GHClient_DeleteRelease gh) releases t1)"
      using l by (simp add: GHClient_DeleteAllReleases_def)
    from DeleteAllReleases_with_real [of gh releases t1]
    show "\<exists>t2. GHClient_DeleteAllReleases ienv gh t = Some (None, t2)
             \<and> calls t2 = calls t1
             \<and> logs t2 = logs t1 @
                 (if releases = [] then [Printf ''No releases found to delete'']
                  else concat (map (\<lambda>release. DeleteRelease_lines (ID release)) releases)
                         @ [Printf (''Successfully deleted '' @ fmt_nat (length releases)
                                      @ '' releases'')])"
      unfolding e by blast
  qed
  have d: "\<forall>err t1. ?listing = Some (Inl err, t1) \<longrightarrow>
         GHClient_DeleteAllReleases ienv gh t = Some (Some (''failed to get releases: '' @ err), t1)"
    by (simp add: GHClient_DeleteAllReleases_def)
  have e: "?listing = None \<longrightarrow> GHClient_DeleteAllReleases ienv gh t = None"
    by (simp add: GHClient_DeleteAllReleases_def)
  show ?thesis using a b c d e by (intro conjI)
qed

lemmas deleteAll_defs =
  deleteAllReleases_def deleteAllReleases_confirmed_def manager_CheckAuthentication_def
  invoke_def invoke_value_def logPrintf_def demo_env_def demo_flags_def demo_state_def
  demo_releases_def demo_failing_def Let_def

text \<open>
  C8, as stated, fails on main.go: the deletion of the second release fails, the third
  release is still processed, and \<open>deleteAllReleases\<close> returns no error.
\<close>

theorem deleteAllReleases_counterexample:
  "fst (deleteAllReleases (demo_env demo_git (demo_files ''0.0.0-dev'') demo_failing) demo_flags
          demo_state) = None
   \<and> calls (snd (deleteAllReleases (demo_env demo_git (demo_files ''0.0.0-dev'') demo_failing)
                   demo_flags demo_state))
      = [Call (NewChartReleaseManager ''zncdatadev/kubedoop-helm-charts'') None,
         Call CheckAuthentication None,
         Call GetAllReleases None,
         Call (DeleteRelease 1 ''r1'') None,
         Call (DeleteTag ''t1'') None,
         Call (DeleteRelease 2 ''r2'') (Some ''HTTP 500''),
         Call (DeleteRelease 3 ''r3'') None,
         Call (DeleteTag ''t3'') None]"
  by (simp add: deleteAll_defs)

text \<open>An instance: the same run of main.go, with its calls after the confirmation and
  its log, and a run of \<open>DeleteAllReleases\<close> of chart-releaser on three releases.\<close>

theorem deleteAll_per_item_failures_witness:
  "fst (deleteAllReleases (demo_env demo_git (demo_files ''0.0.0-dev'') demo_failing) demo_flags
          demo_state) = None
   \<and> map call_op
        (new_calls (snd (deleteAllReleases_confirmed
                           (demo_env demo_git (demo_files ''0.0.0-dev'') demo_failing) demo_flags demo_state))
           (snd (deleteAllReleases (demo_env demo_git (demo_files ''0.0.0-dev'') demo_failing) demo_flags
                   demo_state)))
      = [DeleteRelease 1 ''r1'', DeleteTag ''t1'', DeleteRelease 2 ''r2'', DeleteRelease 3 ''r3'',
         DeleteTag ''t3'']
   \<and> logs (snd (deleteAllReleases (demo_env demo_git (demo_files ''0.0.0-dev'') demo_failing) demo_flags
                  demo_state))
      = [Printf ''Associated tags will also be deleted.'',
         Printf ''Failed to delete release r2: HTTP 500'']
   \<and> map_option fst (GHClient_DeleteAllReleases (demo_internal_env demo_git) demo_client demo_state)
      = Some None"
proof -
  let ?env = "demo_env demo_git (demo_files ''0.0.0-dev'') demo_failing"
  let ?s6 = "snd (deleteAllReleases_confirmed ?env demo_flags demo_state)"
  let ?s7 = "deleteAllReleases_loop ?env demo_flags demo_releases ?s6"
  note th = deleteAll_per_item_failures [where env = ?env and fl = demo_flags and s = demo_state
      and ienv = "demo_internal_env demo_git" and gh = demo_client and t = demo_state]
  have h: "deleteAllReleases_confirmed ?env demo_flags demo_state = (Inr demo_releases, ?s6)"
    by (simp add: prod_eq_iff deleteAll_defs)
  note a = th [THEN conjunct1, rule_format, OF h]
  have ops: "concat (map (release_ops demo_flags) demo_releases)
      = [DeleteRelease 1 ''r1'', DeleteTag ''t1'', DeleteRelease 2 ''r2'', DeleteRelease 3 ''r3'',
         DeleteTag ''t3'']"
    by (simp add: release_ops_def demo_releases_def demo_flags_def)
  have nci: "\<not> flag_cleanIndex demo_flags" by (simp add: demo_flags_def)
  have fin: "snd (deleteAllReleases ?env demo_flags demo_state) = ?s7"
    using a [THEN conjunct2, THEN conjunct2, THEN conjunct2, THEN conjunct2, THEN conjunct2] nci
    by simp
  have c1: "fst (deleteAllReleases ?env demo_flags demo_state) = None"
    by (rule a [THEN conjunct1])
  have c2: "map call_op (new_calls ?s6 (snd (deleteAllReleases ?env demo_flags demo_state)))
      = [DeleteRelease 1 ''r1'', DeleteTag ''t1'', DeleteRelease 2 ''r2'', DeleteRelease 3 ''r3'',
         DeleteTag ''t3'']"
    unfolding fin using a [THEN conjunct2, THEN conjunct1] ops by simp
  have l6: "logs ?s6 = [Printf ''Associated tags will also be deleted.'']"
    by (simp add: deleteAll_defs)
  have n7: "new_calls ?s6 ?s7
      = [Call (DeleteRelease 1 ''r1'') None, Call (DeleteTag ''t1'') None,
         Call (DeleteRelease 2 ''r2'') (Some ''HTTP 500''), Call (DeleteRelease 3 ''r3'') None,
         Call (DeleteTag ''t3'') None]"
    by (simp add: new_calls_def deleteAll_defs)
  have c3: "logs (snd (deleteAllReleases ?env demo_flags demo_state))
      = [Printf ''Associated tags will also be deleted.'',
         Printf ''Failed to delete release r2: HTTP 500'']"
    unfolding fin using a [THEN conjunct2, THEN conjunct2, THEN conjunct1] unfolding n7 l6 by simp
  have "\<exists>t1. GHClient_GetAllReleases (demo_internal_env demo_git) demo_client
           (logPrintf (''Deleting all releases for '' @ owner demo_client @ ''/'' @ repo demo_client)
              demo_state) = Some (Inr demo_releases, t1)"
    unfolding GHClient_GetAllReleases_def
    by (subst GetAllReleases_pages.simps) (simp add: demo_internal_env_def invoke_value_def)
  then obtain t1 where l: "GHClient_GetAllReleases (demo_internal_env demo_git) demo_client
           (logPrintf (''Deleting all releases for '' @ owner demo_client @ ''/'' @ repo demo_client)
              demo_state) = Some (Inr demo_releases, t1)" by blast
  from th [THEN conjunct2, THEN conjunct2, THEN conjunct1, rule_format, OF l]
  obtain t2 where "GHClient_DeleteAllReleases (demo_internal_env demo_git) demo_client demo_state
      = Some (None, t2)" by blast
  then have c4: "map_option fst (GHClient_DeleteAllReleases (demo_internal_env demo_git) demo_client
      demo_state) = Some None" by simp
  show ?thesis using c1 c2 c3 c4 by simp
qed

end
